(* ===== verification/CF_Prelude.thy ===== *)
theory CF_Prelude
  imports
    Main
    "HOL-Library.Word"
    "HOL-Library.Char_ord"
    "HOL-Library.List_Lexorder"
    "HOL-Library.Product_Lexorder"
    "HOL-Library.AList"
begin

unbundle bit_operations_syntax

text \<open>
  Shared vocabulary of the ChainForge development.

  \<^item> \<open>u8\<close> \dots \<open>u64\<close> are the fixed-width unsigned integers of C++; arithmetic on them wraps.
  \<^item> \<open>exn\<close> is the type of the standard exceptions the code throws or lets escape, and
    \<open>'a throws\<close> the result of a function that may throw (\<open>Inl\<close> is the exception).
  \<^item> \<open>be_bytes\<close> and \<open>be_shift_in\<close> are the two byte loops that occur all over the code base
    (\<open>push_back((x >> (i * 8)) & 0xFF)\<close> and \<open>acc = (acc << 8) | byte\<close>).
  \<^item> \<open>c_strto\<close> is the integer scanner of the C library behind \<open>std::stoi\<close>, \<open>std::stoul\<close> and
    \<open>std::stoull\<close>: leading white space, an optional sign, an optional \<open>0x\<close> prefix in base 16,
    then the longest run of digits; what follows the digits is ignored.
  \<^item> \<open>dec_string\<close>, \<open>hex_string\<close> and \<open>hex_bytes\<close> are the stream and \<open>std::to_string\<close> printers.
\<close>

type_synonym u8 = "8 word"
type_synonym u16 = "16 word"
type_synonym u32 = "32 word"
type_synonym u64 = "64 word"
type_synonym byte_vector = "u8 list"

named_theorems cf_defs \<open>definitions the component proofs unfold\<close>
named_theorems cf_wf \<open>well-formedness facts of constructed values\<close>

subsection \<open>Exceptions\<close>

datatype exn =
    Invalid_argument string
  | Out_of_range string
  | Overflow_error string
  | Underflow_error string
  | Domain_error string
  | Bad_variant_access

type_synonym 'a throws = "exn + 'a"

definition exn_what :: "exn \<Rightarrow> string" where
  "exn_what e = (case e of Invalid_argument s \<Rightarrow> s | Out_of_range s \<Rightarrow> s | Overflow_error s \<Rightarrow> s
     | Underflow_error s \<Rightarrow> s | Domain_error s \<Rightarrow> s | Bad_variant_access \<Rightarrow> ''bad variant access'')"

definition bind_exn :: "'a throws \<Rightarrow> ('a \<Rightarrow> 'b throws) \<Rightarrow> 'b throws" where
  "bind_exn m f = (case m of Inl e \<Rightarrow> Inl e | Inr a \<Rightarrow> f a)"

lemma bind_exn_simps [simp]:
  "bind_exn (Inl e) f = Inl e"
  "bind_exn (Inr a) f = f a"
  by (simp_all add: bind_exn_def)

lemma bind_exn_Inr_iff:
  "bind_exn m f = Inr b \<longleftrightarrow> (\<exists>a. m = Inr a \<and> f a = Inr b)"
  by (cases m) auto

text \<open>Run a fallible conversion over a list, stopping at the first exception.\<close>

fun mapM_exn :: "('a \<Rightarrow> 'b throws) \<Rightarrow> 'a list \<Rightarrow> 'b list throws" where
  "mapM_exn f [] = Inr []"
| "mapM_exn f (x # xs) =
     (case f x of Inl e \<Rightarrow> Inl e
      | Inr y \<Rightarrow> (case mapM_exn f xs of Inl e \<Rightarrow> Inl e | Inr ys \<Rightarrow> Inr (y # ys)))"

lemma mapM_exn_Inr:
  "(\<And>x. x \<in> set xs \<Longrightarrow> f x = Inr (g x)) \<Longrightarrow> mapM_exn f xs = Inr (map g xs)"
  by (induction xs) auto

lemma mapM_exn_length: "mapM_exn f xs = Inr ys \<Longrightarrow> length ys = length xs"
  by (induction xs arbitrary: ys) (auto split: sum.splits)

subsection \<open>Big-endian bytes\<close>

text \<open>
  \<^verbatim>\<open>for (int i = sizeof(x) - 1; i >= 0; --i) out.push_back((x >> (i * 8)) & 0xFF);\<close>
\<close>

definition byte_at :: "'a::len word \<Rightarrow> nat \<Rightarrow> u8" where
  "byte_at x i = ucast (drop_bit (i * 8) x AND 0xFF)"

fun be_bytes :: "'a::len word \<Rightarrow> nat \<Rightarrow> byte_vector" where
  "be_bytes x 0 = []"
| "be_bytes x (Suc i) = byte_at x i # be_bytes x i"

text \<open>\<^verbatim>\<open>for (b : bytes) acc = (acc << 8) | b;\<close>\<close>

definition be_shift_in :: "'a::len word \<Rightarrow> byte_vector \<Rightarrow> 'a word" where
  "be_shift_in acc bs = foldl (\<lambda>a b. push_bit 8 a OR ucast b) acc bs"

text \<open>The number a byte string denotes in base 256, the specification of both loops.\<close>

definition be_value :: "byte_vector \<Rightarrow> nat" where
  "be_value bs = foldl (\<lambda>a b. a * 256 + unat b) 0 bs"

lemma length_be_bytes [simp]: "length (be_bytes x n) = n"
  by (induction n) auto

lemma foldl_be_value:
  "foldl (\<lambda>a b. a * 256 + unat b) a bs = a * 256 ^ length bs + be_value bs"
proof (induction bs arbitrary: a)
  case (Cons b bs)
  have "be_value (b # bs) = unat b * 256 ^ length bs + be_value bs"
    using Cons.IH [of "unat b"] by (simp add: be_value_def)
  then show ?case
    using Cons.IH [of "a * 256 + unat b"] by (simp add: algebra_simps)
qed (simp add: be_value_def)

lemma be_value_Nil [simp]: "be_value [] = 0"
  by (simp add: be_value_def)

lemma be_value_Cons [simp]:
  "be_value (b # bs) = unat b * 256 ^ length bs + be_value bs"
  using foldl_be_value [of "unat b" bs] by (simp add: be_value_def)

lemma be_value_append: "be_value (xs @ ys) = be_value xs * 256 ^ length ys + be_value ys"
  by (induction xs) (simp_all add: algebra_simps power_add)

lemma unat_u8_less [simp]: "unat (b :: u8) < 256"
  using unsigned_less [of b, where ?'a = nat] by simp

lemma unat_u8_le [simp]: "unat (b :: u8) \<le> 255"
  using unat_u8_less [of b] by linarith

lemma be_value_less: "be_value bs < 256 ^ length bs"
proof (induction bs)
  case (Cons b bs)
  have "unat b * 256 ^ length bs + be_value bs < (unat b + 1) * 256 ^ length bs"
    using Cons.IH by (simp add: algebra_simps)
  also have "\<dots> \<le> 256 * 256 ^ length bs"
    by (rule mult_right_mono) simp_all
  finally show ?case by simp
qed simp

lemma unat_byte_at:
  fixes x :: "'a::len word"
  assumes "8 \<le> LENGTH('a)"
  shows "unat (byte_at x i) = unat x div 256 ^ i mod 256"
proof -
  have m: "(0xFF :: 'a word) = mask 8"
    by (simp add: mask_eq_exp_minus_1)
  have "unat (byte_at x i) = take_bit 8 (unat (take_bit 8 (drop_bit (i * 8) x)))"
    unfolding byte_at_def m take_bit_eq_mask [symmetric]
    by (simp add: unsigned_ucast_eq)
  also have "\<dots> = unat x div 2 ^ (i * 8) mod 256"
    using assms
    by (simp only: unsigned_take_bit_eq unsigned_drop_bit_eq) (simp add: drop_bit_eq_div take_bit_eq_mod)
  finally show ?thesis
    by (simp add: power_mult mult.commute [of i 8])
qed

lemma be_value_be_bytes:
  fixes x :: "'a::len word"
  assumes "8 \<le> LENGTH('a)"
  shows "be_value (be_bytes x n) = unat x mod 256 ^ n"
proof (induction n)
  case (Suc n)
  have "unat x mod 256 ^ Suc n = unat x mod 256 ^ n + 256 ^ n * (unat x div 256 ^ n mod 256)"
    using mod_mult2_eq [of "unat x" "256 ^ n" 256] by (simp add: mult.commute)
  with Suc.IH show ?case
    using assms by (simp add: unat_byte_at)
qed simp

lemma be_bytes_inject:
  fixes x y :: "'a::len word"
  assumes "8 \<le> LENGTH('a)" "LENGTH('a) = 8 * n"
  shows "be_bytes x n = be_bytes y n \<longleftrightarrow> x = y"
proof
  assume "be_bytes x n = be_bytes y n"
  then have "unat x mod 256 ^ n = unat y mod 256 ^ n"
    using be_value_be_bytes [OF assms(1), of x n] be_value_be_bytes [OF assms(1), of y n] by simp
  moreover have "(256 :: nat) ^ n = 2 ^ LENGTH('a)"
    unfolding assms(2) by (simp add: power_mult)
  ultimately show "x = y"
    using unsigned_less [of x, where ?'a = nat] unsigned_less [of y, where ?'a = nat]
    by (simp add: word_unat_eq_iff)
qed simp

lemma be_shift_in_Nil [simp]: "be_shift_in acc [] = acc"
  by (simp add: be_shift_in_def)

lemma be_shift_in_Cons [simp]:
  "be_shift_in acc (b # bs) = be_shift_in (push_bit 8 acc OR ucast b) bs"
  by (simp add: be_shift_in_def)

lemma shift_or_byte:
  fixes a :: "'a::len word"
  assumes "8 \<le> LENGTH('a)"
  shows "push_bit 8 a OR ucast (b :: u8) = a * 256 + ucast b"
proof -
  have "push_bit 8 a AND ucast b = 0"
    by (rule bit_word_eqI) (use bit_imp_le_length [of b] in \<open>force simp: bit_simps\<close>)
  then have "push_bit 8 a OR ucast b = push_bit 8 a + ucast b"
    by (rule disjunctive_add_eq_or [symmetric])
  then show ?thesis
    by (simp add: push_bit_eq_mult)
qed

lemma unat_be_shift_in:
  fixes acc :: "'a::len word"
  assumes "8 \<le> LENGTH('a)"
  shows "unat (be_shift_in acc bs) = (unat acc * 256 ^ length bs + be_value bs) mod 2 ^ LENGTH('a)"
proof (induction bs arbitrary: acc)
  case (Cons b bs)
  have "push_bit 8 acc OR ucast b = acc * 256 + ucast b"
    by (rule shift_or_byte [OF assms])
  also have "\<dots> = (of_nat (unat acc * 256 + unat b) :: 'a word)"
    by simp
  finally have "push_bit 8 acc OR ucast b = (of_nat (unat acc * 256 + unat b) :: 'a word)" .
  then have "be_shift_in acc (b # bs) = be_shift_in (of_nat (unat acc * 256 + unat b)) bs"
    by simp
  also have "unat \<dots> = ((unat acc * 256 + unat b) mod 2 ^ LENGTH('a) * 256 ^ length bs
      + be_value bs) mod 2 ^ LENGTH('a)"
    by (simp only: Cons.IH unat_of_nat)
  also have "\<dots> = ((unat acc * 256 + unat b) * 256 ^ length bs + be_value bs) mod 2 ^ LENGTH('a)"
    by (metis mod_add_left_eq mod_mult_left_eq)
  finally show ?case
    by (simp add: algebra_simps)
qed (simp add: unsigned_less)

text \<open>Reading back what was written: the round trip of the two byte loops.\<close>

lemma be_shift_in_be_bytes:
  fixes x :: "'a::len word"
  assumes "8 \<le> LENGTH('a)" "LENGTH('a) = 8 * n"
  shows "be_shift_in 0 (be_bytes x n) = x"
proof -
  have e: "(256 :: nat) ^ n = 2 ^ LENGTH('a)"
    unfolding assms(2) by (simp add: power_mult)
  have "unat (be_shift_in 0 (be_bytes x n) :: 'a word) = unat x"
    using unsigned_less [of x, where ?'a = nat] unat_be_shift_in [OF assms(1), of 0 "be_bytes x n"]
    by (simp add: be_value_be_bytes [OF assms(1), of x n] e)
  then show ?thesis by (simp add: word_unat_eq_iff)
qed

subsection \<open>Printing numbers and bytes\<close>

definition digit_char :: "nat \<Rightarrow> char" where
  "digit_char d = ''0123456789abcdef'' ! d"

text \<open>Digits of a number, most significant first, as \<open>operator<<\<close> and \<open>std::to_string\<close> print it.\<close>

function show_base :: "nat \<Rightarrow> nat \<Rightarrow> string" where
  "show_base b n =
     (if n < b \<or> b < 2 then [digit_char n] else show_base b (n div b) @ [digit_char (n mod b)])"
  by pat_completeness auto
termination
  by (relation "measure snd") (auto intro: div_less_dividend)

declare show_base.simps [simp del]

definition dec_string :: "nat \<Rightarrow> string" where
  "dec_string n = show_base 10 n"

definition int_string :: "int \<Rightarrow> string" where
  "int_string i = (if i < 0 then CHR ''-'' # dec_string (nat (- i)) else dec_string (nat i))"

definition hex_string :: "nat \<Rightarrow> string" where
  "hex_string n = show_base 16 n"

text \<open>\<^verbatim>\<open>ss << std::hex << std::setfill('0') << std::setw(2) << static_cast<int>(byte)\<close>\<close>

definition hex_byte :: "u8 \<Rightarrow> string" where
  "hex_byte b = (let s = hex_string (unat b) in replicate (2 - length s) CHR ''0'' @ s)"

definition hex_bytes :: "byte_vector \<Rightarrow> string" where
  "hex_bytes bs = concat (map hex_byte bs)"

subsection \<open>The C library's integer scanner\<close>

definition is_space :: "char \<Rightarrow> bool" where
  "is_space c = (let n = (of_char c :: nat) in n = 32 \<or> (9 \<le> n \<and> n \<le> 13))"

definition digit_value :: "nat \<Rightarrow> char \<Rightarrow> nat option" where
  "digit_value base c =
     (let n = (of_char c :: nat);
          v = (if 48 \<le> n \<and> n \<le> 57 then Some (n - 48)
               else if 97 \<le> n \<and> n \<le> 122 then Some (n - 87)
               else if 65 \<le> n \<and> n \<le> 90 then Some (n - 55) else None)
      in case v of Some d \<Rightarrow> if d < base then Some d else None | None \<Rightarrow> None)"

fun scan_digits :: "nat \<Rightarrow> nat \<Rightarrow> string \<Rightarrow> nat" where
  "scan_digits base acc [] = acc"
| "scan_digits base acc (c # cs) =
     (case digit_value base c of None \<Rightarrow> acc | Some d \<Rightarrow> scan_digits base (acc * base + d) cs)"

definition starts_digit :: "nat \<Rightarrow> string \<Rightarrow> bool" where
  "starts_digit base s = (case s of [] \<Rightarrow> False | c # _ \<Rightarrow> digit_value base c \<noteq> None)"

text \<open>In base 16 a prefix \<open>0x\<close> or \<open>0X\<close> is skipped when a hexadecimal digit follows it.\<close>

fun skip_0x :: "nat \<Rightarrow> string \<Rightarrow> string" where
  "skip_0x base (z # x # s) =
     (if base = 16 \<and> z = CHR ''0'' \<and> (x = CHR ''x'' \<or> x = CHR ''X'') \<and> starts_digit 16 s
      then s else z # x # s)"
| "skip_0x base s = s"

definition scan_sign :: "string \<Rightarrow> bool \<times> string" where
  "scan_sign s = (case s of [] \<Rightarrow> (False, [])
     | c # cs \<Rightarrow> if c = CHR ''-'' then (True, cs) else if c = CHR ''+'' then (False, cs) else (False, s))"

text \<open>Sign and magnitude of the number at the start of a string; \<open>None\<close> when there is none.\<close>

definition c_strto :: "nat \<Rightarrow> string \<Rightarrow> (bool \<times> nat) option" where
  "c_strto base s =
     (let (neg, s1) = scan_sign (dropWhile is_space s); s2 = skip_0x base s1
      in if starts_digit base s2 then Some (neg, scan_digits base 0 s2) else None)"

definition stoi :: "nat \<Rightarrow> string \<Rightarrow> int throws" where
  "stoi base s = (case c_strto base s of
       None \<Rightarrow> Inl (Invalid_argument ''stoi'')
     | Some (neg, m) \<Rightarrow>
         (let v = (if neg then - int m else int m)
          in if v < - (2 ^ 31) \<or> 2 ^ 31 - 1 < v then Inl (Out_of_range ''stoi'') else Inr v))"

definition stoull :: "nat \<Rightarrow> string \<Rightarrow> u64 throws" where
  "stoull base s = (case c_strto base s of
       None \<Rightarrow> Inl (Invalid_argument ''stoull'')
     | Some (neg, m) \<Rightarrow>
         if 2 ^ 64 \<le> m then Inl (Out_of_range ''stoull'')
         else Inr (if neg then - of_nat m else of_nat m))"

text \<open>\<open>unsigned long\<close> has 64 bits on the LP64 targets the build files name.\<close>

definition stoul :: "nat \<Rightarrow> string \<Rightarrow> u64 throws" where
  "stoul base s = (case c_strto base s of
       None \<Rightarrow> Inl (Invalid_argument ''stoul'')
     | Some (neg, m) \<Rightarrow>
         if 2 ^ 64 \<le> m then Inl (Out_of_range ''stoul'')
         else Inr (if neg then - of_nat m else of_nat m))"

lemma digit_char_facts:
  "\<forall>d \<in> set [0..<16]. digit_value 16 (digit_char d) = Some d \<and>
     (digit_value 10 (digit_char d) = (if d < 10 then Some d else None)) \<and>
     \<not> is_space (digit_char d) \<and> digit_char d \<notin> set ''-+xX.''"
  by (simp add: upt_rec digit_char_def digit_value_def is_space_def)

lemma digit_value_16: "d < 16 \<Longrightarrow> digit_value 16 (digit_char d) = Some d"
  and digit_value_10: "d < 10 \<Longrightarrow> digit_value 10 (digit_char d) = Some d"
  and digit_char_plain: "d < 16 \<Longrightarrow> \<not> is_space (digit_char d) \<and> digit_char d \<noteq> CHR ''-''
    \<and> digit_char d \<noteq> CHR ''+'' \<and> digit_char d \<noteq> CHR ''x'' \<and> digit_char d \<noteq> CHR ''X''
    \<and> digit_char d \<noteq> CHR ''.''"
  using digit_char_facts by (auto simp: Ball_def)

lemma scan_digits_append:
  "\<forall>c \<in> set xs. digit_value base c \<noteq> None \<Longrightarrow>
   scan_digits base acc (xs @ ys) = scan_digits base (scan_digits base acc xs) ys"
  by (induction xs arbitrary: acc) auto

lemma show_base_not_Nil [simp]: "show_base b n \<noteq> []"
  by (subst show_base.simps) simp

lemma scan_show_base:
  assumes v: "\<And>d. d < base \<Longrightarrow> digit_value base (digit_char d) = Some d" and b: "2 \<le> base"
  shows "(\<forall>c \<in> set (show_base base n). \<exists>d<base. c = digit_char d) \<and>
    scan_digits base 0 (show_base base n) = n"
proof (induction n rule: less_induct)
  case (less n)
  show ?case
  proof (cases "n < base")
    case True
    then show ?thesis by (auto simp: show_base.simps [of base n] v)
  next
    case False
    then have lt: "n div base < n"
      using b by (intro div_less_dividend) auto
    have unf: "show_base base n = show_base base (n div base) @ [digit_char (n mod base)]"
      using False b by (subst show_base.simps) auto
    have md: "n mod base < base"
      using b by simp
    have digits: "\<forall>c \<in> set (show_base base (n div base)). \<exists>d<base. c = digit_char d"
      using less.IH [OF lt] by blast
    then have "\<forall>c \<in> set (show_base base (n div base)). digit_value base c \<noteq> None"
      using v by fastforce
    then have "scan_digits base 0 (show_base base n)
        = scan_digits base (n div base) [digit_char (n mod base)]"
      using less.IH [OF lt] by (simp add: unf scan_digits_append)
    also have "\<dots> = n"
      using v [OF md] by simp
    finally show ?thesis
      using digits md by (auto simp: unf)
  qed
qed

text \<open>What the printers write is read back by the scanner.\<close>

lemma c_strto_show_base:
  assumes v: "\<And>d. d < base \<Longrightarrow> digit_value base (digit_char d) = Some d"
    and b: "2 \<le> base" "base \<le> 16"
  shows "c_strto base (show_base base n) = Some (False, n)"
proof -
  obtain c cs where s: "show_base base n = c # cs"
    by (cases "show_base base n") auto
  have dig: "\<forall>c \<in> set (c # cs). \<exists>d<base. c = digit_char d"
    and val: "scan_digits base 0 (c # cs) = n"
    using scan_show_base [OF v b(1), of n] by (simp_all add: s)
  have plain: "\<not> is_space c \<and> c \<noteq> CHR ''-'' \<and> c \<noteq> CHR ''+''"
    using dig b(2) by (auto dest!: digit_char_plain [OF less_le_trans])
  have st: "starts_digit base (c # cs)"
    using dig v by (auto simp: starts_digit_def)
  have "skip_0x base (c # cs) = c # cs"
  proof (cases cs)
    case (Cons x xs)
    then have "x \<noteq> CHR ''x'' \<and> x \<noteq> CHR ''X''"
      using dig b(2) by (auto dest!: digit_char_plain [OF less_le_trans])
    with Cons show ?thesis by simp
  qed simp
  with plain st val show ?thesis
    by (simp add: c_strto_def s scan_sign_def)
qed

lemma stoull_dec_string:
  "n < 2 ^ 64 \<Longrightarrow> stoull 10 (dec_string n) = Inr (of_nat n)"
  by (simp add: stoull_def dec_string_def c_strto_show_base digit_value_10)

lemma stoull_hex_string:
  "n < 2 ^ 64 \<Longrightarrow> stoull 16 (hex_string n) = Inr (of_nat n)"
  by (simp add: stoull_def hex_string_def c_strto_show_base digit_value_16)

lemma dec_string_digits: "\<forall>c \<in> set (dec_string n). \<exists>d<10. c = digit_char d"
  using scan_show_base [OF digit_value_10, of n] by (simp add: dec_string_def)

lemma c_strto_digits:
  assumes "s \<noteq> []" and dig: "\<forall>c \<in> set s. \<exists>d<10. c = digit_char d"
  shows "c_strto 10 s = Some (False, scan_digits 10 0 s)"
proof -
  obtain c cs where s: "s = c # cs" using assms(1) by (cases s) auto
  obtain d where d: "d < 10" "c = digit_char d" using dig s by auto
  have "skip_0x 10 s = s" by (cases "(10::nat, s)" rule: skip_0x.cases) auto
  with d show ?thesis
    using digit_char_plain [of d] digit_value_10 [OF d(1)]
    by (simp add: c_strto_def s scan_sign_def starts_digit_def)
qed

lemma length_show_base: "2 \<le> b \<Longrightarrow> n < b ^ k \<Longrightarrow> 0 < k \<Longrightarrow> length (show_base b n) \<le> k"
proof (induction k arbitrary: n)
  case (Suc k)
  show ?case
  proof (cases "n < b")
    case False
    with Suc.prems have "0 < k" by (cases k) auto
    moreover have "n div b < b ^ k"
      using Suc.prems by (simp add: less_mult_imp_div_less mult.commute)
    ultimately show ?thesis
      using Suc False by (subst show_base.simps) auto
  qed (simp add: show_base.simps)
qed simp

lemma dec_string_bounds: "0 < n \<Longrightarrow> 10 ^ (length (dec_string n) - 1) \<le> n \<and> n < 10 ^ length (dec_string n)"
proof (induction n rule: less_induct)
  case (less n)
  show ?case
  proof (cases "n < 10")
    case False
    then have l: "length (dec_string n) = Suc (length (dec_string (n div 10)))"
      by (simp add: dec_string_def show_base.simps [of 10 n])
    have ne: "0 < length (dec_string (n div 10))" by (simp add: dec_string_def show_base.simps [of 10 "n div 10"])
    have "10 ^ (length (dec_string (n div 10)) - 1) \<le> n div 10" "n div 10 < 10 ^ length (dec_string (n div 10))"
      using less.IH [of "n div 10"] False by auto
    then have "10 * 10 ^ (length (dec_string (n div 10)) - 1) \<le> n" "n < 10 * 10 ^ length (dec_string (n div 10))"
      by linarith+
    with ne show ?thesis by (simp add: l power_Suc [symmetric] del: power_Suc)
  qed (use less.prems in \<open>simp add: dec_string_def show_base.simps\<close>)
qed

lemma scan_digits_zeros: "scan_digits 10 0 (replicate n CHR ''0'' @ s) = scan_digits 10 0 s"
  by (induction n) (simp_all add: digit_value_def)

subsection \<open>Bytes from hexadecimal text\<close>

text \<open>
  \<^verbatim>\<open>for (i = 0; i < n; ++i) out[i] = static_cast<uint8_t>(std::stoi(s.substr(i * 2, 2), nullptr, 16));\<close>
  the body shared by every hexadecimal constructor.
\<close>

definition hex_pair :: "string \<Rightarrow> u8 throws" where
  "hex_pair s = bind_exn (stoi 16 s) (\<lambda>v. Inr (word_of_int v))"

definition parse_hex :: "nat \<Rightarrow> string \<Rightarrow> byte_vector throws" where
  "parse_hex n s = mapM_exn (\<lambda>i. hex_pair (take 2 (drop (i * 2) s))) [0..<n]"

lemma hex_string_small: "d < 16 \<Longrightarrow> hex_string d = [digit_char d]"
  by (simp add: hex_string_def show_base.simps)

lemma hex_byte_digits: "hex_byte b = [digit_char (unat b div 16), digit_char (unat b mod 16)]"
proof (cases "unat b < 16")
  case True
  then show ?thesis by (simp add: hex_byte_def hex_string_small) (simp add: digit_char_def)
next
  case False
  have "unat b div 16 < 16"
    using unat_u8_less [of b] by (simp add: less_mult_imp_div_less)
  with False have "hex_string (unat b) = [digit_char (unat b div 16), digit_char (unat b mod 16)]"
    by (simp add: hex_string_def show_base.simps [of 16 "unat b"])
      (simp add: show_base.simps)
  then show ?thesis by (simp add: hex_byte_def)
qed

lemma length_hex_byte [simp]: "length (hex_byte b) = 2"
  by (simp add: hex_byte_digits)

lemma length_hex_bytes [simp]: "length (hex_bytes bs) = 2 * length bs"
  by (induction bs) (simp_all add: hex_bytes_def)

lemma hex_pair_hex_byte: "hex_pair (hex_byte b) = Inr b"
proof -
  let ?h = "unat b div 16" and ?l = "unat b mod 16"
  have h: "?h < 16" using unat_u8_less [of b] by (simp add: less_mult_imp_div_less)
  have l: "?l < 16" by simp
  have v: "?h * 16 + ?l = unat b" by simp
  have "c_strto 16 (hex_byte b) = Some (False, unat b)"
    using digit_char_plain [OF h] digit_char_plain [OF l]
    by (simp add: hex_byte_digits c_strto_def scan_sign_def starts_digit_def
        digit_value_16 [OF h] digit_value_16 [OF l] v)
  then show ?thesis
    using unat_u8_less [of b] by (simp add: hex_pair_def stoi_def del: unat_u8_less)
qed

lemma hex_bytes_nth_pair:
  "i < length bs \<Longrightarrow> take 2 (drop (i * 2) (hex_bytes bs)) = hex_byte (bs ! i)"
proof (induction bs arbitrary: i)
  case (Cons b bs)
  then show ?case
    by (cases i) (simp_all add: hex_bytes_def)
qed simp

lemma parse_hex_hex_bytes: "parse_hex (length bs) (hex_bytes bs) = Inr bs"
proof -
  have "parse_hex (length bs) (hex_bytes bs) = Inr (map ((!) bs) [0..<length bs])"
    unfolding parse_hex_def
    by (rule mapM_exn_Inr) (simp add: hex_bytes_nth_pair hex_pair_hex_byte)
  then show ?thesis by (simp add: map_nth)
qed

lemma parse_hex_length: "parse_hex n s = Inr bs \<Longrightarrow> length bs = n"
  unfolding parse_hex_def by (drule mapM_exn_length) simp

subsection \<open>Refinement of call sequences\<close>

text \<open>The results of a list of calls and the final state.\<close>

fun run_all :: "('c \<Rightarrow> 's \<Rightarrow> 'r \<times> 's) \<Rightarrow> 'c list \<Rightarrow> 's \<Rightarrow> 'r list \<times> 's" where
  "run_all f [] s = ([], s)"
| "run_all f (c # cs) s = (let (r, s1) = f c s; (rs, s2) = run_all f cs s1 in (r # rs, s2))"

text \<open>
  A concrete object that implements an abstract one: every call keeps the invariant and returns
  what the abstract call returns, on the abstraction of the state.
\<close>

locale refinement =
  fixes conc :: "'c \<Rightarrow> 's \<Rightarrow> 'r \<times> 's" and spec :: "'c \<Rightarrow> 'a \<Rightarrow> 'r \<times> 'a"
    and abst :: "'s \<Rightarrow> 'a" and invar :: "'s \<Rightarrow> bool"
  assumes step_invar: "invar s \<Longrightarrow> invar (snd (conc c s))"
    and step_refines: "invar s \<Longrightarrow> spec c (abst s) = (fst (conc c s), abst (snd (conc c s)))"
begin

lemma run_refines:
  "invar s \<Longrightarrow> invar (snd (run_all conc cs s)) \<and>
   run_all spec cs (abst s) = (fst (run_all conc cs s), abst (snd (run_all conc cs s)))"
proof (induction cs arbitrary: s)
  case (Cons c cs)
  then show ?case
    using step_invar [OF Cons.prems, of c] step_refines [OF Cons.prems, of c] Cons.IH [of "snd (conc c s)"]
    by (auto simp: split_beta Let_def)
qed simp

end

end
