(* ===== verification/Containers.thy ===== *)
theory Containers
  imports CF_Prelude "HOL-Library.Multiset"
begin

text \<open>
  The standard containers the components keep their state in, each behind a contract.
  A \<open>std::unordered_map\<close> is an association list with distinct keys, whose order stands for the
  unspecified iteration order. A \<open>std::map\<close> is an association list with increasing keys. A
  \<open>std::priority_queue\<close> is the list of its elements from the largest to the smallest.
\<close>

subsection \<open>Priority queue\<close>

primrec pq_push :: "'a::linorder \<Rightarrow> 'a list \<Rightarrow> 'a list" where
  "pq_push x [] = [x]"
| "pq_push x (y # q) = (if y \<le> x then x # y # q else y # pq_push x q)"

definition pq_top :: "'a list \<Rightarrow> 'a" where "pq_top q = hd q"
definition pq_pop :: "'a list \<Rightarrow> 'a list" where "pq_pop q = tl q"
definition pq_empty :: "'a list \<Rightarrow> bool" where "pq_empty q = (q = [])"

definition pq_build :: "'a::linorder list \<Rightarrow> 'a list" where
  "pq_build xs = fold pq_push xs []"

abbreviation descending :: "'a::linorder list \<Rightarrow> bool" where
  "descending q \<equiv> sorted_wrt (\<ge>) q"

locale priority_queue =
  fixes push :: "'a::linorder \<Rightarrow> 'q \<Rightarrow> 'q" and top :: "'q \<Rightarrow> 'a" and pop :: "'q \<Rightarrow> 'q"
    and is_empty :: "'q \<Rightarrow> bool" and elements :: "'q \<Rightarrow> 'a multiset" and invar :: "'q \<Rightarrow> bool"
  assumes push_elements: "invar q \<Longrightarrow> elements (push x q) = add_mset x (elements q)"
    and push_invar: "invar q \<Longrightarrow> invar (push x q)"
    and empty_elements: "invar q \<Longrightarrow> is_empty q \<longleftrightarrow> elements q = {#}"
    and top_max: "invar q \<Longrightarrow> elements q \<noteq> {#} \<Longrightarrow> top q = Max_mset (elements q)"
    and pop_elements: "invar q \<Longrightarrow> elements q \<noteq> {#} \<Longrightarrow> elements (pop q) = elements q - {#top q#}"
    and pop_invar: "invar q \<Longrightarrow> elements q \<noteq> {#} \<Longrightarrow> invar (pop q)"
begin

text \<open>Pushing a whole sequence keeps every element, whatever the order.\<close>

lemma fold_push: "invar q \<Longrightarrow> invar (fold push xs q) \<and> elements (fold push xs q) = elements q + mset xs"
  by (induction xs arbitrary: q) (auto simp: push_invar push_elements)

lemma top_in: "invar q \<Longrightarrow> elements q \<noteq> {#} \<Longrightarrow> top q \<in># elements q"
  by (simp add: top_max)

lemma pop_size: "invar q \<Longrightarrow> elements q \<noteq> {#} \<Longrightarrow> size (elements (pop q)) < size (elements q)"
  by (simp add: pop_elements top_in size_Diff_singleton nonempty_has_size)

end

lemma set_pq_push [simp]: "set (pq_push x q) = insert x (set q)"
  by (induction q) auto

lemma mset_pq_push [simp]: "mset (pq_push x q) = add_mset x (mset q)"
  by (induction q) auto

lemma descending_pq_push [simp]: "descending q \<Longrightarrow> descending (pq_push x q)"
  by (induction q) auto

interpretation pq: priority_queue pq_push pq_top pq_pop pq_empty mset descending
proof unfold_locales
  fix q :: "'a::linorder list" and x
  assume s: "descending q"
  show "mset (pq_push x q) = add_mset x (mset q)" by simp
  show "descending (pq_push x q)" using s by simp
  show "pq_empty q \<longleftrightarrow> mset q = {#}" by (simp add: pq_empty_def)
  assume "mset q \<noteq> {#}"
  then obtain y ys where q: "q = y # ys" by (cases q) auto
  show "pq_top q = Max_mset (mset q)"
    using s by (auto simp: q pq_top_def intro!: Max_eqI [symmetric])
  show "mset (pq_pop q) = mset q - {#pq_top q#}" by (simp add: q pq_pop_def pq_top_def)
  show "descending (pq_pop q)" using s by (simp add: q pq_pop_def)
qed

lemma pq_build_facts: "descending (pq_build xs)" "mset (pq_build xs) = mset xs"
  using pq.fold_push [of "[]" xs] by (auto simp: pq_build_def)

lemma descending_unique: "descending xs \<Longrightarrow> descending ys \<Longrightarrow> mset xs = mset ys \<Longrightarrow> xs = ys"
proof (induction xs arbitrary: ys)
  case (Cons x xs)
  then obtain y zs where ys: "ys = y # zs" by (cases ys) auto
  have "x \<in> set ys" "y \<in> set (x # xs)"
    using Cons.prems(3) by (metis list.set_intros(1) set_mset_mset ys)+
  then have "x = y" using Cons.prems(1,2) by (auto simp: ys intro: antisym)
  then show ?case using Cons by (simp add: ys)
qed simp

subsection \<open>Maps\<close>

locale map_contract =
  fixes lookup :: "'m \<Rightarrow> 'k \<Rightarrow> 'v option" and insert_op :: "'k \<Rightarrow> 'v \<Rightarrow> 'm \<Rightarrow> 'm"
    and erase :: "'k \<Rightarrow> 'm \<Rightarrow> 'm" and invar :: "'m \<Rightarrow> bool" and empty_map :: 'm
  assumes lookup_empty: "lookup empty_map k = None"
    and lookup_insert: "invar m \<Longrightarrow> lookup (insert_op k v m) j = (if j = k then Some v else lookup m j)"
    and lookup_erase: "invar m \<Longrightarrow> lookup (erase k m) j = (if j = k then None else lookup m j)"
    and invar_empty: "invar empty_map"
    and invar_insert: "invar m \<Longrightarrow> invar (insert_op k v m)"
    and invar_erase: "invar m \<Longrightarrow> invar (erase k m)"
begin

lemma erase_insert_lookup: "invar m \<Longrightarrow> lookup (erase k (insert_op k v m)) = lookup (erase k m)"
  by (rule ext) (simp add: lookup_insert lookup_erase invar_insert)

lemma lookup_fold_erase:
  "invar m \<Longrightarrow> invar (fold erase ks m) \<and>
   lookup (fold erase ks m) j = (if j \<in> set ks then None else lookup m j)"
  by (induction ks arbitrary: m) (auto simp: lookup_erase invar_erase)

end

abbreviation distinct_keys :: "('k \<times> 'v) list \<Rightarrow> bool" where
  "distinct_keys m \<equiv> distinct (map fst m)"

definition um_lookup :: "('k \<times> 'v) list \<Rightarrow> 'k \<Rightarrow> 'v option" where "um_lookup m k = map_of m k"
definition um_insert :: "'k \<Rightarrow> 'v \<Rightarrow> ('k \<times> 'v) list \<Rightarrow> ('k \<times> 'v) list" where
  "um_insert k v m = AList.update k v m"
definition um_erase :: "'k \<Rightarrow> ('k \<times> 'v) list \<Rightarrow> ('k \<times> 'v) list" where "um_erase k m = AList.delete k m"

lemmas um_defs = um_lookup_def um_insert_def um_erase_def

interpretation um: map_contract um_lookup um_insert um_erase distinct_keys "[]"
  by unfold_locales
    (auto simp: um_defs AList.update_conv' AList.delete_conv' distinct_update distinct_delete)

lemma um_lookup_in: "distinct_keys m \<Longrightarrow> um_lookup m k = Some v \<longleftrightarrow> (k, v) \<in> set m"
  by (auto simp: um_lookup_def)

lemma um_lookup_None: "um_lookup m k = None \<longleftrightarrow> k \<notin> fst ` set m"
  by (simp add: um_lookup_def map_of_eq_None_iff)

lemma um_insert_new: "um_lookup m k = None \<Longrightarrow> um_insert k v m = m @ [(k, v)]"
  by (induction m) (auto simp: um_defs split: if_splits)

lemma um_erase_filter: "um_erase k m = filter (\<lambda>p. fst p \<noteq> k) m"
  by (induction m) (auto simp: um_erase_def)

lemma length_um_erase: "distinct_keys m \<Longrightarrow> um_lookup m k \<noteq> None \<Longrightarrow> Suc (length (um_erase k m)) = length m"
proof (induction m)
  case (Cons p m)
  show ?case
  proof (cases "fst p = k")
    case True
    then have "filter (\<lambda>p. fst p \<noteq> k) m = m" using Cons.prems(1) by (auto simp: filter_id_conv image_iff)
    then show ?thesis using True by (simp add: um_erase_filter)
  next
    case False
    then show ?thesis using Cons by (cases p) (auto simp: um_erase_filter um_lookup_def)
  qed
qed (simp add: um_lookup_def)

lemma length_um_insert: "length (um_insert k v m) = (if um_lookup m k = None then Suc (length m) else length m)"
  by (induction m) (auto simp: um_defs)

end
