(* ===== verification/Storage.thy ===== *)
theory Storage
  imports Containers
begin

text \<open>
  The key-value store (modules/storage/src/rocksdb_database.cpp): \<open>MemoryDatabase\<close>,
  \<open>MemoryWriteBatch\<close> and \<open>MemoryIterator\<close>. An iterator keeps a sorted copy of the keys and a
  reference to the live table, so \<open>it_value\<close> takes the database it points into. The abstract
  database is a partial map, or \<open>None\<close> while closed; every operation refines it.
\<close>

subsection \<open>Data\<close>

datatype StorageError = SUCCESS | NOT_FOUND | ALREADY_EXISTS | INVALID_ARGUMENT | IO_ERROR
  | CORRUPTION | NOT_SUPPORTED | TIMEOUT | LOCK_CONFLICT

type_synonym Key = byte_vector
type_synonym Value = byte_vector

record DatabaseConfig =
  db_path :: string
  db_create_if_missing :: bool
  db_error_if_exists :: bool
  db_write_buffer_size :: nat
  db_max_open_files :: nat
  db_block_cache_size :: nat
  db_compression :: bool
  db_compression_level :: int
  db_max_background_jobs :: nat

datatype Operation = PUT Key Value | REMOVE Key

record MemoryDatabase =
  md_data :: "(Key \<times> Value) list"
  md_config :: DatabaseConfig
  md_is_open :: bool

record MemoryIterator =
  it_keys :: "Key list"
  it_index :: int

definition default_database_config :: DatabaseConfig where
  "default_database_config = \<lparr> db_path = [], db_create_if_missing = True, db_error_if_exists = False,
     db_write_buffer_size = 64 * 1024 * 1024, db_max_open_files = 1000, db_block_cache_size = 8 * 1024 * 1024,
     db_compression = True, db_compression_level = 6, db_max_background_jobs = 2 \<rparr>"

definition make_database :: MemoryDatabase where
  "make_database = \<lparr> md_data = [], md_config = default_database_config, md_is_open = False \<rparr>"

subsection \<open>Write batches\<close>

type_synonym MemoryWriteBatch = "Operation list"

definition batch_put :: "Key \<Rightarrow> Value \<Rightarrow> MemoryWriteBatch \<Rightarrow> MemoryWriteBatch" where
  "batch_put k v b = b @ [PUT k v]"

definition batch_remove :: "Key \<Rightarrow> MemoryWriteBatch \<Rightarrow> MemoryWriteBatch" where
  "batch_remove k b = b @ [REMOVE k]"

definition batch_clear :: "MemoryWriteBatch \<Rightarrow> MemoryWriteBatch" where
  "batch_clear b = []"

subsection \<open>Database operations\<close>

definition db_open :: "DatabaseConfig \<Rightarrow> MemoryDatabase \<Rightarrow> StorageError \<times> MemoryDatabase" where
  "db_open config s =
     (if md_is_open s then (ALREADY_EXISTS, s)
      else if db_error_if_exists config \<and> md_data s \<noteq> [] then (ALREADY_EXISTS, s)
      else (SUCCESS, s\<lparr>md_config := config, md_is_open := True\<rparr>))"

definition db_close :: "MemoryDatabase \<Rightarrow> StorageError \<times> MemoryDatabase" where
  "db_close s =
     (if \<not> md_is_open s then (SUCCESS, s) else (SUCCESS, s\<lparr>md_data := [], md_is_open := False\<rparr>))"

definition db_is_open :: "MemoryDatabase \<Rightarrow> bool" where
  "db_is_open s = md_is_open s"

definition db_get :: "Key \<Rightarrow> MemoryDatabase \<Rightarrow> Value \<times> StorageError" where
  "db_get k s =
     (if \<not> md_is_open s then ([], IO_ERROR)
      else case um_lookup (md_data s) k of None \<Rightarrow> ([], NOT_FOUND) | Some v \<Rightarrow> (v, SUCCESS))"

definition db_put :: "Key \<Rightarrow> Value \<Rightarrow> MemoryDatabase \<Rightarrow> StorageError \<times> MemoryDatabase" where
  "db_put k v s =
     (if \<not> md_is_open s then (IO_ERROR, s) else (SUCCESS, s\<lparr>md_data := um_insert k v (md_data s)\<rparr>))"

definition db_remove :: "Key \<Rightarrow> MemoryDatabase \<Rightarrow> StorageError \<times> MemoryDatabase" where
  "db_remove k s =
     (if \<not> md_is_open s then (IO_ERROR, s)
      else case um_lookup (md_data s) k of
             None \<Rightarrow> (NOT_FOUND, s)
           | Some v \<Rightarrow> (SUCCESS, s\<lparr>md_data := um_erase k (md_data s)\<rparr>))"

fun apply_operation :: "Operation \<Rightarrow> (Key \<times> Value) list \<Rightarrow> (Key \<times> Value) list" where
  "apply_operation (PUT k v) d = um_insert k v d"
| "apply_operation (REMOVE k) d = um_erase k d"

text \<open>The argument is \<open>None\<close> when the batch is not a \<open>MemoryWriteBatch\<close>.\<close>

definition db_write :: "MemoryWriteBatch option \<Rightarrow> MemoryDatabase \<Rightarrow> StorageError \<times> MemoryDatabase" where
  "db_write batch s =
     (if \<not> md_is_open s then (IO_ERROR, s)
      else case batch of
             None \<Rightarrow> (INVALID_ARGUMENT, s)
           | Some ops \<Rightarrow> (SUCCESS, s\<lparr>md_data := fold apply_operation ops (md_data s)\<rparr>))"

definition db_get_property :: "string \<Rightarrow> MemoryDatabase \<Rightarrow> string \<times> StorageError" where
  "db_get_property property s =
     (if \<not> md_is_open s then ([], IO_ERROR)
      else if property = ''rocksdb.stats''
      then (''In-memory database stats:'' @ [CHR 0x0A] @ ''Keys: '' @ dec_string (length (md_data s)) @ [CHR 0x0A], SUCCESS)
      else ([], NOT_FOUND))"

definition db_get_approximate_size :: "Key \<Rightarrow> Key \<Rightarrow> MemoryDatabase \<Rightarrow> u64 \<times> StorageError" where
  "db_get_approximate_size start limit s =
     (if \<not> md_is_open s then (0, IO_ERROR)
      else (foldl (\<lambda>n (k, v). if start \<le> k \<and> k \<le> limit then n + (of_nat (length k) + of_nat (length v)) else n)
              0 (md_data s), SUCCESS))"

subsection \<open>Iterators\<close>

definition make_iterator :: "(Key \<times> Value) list \<Rightarrow> MemoryIterator" where
  "make_iterator d = \<lparr> it_keys = sort (map fst d), it_index = - 1 \<rparr>"

definition db_new_iterator :: "MemoryDatabase \<Rightarrow> MemoryIterator option" where
  "db_new_iterator s = (if \<not> md_is_open s then None else Some (make_iterator (md_data s)))"

text \<open>\<open>static_cast<int>\<close> of a size.\<close>

definition to_int :: "nat \<Rightarrow> int" where
  "to_int n = sint (of_nat n :: u32)"

definition it_valid :: "MemoryIterator \<Rightarrow> bool" where
  "it_valid i = (0 \<le> it_index i \<and> nat (it_index i) < length (it_keys i))"

definition it_seek_to_first :: "MemoryIterator \<Rightarrow> MemoryIterator" where
  "it_seek_to_first i = i\<lparr>it_index := (if it_keys i = [] then - 1 else 0)\<rparr>"

definition it_seek_to_last :: "MemoryIterator \<Rightarrow> MemoryIterator" where
  "it_seek_to_last i = i\<lparr>it_index := (if it_keys i = [] then - 1 else to_int (length (it_keys i) - 1))\<rparr>"

definition lower_bound :: "'a::linorder list \<Rightarrow> 'a \<Rightarrow> nat" where
  "lower_bound xs x = length (takeWhile (\<lambda>y. y < x) xs)"

definition it_seek :: "Key \<Rightarrow> MemoryIterator \<Rightarrow> MemoryIterator" where
  "it_seek k i =
     (let p = lower_bound (it_keys i) k
      in if p < length (it_keys i) \<and> it_keys i ! p = k then i\<lparr>it_index := to_int p\<rparr>
         else i\<lparr>it_index := - 1\<rparr>)"

text \<open>\<open>keys_.size() - 1\<close> is unsigned.\<close>

definition it_next :: "MemoryIterator \<Rightarrow> MemoryIterator" where
  "it_next i =
     (if 0 \<le> it_index i \<and> (of_int (it_index i) :: u64) < of_nat (length (it_keys i)) - 1
      then i\<lparr>it_index := it_index i + 1\<rparr> else i\<lparr>it_index := - 1\<rparr>)"

definition it_prev :: "MemoryIterator \<Rightarrow> MemoryIterator" where
  "it_prev i = (if 0 < it_index i then i\<lparr>it_index := it_index i - 1\<rparr> else i\<lparr>it_index := - 1\<rparr>)"

definition it_key :: "MemoryIterator \<Rightarrow> Key" where
  "it_key i = (if \<not> it_valid i then [] else it_keys i ! nat (it_index i))"

definition it_value :: "MemoryDatabase \<Rightarrow> MemoryIterator \<Rightarrow> Value" where
  "it_value s i =
     (if \<not> it_valid i then []
      else case um_lookup (md_data s) (it_keys i ! nat (it_index i)) of None \<Rightarrow> [] | Some v \<Rightarrow> v)"

subsection \<open>The abstract database\<close>

type_synonym abstract_db = "(Key \<rightharpoonup> Value) option"

definition db_abs :: "MemoryDatabase \<Rightarrow> abstract_db" where
  "db_abs s = (if md_is_open s then Some (um_lookup (md_data s)) else None)"

text \<open>Keys are distinct, and a closed database is empty.\<close>

definition db_inv :: "MemoryDatabase \<Rightarrow> bool" where
  "db_inv s \<longleftrightarrow> distinct_keys (md_data s) \<and> (\<not> md_is_open s \<longrightarrow> md_data s = [])"

datatype db_call = Open DatabaseConfig | Close | Get Key | Put Key Value | Remove Key
  | Write "MemoryWriteBatch option"

fun db_run :: "db_call \<Rightarrow> MemoryDatabase \<Rightarrow> (Value \<times> StorageError) \<times> MemoryDatabase" where
  "db_run (Open c) s = (let (e, s') = db_open c s in (([], e), s'))"
| "db_run Close s = (let (e, s') = db_close s in (([], e), s'))"
| "db_run (Get k) s = (db_get k s, s)"
| "db_run (Put k v) s = (let (e, s') = db_put k v s in (([], e), s'))"
| "db_run (Remove k) s = (let (e, s') = db_remove k s in (([], e), s'))"
| "db_run (Write b) s = (let (e, s') = db_write b s in (([], e), s'))"

fun abs_operation :: "Operation \<Rightarrow> (Key \<rightharpoonup> Value) \<Rightarrow> (Key \<rightharpoonup> Value)" where
  "abs_operation (PUT k v) m = m(k \<mapsto> v)"
| "abs_operation (REMOVE k) m = m(k := None)"

text \<open>
  What the interface promises: opening gives an empty database, closing forgets it, a lookup returns
  the value last put, a batch is the sequence of its operations.
\<close>

fun abs_run :: "db_call \<Rightarrow> abstract_db \<Rightarrow> (Value \<times> StorageError) \<times> abstract_db" where
  "abs_run (Open c) None = (([], SUCCESS), Some Map.empty)"
| "abs_run (Open c) (Some m) = (([], ALREADY_EXISTS), Some m)"
| "abs_run Close d = (([], SUCCESS), None)"
| "abs_run (Get k) None = (([], IO_ERROR), None)"
| "abs_run (Get k) (Some m) = ((case m k of None \<Rightarrow> ([], NOT_FOUND) | Some v \<Rightarrow> (v, SUCCESS)), Some m)"
| "abs_run (Put k v) None = (([], IO_ERROR), None)"
| "abs_run (Put k v) (Some m) = (([], SUCCESS), Some (m(k \<mapsto> v)))"
| "abs_run (Remove k) None = (([], IO_ERROR), None)"
| "abs_run (Remove k) (Some m) =
     (if m k = None then (([], NOT_FOUND), Some m) else (([], SUCCESS), Some (m(k := None))))"
| "abs_run (Write b) None = (([], IO_ERROR), None)"
| "abs_run (Write None) (Some m) = (([], INVALID_ARGUMENT), Some m)"
| "abs_run (Write (Some ops)) (Some m) = (([], SUCCESS), Some (fold abs_operation ops m))"

subsection \<open>Refinement\<close>

lemma apply_operation_refines:
  "distinct_keys d \<Longrightarrow> distinct_keys (apply_operation op d)
     \<and> um_lookup (apply_operation op d) = abs_operation op (um_lookup d)"
  by (cases op) (auto simp: um.invar_insert um.invar_erase um.lookup_insert um.lookup_erase fun_eq_iff)

lemma fold_operation_refines:
  "distinct_keys d \<Longrightarrow> distinct_keys (fold apply_operation ops d)
     \<and> um_lookup (fold apply_operation ops d) = fold abs_operation ops (um_lookup d)"
  by (induction ops arbitrary: d) (auto simp: apply_operation_refines)

lemmas db_defs = db_open_def db_close_def db_get_def db_put_def db_remove_def db_write_def

lemma db_run_inv: "db_inv s \<Longrightarrow> db_inv (snd (db_run c s))"
  by (cases c) (auto simp: db_defs db_inv_def um.invar_insert um.invar_erase
      fold_operation_refines split: option.splits)

lemma db_run_refines: "db_inv s \<Longrightarrow> abs_run c (db_abs s) = (fst (db_run c s), db_abs (snd (db_run c s)))"
  by (cases c) (auto simp: db_defs db_inv_def db_abs_def fun_eq_iff um.lookup_insert um.lookup_erase
      um.lookup_empty fold_operation_refines split: option.splits)

interpretation db: refinement db_run abs_run db_abs db_inv
  by unfold_locales (simp_all add: db_run_inv db_run_refines)

lemma make_database_inv [simp]: "db_inv make_database" "db_abs make_database = None"
  by (simp_all add: db_inv_def db_abs_def make_database_def)

text \<open>
  C4. The database implements the abstract one: every sequence of calls on a new database returns
  exactly what the partial map returns, errors included. In particular a closed and reopened
  database is empty, and \<open>error_if_exists\<close> has no effect.
\<close>

theorem database_refines_map:
  "fst (run_all db_run calls make_database) = fst (run_all abs_run calls None)"
  using db.run_refines [of make_database calls] by simp

subsection \<open>Iteration\<close>

lemma to_int_small: "n < 2 ^ 31 \<Longrightarrow> to_int n = int n"
proof -
  assume n: "n < 2 ^ 31"
  then have "int n < 2 ^ 31" by (metis of_nat_less_iff of_nat_numeral of_nat_power)
  moreover have "- (2 ^ 31) \<le> int n" by (rule order_trans [of _ 0]) simp_all
  ultimately have "signed_take_bit 31 (int n) = int n" by (intro signed_take_bit_int_eq_self)
  moreover have "signed_take_bit 31 (take_bit 32 (int n)) = signed_take_bit 31 (int n)"
    by (simp add: signed_take_bit_take_bit)
  ultimately show ?thesis using n by (simp add: to_int_def signed_of_nat)
qed

lemma it_next_index:
  assumes "length (it_keys i) < 2 ^ 31" and "it_index i = int k" and "k < length (it_keys i)"
  shows "it_next i = i\<lparr>it_index := (if Suc k < length (it_keys i) then int (Suc k) else - 1)\<rparr>"
proof -
  let ?n = "length (it_keys i)"
  have "unat (of_nat ?n - 1 :: u64) = ?n - 1"
  proof -
    have "1 \<le> (of_nat ?n :: u64)" using assms by (simp add: word_le_nat_alt unat_of_nat)
    then show ?thesis using assms(1) by (simp add: unat_sub unat_of_nat)
  qed
  moreover have "unat (of_int (it_index i) :: u64) = k"
    using assms by (simp add: unat_of_nat)
  ultimately have "((of_int (it_index i) :: u64) < of_nat ?n - 1) \<longleftrightarrow> Suc k < ?n"
    using assms(3) by (auto simp: word_less_nat_alt)
  then show ?thesis using assms(2) by (simp add: it_next_def)
qed

lemma iterate_from_first:
  assumes "length (it_keys i) < 2 ^ 31" and "k < length (it_keys i)"
  shows "(it_next ^^ k) (it_seek_to_first i) = i\<lparr>it_index := int k\<rparr>"
  using assms(2)
proof (induction k)
  case 0
  then show ?case by (auto simp: it_seek_to_first_def)
next
  case (Suc k)
  then show ?case using assms(1) it_next_index [of "i\<lparr>it_index := int k\<rparr>" k] by simp
qed

text \<open>
  C32. A forward scan of an open database (with fewer than \<open>2 ^ 31\<close> keys): after
  \<open>seek_to_first\<close> and \<open>k\<close> calls of \<open>next\<close> the iterator is valid and shows the k-th smallest key with
  its value for every \<open>k\<close> below the number of keys, and the next call makes it invalid. Each key of
  the database is shown exactly once.
\<close>

theorem iterator_full_scan:
  assumes inv: "db_inv s" and open_db: "md_is_open s" and size: "length (md_data s) < 2 ^ 31"
  shows "\<exists>i. db_new_iterator s = Some i
    \<and> (\<forall>k < length (md_data s). let j = (it_next ^^ k) (it_seek_to_first i) in it_valid j
         \<and> it_key j = sort (map fst (md_data s)) ! k
         \<and> um_lookup (md_data s) (it_key j) = Some (it_value s j))
    \<and> \<not> it_valid ((it_next ^^ length (md_data s)) (it_seek_to_first i))
    \<and> distinct (sort (map fst (md_data s))) \<and> set (sort (map fst (md_data s))) = dom (um_lookup (md_data s))"
proof -
  let ?i = "make_iterator (md_data s)" and ?n = "length (md_data s)"
  let ?ks = "sort (map fst (md_data s))"
  have keys: "it_keys ?i = ?ks" "length ?ks = ?n" by (simp_all add: make_iterator_def)
  have d: "distinct_keys (md_data s)" using inv by (simp add: db_inv_def)
  have "let j = (it_next ^^ k) (it_seek_to_first ?i) in it_valid j \<and> it_key j = ?ks ! k
         \<and> um_lookup (md_data s) (it_key j) = Some (it_value s j)" if "k < ?n" for k
  proof -
    have j: "(it_next ^^ k) (it_seek_to_first ?i) = ?i\<lparr>it_index := int k\<rparr>"
      using that size keys by (intro iterate_from_first) simp_all
    have "?ks ! k \<in> fst ` set (md_data s)"
      using that keys(2) nth_mem [of k ?ks] by simp
    then obtain v where "um_lookup (md_data s) (?ks ! k) = Some v"
      using um_lookup_None [of "md_data s" "?ks ! k"] by (cases "um_lookup (md_data s) (?ks ! k)") auto
    then show ?thesis
      using that keys by (simp add: j it_valid_def it_key_def it_value_def)
  qed
  moreover have "\<not> it_valid ((it_next ^^ ?n) (it_seek_to_first ?i))"
  proof (cases "?n")
    case 0
    then show ?thesis by (simp add: it_seek_to_first_def make_iterator_def it_valid_def)
  next
    case (Suc m)
    then have "(it_next ^^ m) (it_seek_to_first ?i) = ?i\<lparr>it_index := int m\<rparr>"
      using size keys by (intro iterate_from_first) simp_all
    then show ?thesis
      using it_next_index [of "?i\<lparr>it_index := int m\<rparr>" m] size keys Suc by (simp add: it_valid_def)
  qed
  moreover have "set ?ks = dom (um_lookup (md_data s))"
    using um_lookup_None [of "md_data s"] by (auto simp: dom_def)
  ultimately show ?thesis
    using open_db d by (simp add: db_new_iterator_def)
qed

definition demo_db :: MemoryDatabase where
  "demo_db = make_database\<lparr>md_is_open := True, md_data := [([2], [20]), ([1], [10])]\<rparr>"

theorem iterator_full_scan_witness:
  "\<exists>i. db_new_iterator demo_db = Some i \<and> it_key (it_seek_to_first i) = [1]
    \<and> it_key (it_next (it_seek_to_first i)) = [2]
    \<and> \<not> it_valid (it_next (it_next (it_seek_to_first i)))"
proof -
  have d: "db_inv demo_db" "md_is_open demo_db" "length (md_data demo_db) < 2 ^ 31"
    by (simp_all add: db_inv_def demo_db_def)
  have n: "length (md_data demo_db) = 2" "sort (map fst (md_data demo_db)) = [[1], [2]]"
    by (simp_all add: demo_db_def)
  obtain i where i: "db_new_iterator demo_db = Some i"
    "\<forall>k < 2. let j = (it_next ^^ k) (it_seek_to_first i) in it_valid j \<and> it_key j = [[1], [2]] ! k
       \<and> um_lookup (md_data demo_db) (it_key j) = Some (it_value demo_db j)"
    "\<not> it_valid ((it_next ^^ 2) (it_seek_to_first i))"
    using iterator_full_scan [OF d] unfolding n by blast
  from i(2) [THEN spec, of 0] i(2) [THEN spec, of 1] i(1,3) show ?thesis
    by (simp add: Let_def numeral_2_eq_2)
qed

end
