(* ===== verification/Core_Hash.thy ===== *)
theory Core_Hash
  imports CF_Prelude
begin

text \<open>
  The value classes \<open>core::Hash\<close> (modules/core/src/hash.cpp) and \<open>core::Address\<close>
  (modules/core/src/address.cpp): fixed arrays of 32 and 20 bytes.

  The arrays are byte lists; \<open>wf_hash\<close> and \<open>wf_address\<close> state their lengths, which every
  constructor establishes. The comparison operators are the instances of \<open>linorder\<close>: C++ compares
  \<open>std::array\<close>s lexicographically, as does the order on lists. The random constructors take
  the source of random bytes as a parameter.
\<close>

subsection \<open>Hash\<close>

definition HASH_SIZE :: nat where "HASH_SIZE = 32"
definition ADDRESS_SIZE :: nat where "ADDRESS_SIZE = 20"

datatype Hash = Hash (hash_data: byte_vector)

definition wf_hash :: "Hash \<Rightarrow> bool" where
  "wf_hash h \<longleftrightarrow> length (hash_data h) = HASH_SIZE"

instantiation Hash :: linorder
begin

definition less_eq_Hash :: "Hash \<Rightarrow> Hash \<Rightarrow> bool" where
  "less_eq_Hash a b \<longleftrightarrow> hash_data a \<le> hash_data b"

definition less_Hash :: "Hash \<Rightarrow> Hash \<Rightarrow> bool" where
  "less_Hash a b \<longleftrightarrow> hash_data a < hash_data b"

instance
  by standard (auto simp: less_eq_Hash_def less_Hash_def Hash.expand)

end

definition hash_from_string :: "string \<Rightarrow> Hash throws" where
  "hash_from_string hs =
     (if length hs \<noteq> HASH_SIZE * 2
      then Inl (Invalid_argument ''Invalid hex string length for hash'')
      else bind_exn (parse_hex HASH_SIZE hs) (\<lambda>bs. Inr (Hash bs)))"

definition hash_from_vector :: "byte_vector \<Rightarrow> Hash throws" where
  "hash_from_vector d =
     (if length d \<noteq> HASH_SIZE then Inl (Invalid_argument ''Invalid data size for hash'')
      else Inr (Hash d))"

definition hash_to_hex :: "Hash \<Rightarrow> string" where
  "hash_to_hex h = hex_bytes (hash_data h)"

definition hash_to_bytes :: "Hash \<Rightarrow> byte_vector" where
  "hash_to_bytes h = hash_data h"

definition hash_is_zero :: "Hash \<Rightarrow> bool" where
  "hash_is_zero h = list_all (\<lambda>b. b = 0) (hash_data h)"

definition hash_zero :: Hash where
  "hash_zero = Hash (replicate HASH_SIZE 0)"

definition hash_random :: "(nat \<Rightarrow> u8) \<Rightarrow> Hash" where
  "hash_random dis = Hash (map dis [0..<HASH_SIZE])"

text \<open>
  The three hash functions are placeholders in the source: a zeroed array that receives the first
  \<open>min(data.size(), HASH_SIZE)\<close> bytes of the input.
\<close>

definition copy_into_zeros :: "nat \<Rightarrow> byte_vector \<Rightarrow> byte_vector" where
  "copy_into_zeros n d = (let k = min (length d) n in take k d @ replicate (n - k) 0)"

definition hash_sha256 :: "byte_vector \<Rightarrow> Hash" where
  "hash_sha256 d = Hash (copy_into_zeros HASH_SIZE d)"

definition hash_keccak256 :: "byte_vector \<Rightarrow> Hash" where
  "hash_keccak256 d = Hash (copy_into_zeros HASH_SIZE d)"

definition hash_ripemd160 :: "byte_vector \<Rightarrow> Hash" where
  "hash_ripemd160 d = Hash (copy_into_zeros HASH_SIZE d)"

text \<open>The loop writes \<open>left[i]\<close> at \<open>i\<close> and \<open>right[i]\<close> at \<open>i + 16\<close> for \<open>i < 16\<close>.\<close>

definition combine_hashes :: "Hash \<Rightarrow> Hash \<Rightarrow> Hash" where
  "combine_hashes left right =
     Hash (take (HASH_SIZE div 2) (hash_data left) @ take (HASH_SIZE div 2) (hash_data right))"

definition hash_from_hex :: "string \<Rightarrow> Hash throws" where
  "hash_from_hex hs = hash_from_string hs"

subsection \<open>Address\<close>

datatype Address = Address (address_data: byte_vector)

definition wf_address :: "Address \<Rightarrow> bool" where
  "wf_address a \<longleftrightarrow> length (address_data a) = ADDRESS_SIZE"

instantiation Address :: linorder
begin

definition less_eq_Address :: "Address \<Rightarrow> Address \<Rightarrow> bool" where
  "less_eq_Address a b \<longleftrightarrow> address_data a \<le> address_data b"

definition less_Address :: "Address \<Rightarrow> Address \<Rightarrow> bool" where
  "less_Address a b \<longleftrightarrow> address_data a < address_data b"

instance
  by standard (auto simp: less_eq_Address_def less_Address_def Address.expand)

end

definition address_from_string :: "string \<Rightarrow> Address throws" where
  "address_from_string hs =
     (if length hs \<noteq> ADDRESS_SIZE * 2
      then Inl (Invalid_argument ''Invalid hex string length for address'')
      else bind_exn (parse_hex ADDRESS_SIZE hs) (\<lambda>bs. Inr (Address bs)))"

definition address_from_vector :: "byte_vector \<Rightarrow> Address throws" where
  "address_from_vector d =
     (if length d \<noteq> ADDRESS_SIZE then Inl (Invalid_argument ''Invalid data size for address'')
      else Inr (Address d))"

definition address_to_hex :: "Address \<Rightarrow> string" where
  "address_to_hex a = hex_bytes (address_data a)"

definition address_to_bytes :: "Address \<Rightarrow> byte_vector" where
  "address_to_bytes a = address_data a"

definition address_is_zero :: "Address \<Rightarrow> bool" where
  "address_is_zero a = list_all (\<lambda>b. b = 0) (address_data a)"

definition address_is_valid :: "Address \<Rightarrow> bool" where
  "address_is_valid a = (\<not> address_is_zero a)"

definition address_zero :: Address where
  "address_zero = Address (replicate ADDRESS_SIZE 0)"

definition address_random :: "(nat \<Rightarrow> u8) \<Rightarrow> Address" where
  "address_random dis = Address (map dis [0..<ADDRESS_SIZE])"

definition address_from_public_key :: "byte_vector \<Rightarrow> Address" where
  "address_from_public_key public_key = Address (copy_into_zeros ADDRESS_SIZE public_key)"

definition address_from_hex :: "string \<Rightarrow> Address throws" where
  "address_from_hex hs = address_from_string hs"

definition is_valid_address :: "string \<Rightarrow> bool" where
  "is_valid_address hs =
     (case address_from_string hs of Inl e \<Rightarrow> False | Inr addr \<Rightarrow> address_is_valid addr)"

definition derive_contract_address :: "Address \<Rightarrow> u64 \<Rightarrow> Address" where
  "derive_contract_address sender nonce =
     (let d = address_to_bytes sender @ be_bytes nonce 8
      in Address (copy_into_zeros ADDRESS_SIZE d))"

text \<open>The specialisations of \<open>std::hash\<close> for hashes and addresses, over their arrays.\<close>

definition std_hash :: "byte_vector \<Rightarrow> u64" where
  "std_hash d = be_shift_in 0 (take 8 d)"

subsection \<open>Well-formedness\<close>

lemmas core_size_defs = HASH_SIZE_def ADDRESS_SIZE_def

lemma length_copy_into_zeros [simp]: "length (copy_into_zeros n d) = n"
  by (simp add: copy_into_zeros_def Let_def)

lemma copy_into_zeros_long: "n \<le> length d \<Longrightarrow> copy_into_zeros n d = take n d"
  by (simp add: copy_into_zeros_def Let_def min_def)

lemma wf_hash_constructed [simp, cf_wf]:
  "wf_hash hash_zero"
  "wf_hash (hash_random dis)"
  "wf_hash (hash_sha256 d)"
  "wf_hash (hash_keccak256 d)"
  "wf_hash (hash_ripemd160 d)"
  by (simp_all add: wf_hash_def hash_zero_def hash_random_def hash_sha256_def
      hash_keccak256_def hash_ripemd160_def)

lemma wf_hash_combine [simp, cf_wf]:
  "wf_hash l \<Longrightarrow> wf_hash r \<Longrightarrow> wf_hash (combine_hashes l r)"
  by (simp add: wf_hash_def combine_hashes_def core_size_defs)

lemma wf_hash_from_string: "hash_from_string s = Inr h \<Longrightarrow> wf_hash h"
  by (auto simp: hash_from_string_def wf_hash_def bind_exn_Inr_iff
      dest!: parse_hex_length split: if_splits)

lemma wf_hash_from_vector: "hash_from_vector d = Inr h \<Longrightarrow> wf_hash h"
  by (auto simp: hash_from_vector_def wf_hash_def split: if_splits)

lemma wf_address_constructed [simp, cf_wf]:
  "wf_address address_zero"
  "wf_address (address_random dis)"
  "wf_address (address_from_public_key k)"
  "wf_address (derive_contract_address s n)"
  by (simp_all add: wf_address_def address_zero_def address_random_def
      address_from_public_key_def derive_contract_address_def Let_def)

lemma wf_address_from_string: "address_from_string s = Inr a \<Longrightarrow> wf_address a"
  by (auto simp: address_from_string_def wf_address_def bind_exn_Inr_iff
      dest!: parse_hex_length split: if_splits)

lemma wf_address_from_vector: "address_from_vector d = Inr a \<Longrightarrow> wf_address a"
  by (auto simp: address_from_vector_def wf_address_def split: if_splits)

lemma hash_is_zero_iff: "wf_hash h \<Longrightarrow> hash_is_zero h \<longleftrightarrow> h = hash_zero"
  by (cases h) (auto simp: wf_hash_def hash_is_zero_def hash_zero_def list_all_iff replicate_eqI)

lemma address_is_zero_iff: "wf_address a \<Longrightarrow> address_is_zero a \<longleftrightarrow> a = address_zero"
  by (cases a)
    (auto simp: wf_address_def address_is_zero_def address_zero_def list_all_iff replicate_eqI)

lemma parse_hex_hex_bytes_len: "length bs = n \<Longrightarrow> parse_hex n (hex_bytes bs) = Inr bs"
  using parse_hex_hex_bytes by blast

lemma address_from_to_hex: "wf_address a \<Longrightarrow> address_from_string (address_to_hex a) = Inr a"
  by (cases a)
    (simp add: address_from_string_def address_to_hex_def wf_address_def parse_hex_hex_bytes_len)

lemma hash_from_to_hex: "wf_hash h \<Longrightarrow> hash_from_string (hash_to_hex h) = Inr h"
  by (cases h)
    (simp add: hash_from_string_def hash_to_hex_def wf_hash_def parse_hex_hex_bytes_len)

lemma hash_data_hash_keccak256: "32 \<le> length d \<Longrightarrow> hash_data (hash_keccak256 d) = take 32 d"
  by (simp add: hash_keccak256_def HASH_SIZE_def copy_into_zeros_long)

subsection \<open>Properties\<close>

text \<open>
  Printing a hash or an address as hex and parsing the text back returns the same value, so a
  valid (nonzero) address always prints as a string that \<open>is_valid_address\<close> accepts.
\<close>

theorem hex_round_trip:
  assumes "wf_hash h" and "wf_address a"
  shows "hash_from_hex (hash_to_hex h) = Inr h
    \<and> address_from_hex (address_to_hex a) = Inr a
    \<and> is_valid_address (address_to_hex a) = (a \<noteq> address_zero)"
  using assms
  by (simp add: hash_from_hex_def address_from_hex_def is_valid_address_def hash_from_to_hex
      address_from_to_hex address_is_valid_def address_is_zero_iff)

theorem hex_round_trip_witness:
  "hash_from_hex (hash_to_hex (Hash (replicate 31 0 @ [0xab])))
      = Inr (Hash (replicate 31 0 @ [0xab]))
    \<and> is_valid_address (address_to_hex (Address (0xfe # replicate 19 1)))"
  using hex_round_trip [of "Hash (replicate 31 0 @ [0xab])" "Address (0xfe # replicate 19 1)"]
  by (simp add: wf_hash_def wf_address_def core_size_defs address_zero_def numeral_eq_Suc)

text \<open>
  \<open>derive_contract_address\<close> copies the first 20 bytes of sender followed by nonce, so the
  address it derives is the sender itself, for every nonce: two contracts created by one account
  never get different addresses.
\<close>

theorem derive_contract_address_is_sender:
  assumes "wf_address sender"
  shows "derive_contract_address sender nonce = sender"
  using assms
  by (cases sender) (simp add: derive_contract_address_def Let_def address_to_bytes_def
      wf_address_def copy_into_zeros_long)

theorem derive_contract_address_is_sender_witness:
  "derive_contract_address (Address (replicate 20 7)) 1 = Address (replicate 20 7)
    \<and> derive_contract_address (Address (replicate 20 7)) 2 = Address (replicate 20 7)"
  using derive_contract_address_is_sender [of "Address (replicate 20 7)"]
  by (simp add: wf_address_def core_size_defs)

end
