(* ===== verification/Float64.thy ===== *)
theory Float64
  imports CF_Prelude Complex_Main
begin

text \<open>
  The C++ type \<open>double\<close> (IEEE 754 binary64, round to nearest, ties to even) as far as the
  program uses it: conversion from integers, \<open>+\<close>, \<open>*\<close>, \<open>/\<close>, comparison and the cast
  back to \<open>uint64_t\<close>. A finite double is the rational number it denotes; the sign of zero is not
  kept. Every operation computes the exact rational result and rounds it once (\<open>fl\<close>).
\<close>

subsection \<open>Rounding\<close>

fun ilog2 :: "nat \<Rightarrow> nat" where
  "ilog2 n = (if n < 2 then 0 else Suc (ilog2 (n div 2)))"

declare ilog2.simps [simp del]

definition rne :: "rat \<Rightarrow> int" where
  "rne q = (let f = \<lfloor>q\<rfloor>; r = q - of_int f in
     if r < 1 / 2 then f else if 1 / 2 < r then f + 1 else if even f then f else f + 1)"

definition binary_exponent :: "rat \<Rightarrow> int" where
  "binary_exponent q = (case quotient_of q of (n, d) \<Rightarrow>
     (let k = int (ilog2 (nat n)) - int (ilog2 (nat d)) in if 2 powi k \<le> q then k else k - 1))"

definition ulp :: "rat \<Rightarrow> rat" where
  "ulp q = 2 powi (max (binary_exponent q) (- 1022) - 52)"

definition fl_pos :: "rat \<Rightarrow> rat" where
  "fl_pos q = of_int (rne (q / ulp q)) * ulp q"

definition fl :: "rat \<Rightarrow> rat" where
  "fl q = (if q = 0 then 0 else if 0 < q then fl_pos q else - fl_pos (- q))"

datatype f64 = Fin rat | PInf | NInf | NaN

definition round64 :: "rat \<Rightarrow> f64" where
  "round64 q = (let r = fl q in
     if 2 ^ 1024 \<le> r then PInf else if r \<le> - (2 ^ 1024) then NInf else Fin r)"

subsection \<open>Operations\<close>

definition f64_of_u64 :: "u64 \<Rightarrow> f64" where
  "f64_of_u64 w = round64 (of_nat (unat w))"

definition f64_of_int :: "int \<Rightarrow> f64" where
  "f64_of_int i = round64 (of_int i)"

fun f64_mul :: "f64 \<Rightarrow> f64 \<Rightarrow> f64" where
  "f64_mul (Fin a) (Fin b) = round64 (a * b)"
| "f64_mul NaN _ = NaN"
| "f64_mul _ NaN = NaN"
| "f64_mul (Fin a) PInf = (if a = 0 then NaN else if 0 < a then PInf else NInf)"
| "f64_mul (Fin a) NInf = (if a = 0 then NaN else if 0 < a then NInf else PInf)"
| "f64_mul PInf (Fin b) = (if b = 0 then NaN else if 0 < b then PInf else NInf)"
| "f64_mul NInf (Fin b) = (if b = 0 then NaN else if 0 < b then NInf else PInf)"
| "f64_mul PInf PInf = PInf"
| "f64_mul PInf NInf = NInf"
| "f64_mul NInf PInf = NInf"
| "f64_mul NInf NInf = PInf"

fun f64_add :: "f64 \<Rightarrow> f64 \<Rightarrow> f64" where
  "f64_add (Fin a) (Fin b) = round64 (a + b)"
| "f64_add NaN _ = NaN"
| "f64_add _ NaN = NaN"
| "f64_add PInf NInf = NaN"
| "f64_add NInf PInf = NaN"
| "f64_add PInf _ = PInf"
| "f64_add _ PInf = PInf"
| "f64_add NInf _ = NInf"
| "f64_add _ NInf = NInf"

text \<open>Division by zero takes the zero as positive; the program never divides by a negative zero.\<close>

fun f64_div :: "f64 \<Rightarrow> f64 \<Rightarrow> f64" where
  "f64_div (Fin a) (Fin b) =
     (if b = 0 then (if a = 0 then NaN else if 0 < a then PInf else NInf) else round64 (a / b))"
| "f64_div NaN _ = NaN"
| "f64_div _ NaN = NaN"
| "f64_div (Fin a) _ = Fin 0"
| "f64_div PInf (Fin b) = (if 0 \<le> b then PInf else NInf)"
| "f64_div NInf (Fin b) = (if 0 \<le> b then NInf else PInf)"
| "f64_div _ _ = NaN"

fun f64_less :: "f64 \<Rightarrow> f64 \<Rightarrow> bool" where
  "f64_less (Fin a) (Fin b) = (a < b)"
| "f64_less NaN _ = False"
| "f64_less _ NaN = False"
| "f64_less (Fin a) PInf = True"
| "f64_less NInf (Fin b) = True"
| "f64_less NInf PInf = True"
| "f64_less _ _ = False"

text \<open>
  The cast to \<open>uint64_t\<close> truncates towards zero; a value whose truncation does not fit has
  undefined behaviour, here \<open>None\<close>.
\<close>

fun f64_to_u64 :: "f64 \<Rightarrow> u64 option" where
  "f64_to_u64 (Fin q) =
     (let t = (if 0 \<le> q then \<lfloor>q\<rfloor> else \<lceil>q\<rceil>)
      in if 0 \<le> t \<and> t < 2 ^ 64 then Some (of_int t) else None)"
| "f64_to_u64 _ = None"

definition f64_min :: "f64 \<Rightarrow> f64 \<Rightarrow> f64" where
  "f64_min a b = (if f64_less b a then b else a)"

definition f64_max :: "f64 \<Rightarrow> f64 \<Rightarrow> f64" where
  "f64_max a b = (if f64_less a b then b else a)"

text \<open>
  A total order on doubles for sorted containers: \<open>operator<\<close> on the numbers and infinities, with
  \<open>NaN\<close> last. \<open>f64_less_iff\<close> shows that it is \<open>operator<\<close> wherever no \<open>NaN\<close> occurs.
\<close>

instantiation f64 :: linorder
begin

fun less_f64 :: "f64 \<Rightarrow> f64 \<Rightarrow> bool" where
  "less_f64 NaN y = False"
| "less_f64 x NaN = True"
| "less_f64 (Fin a) (Fin b) = (a < b)"
| "less_f64 (Fin a) PInf = True"
| "less_f64 NInf (Fin b) = True"
| "less_f64 NInf PInf = True"
| "less_f64 x y = False"

definition less_eq_f64 :: "f64 \<Rightarrow> f64 \<Rightarrow> bool" where
  "less_eq_f64 x y \<longleftrightarrow> x < y \<or> x = y"

instance
proof
  fix x y z :: f64
  show "x < y \<longleftrightarrow> x \<le> y \<and> \<not> y \<le> x"
    by (cases x; cases y) (auto simp: less_eq_f64_def)
  show "x \<le> x" by (simp add: less_eq_f64_def)
  show "x \<le> y \<Longrightarrow> y \<le> z \<Longrightarrow> x \<le> z"
    by (cases x; cases y; cases z) (auto simp: less_eq_f64_def)
  show "x \<le> y \<Longrightarrow> y \<le> x \<Longrightarrow> x = y"
    by (cases x; cases y) (auto simp: less_eq_f64_def)
  show "x \<le> y \<or> y \<le> x"
    by (cases x; cases y) (auto simp: less_eq_f64_def)
qed

end

lemma f64_less_iff: "a \<noteq> NaN \<Longrightarrow> b \<noteq> NaN \<Longrightarrow> f64_less a b \<longleftrightarrow> a < b"
  by (cases a; cases b) auto

subsection \<open>Facts about rounding\<close>

lemma ilog2_bounds: "0 < n \<Longrightarrow> 2 ^ ilog2 n \<le> n \<and> n < 2 ^ Suc (ilog2 n)"
proof (induction n rule: ilog2.induct)
  case (1 n)
  show ?case
  proof (cases "n < 2")
    case True
    then show ?thesis using 1 by (simp add: ilog2.simps)
  next
    case False
    then have "2 ^ ilog2 (n div 2) \<le> n div 2 \<and> n div 2 < 2 ^ Suc (ilog2 (n div 2))"
      using 1 by simp
    moreover have "2 * p \<le> n \<and> n < 2 * (2 * p)" if "p \<le> n div 2 \<and> n div 2 < 2 * p" for p
      using that by linarith
    ultimately show ?thesis using False by (simp add: ilog2.simps [of n])
  qed
qed

lemma rne_of_int [simp]: "rne (of_int n) = n"
  by (simp add: rne_def)

lemma rne_error: "\<bar>of_int (rne q) - q\<bar> \<le> 1 / 2"
  unfolding rne_def Let_def using of_int_floor_le [of q] floor_correct [of q] by auto

lemma rne_cases: "rne q = \<lfloor>q\<rfloor> \<or> rne q = \<lfloor>q\<rfloor> + 1"
  by (simp add: rne_def Let_def)

lemma rne_mono: "p \<le> q \<Longrightarrow> rne p \<le> rne q"
proof -
  assume pq: "p \<le> q"
  then have "\<lfloor>p\<rfloor> \<le> \<lfloor>q\<rfloor>" by (rule floor_mono)
  then consider "\<lfloor>p\<rfloor> < \<lfloor>q\<rfloor>" | "\<lfloor>p\<rfloor> = \<lfloor>q\<rfloor>" by linarith
  then show ?thesis
  proof cases
    case 1
    then show ?thesis using rne_cases [of p] rne_cases [of q] by linarith
  next
    case 2
    then show ?thesis using pq by (auto simp: rne_def Let_def)
  qed
qed

lemma binary_exponent_bounds:
  assumes "0 < q"
  shows "2 powi binary_exponent q \<le> q \<and> q < 2 powi (binary_exponent q + 1)"
proof -
  obtain n d where nd: "quotient_of q = (n, d)" by fastforce
  have d: "0 < d" using quotient_of_denom_pos [OF nd] .
  have q: "q = of_int n / of_int d" using quotient_of_div [OF nd] .
  have n: "0 < n" using assms d q by (simp add: zero_less_divide_iff)
  define a b where "a = ilog2 (nat n)" and "b = ilog2 (nat d)"
  have A: "2 ^ a \<le> n \<and> n < 2 ^ Suc a" and B: "2 ^ b \<le> d \<and> d < 2 ^ Suc b"
    using ilog2_bounds [of "nat n"] ilog2_bounds [of "nat d"] n d
    unfolding a_def b_def by (auto simp: nat_less_iff le_nat_iff)
  have A': "(2::rat) ^ a \<le> of_int n \<and> of_int n < (2::rat) ^ Suc a"
    and B': "(2::rat) ^ b \<le> of_int d \<and> of_int d < (2::rat) ^ Suc b"
    using A [folded of_int_le_iff [where ?'a = rat] of_int_less_iff [where ?'a = rat]]
      B [folded of_int_le_iff [where ?'a = rat] of_int_less_iff [where ?'a = rat]] by simp_all
  have pk: "(2::rat) powi (int a - int b) = 2 ^ a / 2 ^ b"
    by (simp add: power_int_diff)
  have up: "q < 2 * (2 ^ a / 2 ^ b)"
  proof -
    have "of_int n / of_int d < (2 * 2 ^ a) / (2::rat) ^ b"
      using A' B' d n by (intro frac_less) auto
    then show ?thesis using q by simp
  qed
  have lo: "2 ^ a / 2 ^ b < 2 * q"
  proof -
    have "(2::rat) ^ a / (2 * 2 ^ b) < of_int n / of_int d"
      using A' B' d n by (intro frac_less2) auto
    then show ?thesis using q by (simp add: field_simps)
  qed
  have s1: "(2::rat) powi (k + 1) = 2 * 2 powi k" for k by (simp add: power_int_add)
  have s2: "(2::rat) powi (k - 1) = 2 powi k / 2" for k by (simp add: power_int_diff)
  show ?thesis
    unfolding binary_exponent_def nd using up lo
    by (auto simp: Let_def a_def [symmetric] b_def [symmetric] s1 s2 pk)
qed

lemma ulp_pos [simp]: "0 < ulp q"
  by (simp add: ulp_def)

lemma ulp_le: "0 < q \<Longrightarrow> 2 powi (- 1022) \<le> q \<Longrightarrow> ulp q \<le> q * 2 powi (- 52)"
proof -
  assume q: "0 < q" "2 powi (- 1022) \<le> q"
  define m where "m = max (binary_exponent q) (- 1022)"
  have "2 powi m \<le> q"
    using binary_exponent_bounds [OF q(1)] q(2) unfolding m_def max_def by presburger
  moreover have "ulp q = 2 powi m * 2 powi (- 52)"
    unfolding ulp_def m_def [symmetric] diff_conv_add_uminus by (rule power_int_add) simp
  ultimately show ?thesis by simp
qed

lemma fl_0 [simp]: "fl 0 = 0"
  by (simp add: fl_def)

lemma fl_relative_error:
  assumes "2 powi (- 1022) \<le> q"
  shows "\<bar>fl q - q\<bar> \<le> q * 2 powi (- 53)"
proof -
  have q: "0 < q" using assms by (rule less_le_trans [rotated]) simp
  let ?u = "ulp q"
  have "fl q - q = (of_int (rne (q / ?u)) - q / ?u) * ?u"
    using q ulp_pos [of q, THEN less_imp_neq, symmetric]
    by (simp add: fl_def fl_pos_def left_diff_distrib)
  then have "\<bar>fl q - q\<bar> = \<bar>of_int (rne (q / ?u)) - q / ?u\<bar> * ?u"
    by (simp add: abs_mult abs_of_pos)
  also have "\<dots> \<le> 1 / 2 * ?u"
    by (intro mult_right_mono rne_error) (simp add: less_imp_le)
  also have "\<dots> \<le> 1 / 2 * (q * 2 powi (- 52))"
    using ulp_le [OF q assms] by simp
  also have "\<dots> = q * 2 powi (- 53)"
    by (simp add: power_int_minus)
  finally show ?thesis .
qed

lemma fl_nonneg: "0 \<le> q \<Longrightarrow> 0 \<le> fl q"
proof (cases "q = 0")
  case False
  assume "0 \<le> q"
  then have "0 \<le> q / ulp q" by (simp add: less_imp_le)
  then have "0 \<le> rne (q / ulp q)" using rne_mono [of 0] rne_of_int [of 0] by fastforce
  then show ?thesis using \<open>0 \<le> q\<close> False by (simp add: fl_def fl_pos_def less_imp_le)
qed simp

text \<open>Every natural number up to \<open>2 ^ 53\<close> is a double.\<close>

lemma fl_of_nat:
  assumes "n < 2 ^ 53"
  shows "fl (of_nat n) = of_nat n"
proof (cases "n = 0")
  case False
  define e where "e = binary_exponent (of_nat n)"
  have b: "2 powi e \<le> (of_nat n :: rat)" "(of_nat n :: rat) < 2 powi (e + 1)"
    using binary_exponent_bounds [of "of_nat n"] False unfolding e_def by auto
  have "(2::rat) powi e < 2 powi 53"
  proof -
    have "(of_nat n :: rat) < of_nat (2 ^ 53)" using assms by (simp only: of_nat_less_iff)
    then show ?thesis using b(1) by simp
  qed
  then have hi: "e < 53" by (metis linorder_not_le one_le_numeral power_int_increasing)
  have "(2::rat) powi 0 < 2 powi (e + 1)"
  proof -
    have "(1::rat) \<le> of_nat n" using False by simp
    then show ?thesis using b(2) by simp
  qed
  then have lo: "0 \<le> e"
    by (metis add1_zle_eq linorder_not_le one_le_numeral power_int_increasing zless_add1_eq)
  define k where "k = nat (52 - e)"
  have u: "ulp (of_nat n) = 1 / 2 ^ k"
  proof -
    have "max e (- 1022) - 52 = - int k" using hi lo by (simp add: k_def)
    then show ?thesis
      unfolding ulp_def e_def [symmetric] by (simp only: power_int_minus power_int_of_nat inverse_eq_divide)
  qed
  have "of_nat n / ulp (of_nat n) = (of_int (int n * 2 ^ k) :: rat)"
    unfolding u by simp
  then have "rne (of_nat n / ulp (of_nat n)) = int n * 2 ^ k"
    by (metis rne_of_int)
  then show ?thesis using False by (simp add: fl_def fl_pos_def u)
qed simp

lemma round64_Fin:
  assumes "q = 0 \<or> 2 powi (- 1022) \<le> q" and "q \<le> 2 ^ 1000"
  shows "round64 q = Fin (fl q)"
proof -
  have nn: "0 \<le> q" using assms(1) by (metis order_trans order_refl zero_le_power_int zero_le_numeral)
  have "fl q \<le> 2 * q"
  proof (cases "q = 0")
    case False
    then have "\<bar>fl q - q\<bar> \<le> q * 2 powi (- 53)" using assms(1) fl_relative_error by blast
    also have "\<dots> \<le> q * 1" using nn by (intro mult_left_mono) (simp_all add: power_int_minus)
    finally show ?thesis by linarith
  qed simp
  also have "\<dots> \<le> 2 ^ 1001" using assms(2) by (simp only: power_Suc [of 2 1000, simplified])
  also have "\<dots> < 2 ^ 1024" by (rule power_strict_increasing) simp_all
  finally have hi: "\<not> 2 ^ 1024 \<le> fl q" by (simp only: not_le)
  have lo: "\<not> fl q \<le> - (2 ^ 1024)"
  proof -
    have "- (2 ^ 1024) < (0 :: rat)" unfolding neg_less_0_iff_less by (rule zero_less_power) simp
    then show ?thesis using fl_nonneg [OF nn] by (meson leD less_le_trans)
  qed
  show ?thesis unfolding round64_def Let_def using hi lo by (simp only: if_False)
qed

lemma small_range:
  assumes "1 \<le> q"
  shows "2 powi (- 1022) \<le> (q :: rat)"
proof -
  have "(2::rat) powi (- 1022) \<le> 2 powi 0" by (rule power_int_increasing) simp_all
  also have "\<dots> = 1" by (rule power_int_0_right)
  finally show ?thesis using assms by (rule order_trans)
qed

text \<open>Rounding of a number whose binary exponent is known; used to compute concrete values.\<close>

lemma binary_exponent_unique:
  assumes "2 powi e \<le> q" and "q < 2 powi (e + 1)"
  shows "binary_exponent q = e"
proof -
  have "0 < q" using assms(1) by (rule less_le_trans [rotated]) simp
  note b = binary_exponent_bounds [OF this]
  have le: "i \<le> j" if "(2::rat) powi i \<le> q" and "q < 2 powi (j + 1)" for i j
  proof (rule ccontr)
    assume "\<not> i \<le> j"
    then have "(2::rat) powi (j + 1) \<le> 2 powi i" by (intro power_int_increasing) simp_all
    then show False using that by (meson leD le_less_trans less_le_trans)
  qed
  show ?thesis using b assms by (meson le order_antisym)
qed

lemma fl_eval:
  assumes "2 powi e \<le> q" and "q < 2 powi (e + 1)" and "- 1022 \<le> e"
  shows "fl q = of_int (rne (q * 2 powi (52 - e))) * 2 powi (e - 52)"
proof -
  have "0 < q" using assms(1) by (rule less_le_trans [rotated]) simp
  moreover have "ulp q = 2 powi (e - 52)"
    using binary_exponent_unique [OF assms(1,2)] assms(3) by (simp add: ulp_def max_def)
  moreover have "q / 2 powi (e - 52) = q * 2 powi (52 - e)"
    using power_int_minus [of "2::rat" "e - 52"] by (simp add: divide_inverse)
  ultimately show ?thesis by (simp add: fl_def fl_pos_def)
qed

lemma rne_eqI:
  assumes "of_int m - 1 / 2 < q" and "q < of_int m + 1 / 2"
  shows "rne q = m"
proof -
  have "\<bar>of_int (rne q) - q\<bar> \<le> 1 / 2" by (rule rne_error)
  with assms have "of_int (rne q) < (of_int (m + 1) :: rat)" "(of_int (m - 1) :: rat) < of_int (rne q)"
    by (auto simp: abs_if split: if_splits)
  then show ?thesis by (simp only: of_int_less_iff)
qed

lemma fl_evalI:
  assumes "2 powi e \<le> q" and "q < 2 powi (e + 1)" and "- 1022 \<le> e"
    and "of_int m - 1 / 2 < q * 2 powi (52 - e)" and "q * 2 powi (52 - e) < of_int m + 1 / 2"
  shows "fl q = of_int m * 2 powi (e - 52)"
  using fl_eval [OF assms(1-3)] rne_eqI [OF assms(4,5)] by simp

lemma f64_to_u64_nat:
  assumes "k < 2 ^ 64"
  shows "f64_to_u64 (Fin (of_nat k)) = Some (of_nat k)"
proof -
  have "\<lfloor>(of_nat k :: rat)\<rfloor> = int k" by (simp add: floor_of_nat)
  moreover have "int k < 2 ^ 64" using assms by (metis of_nat_less_iff of_nat_numeral of_nat_power)
  ultimately show ?thesis by (simp add: Let_def)
qed

lemma round64_nat: "n < 2 ^ 53 \<Longrightarrow> round64 (of_nat n) = Fin (of_nat n)"
proof -
  assume n: "n < 2 ^ 53"
  have "(of_nat n :: rat) \<le> 2 ^ 1000"
  proof -
    have "(of_nat n :: rat) \<le> of_nat (2 ^ 53)" using n by (simp only: of_nat_le_iff less_imp_le)
    also have "\<dots> = 2 ^ 53" by simp
    also have "\<dots> \<le> 2 ^ 1000" by (rule power_increasing) simp_all
    finally show ?thesis .
  qed
  moreover have "(of_nat n :: rat) = 0 \<or> 2 powi (- 1022) \<le> (of_nat n :: rat)"
    using small_range [of "of_nat n"] by (cases n) auto
  ultimately show ?thesis using fl_of_nat [OF n] by (simp add: round64_Fin)
qed

lemma f64_of_u64_nat: "unat w < 2 ^ 53 \<Longrightarrow> f64_of_u64 w = Fin (of_nat (unat w))"
  by (simp only: f64_of_u64_def round64_nat)

end
