(* ===== verification/Core_Amount.thy ===== *)
theory Core_Amount
  imports CF_Prelude Float64
begin

text \<open>
  \<open>core::Amount\<close> (modules/core/src/amount.cpp): a \<open>uint64_t\<close> number of wei with checked
  arithmetic, its decimal printer and parser, and the conversions to and from \<open>double\<close>.
  \<open>value_type\<close> is \<open>u64\<close>; \<open>decimal_type\<close>, the type of the fraction, is only \<open>u32\<close>.
\<close>

subsection \<open>The class\<close>

datatype Amount = Amount (wei: u64)

instantiation Amount :: linorder
begin

definition less_eq_Amount :: "Amount \<Rightarrow> Amount \<Rightarrow> bool" where
  "less_eq_Amount a b \<longleftrightarrow> wei a \<le> wei b"

definition less_Amount :: "Amount \<Rightarrow> Amount \<Rightarrow> bool" where
  "less_Amount a b \<longleftrightarrow> wei a < wei b"

instance
  by standard (auto simp: less_eq_Amount_def less_Amount_def Amount.expand)

end

definition MAX_VALUE :: u64 where "MAX_VALUE = - 1"
definition WEI_PER_ETHER :: u64 where "WEI_PER_ETHER = 1000000000000000000"
abbreviation DECIMALS :: nat where "DECIMALS \<equiv> 18"

definition amount_make :: "u64 \<Rightarrow> u32 \<Rightarrow> Amount throws" where
  "amount_make w f =
     (if MAX_VALUE div WEI_PER_ETHER < w then Inl (Overflow_error ''Amount whole part too large'')
      else Inr (Amount (w * WEI_PER_ETHER + ucast f)))"

definition whole :: "Amount \<Rightarrow> u64" where
  "whole a = wei a div WEI_PER_ETHER"

definition fraction :: "Amount \<Rightarrow> u32" where
  "fraction a = ucast (wei a mod WEI_PER_ETHER)"

definition amount_zero :: Amount where "amount_zero = Amount 0"

definition validate_overflow :: "Amount \<Rightarrow> u64 \<Rightarrow> string \<Rightarrow> unit throws" where
  "validate_overflow a result operation =
     (if result < wei a \<or> result < wei a
      then Inl (Overflow_error (''Amount '' @ operation @ '' overflow'')) else Inr ())"

definition amount_add :: "Amount \<Rightarrow> Amount \<Rightarrow> Amount throws" where
  "amount_add a b =
     bind_exn (validate_overflow a (wei a + wei b) ''addition'') (\<lambda>_. Inr (Amount (wei a + wei b)))"

definition amount_sub :: "Amount \<Rightarrow> Amount \<Rightarrow> Amount throws" where
  "amount_sub a b =
     (if wei a < wei b then Inl (Underflow_error ''Amount subtraction underflow'')
      else Inr (Amount (wei a - wei b)))"

definition amount_mul :: "Amount \<Rightarrow> u64 \<Rightarrow> Amount throws" where
  "amount_mul a multiplier =
     (if multiplier = 0 then Inr amount_zero
      else if MAX_VALUE div multiplier < wei a
      then Inl (Overflow_error ''Amount multiplication overflow'')
      else Inr (Amount (wei a * multiplier)))"

definition amount_div :: "Amount \<Rightarrow> u64 \<Rightarrow> Amount throws" where
  "amount_div a divisor =
     (if divisor = 0 then Inl (Domain_error ''Division by zero'')
      else Inr (Amount (wei a div divisor)))"

text \<open>
  The compound assignments return the new value of \<open>*this\<close>; when the operator throws, the object
  keeps its old value, so the state after the statement is the second component.
\<close>

definition assign_with :: "(Amount \<Rightarrow> 'b \<Rightarrow> Amount throws) \<Rightarrow> Amount \<Rightarrow> 'b \<Rightarrow> unit throws \<times> Amount" where
  "assign_with f a b = (case f a b of Inl e \<Rightarrow> (Inl e, a) | Inr r \<Rightarrow> (Inr (), r))"

definition amount_is_zero :: "Amount \<Rightarrow> bool" where
  "amount_is_zero a = (wei a = 0)"

definition amount_is_valid :: "Amount \<Rightarrow> bool" where
  "amount_is_valid a = True"

definition from_wei :: "u64 \<Rightarrow> Amount" where
  "from_wei w = Amount w"

subsection \<open>Text and floating point\<close>

definition strip_zeros :: "string \<Rightarrow> string" where
  "strip_zeros s = rev (dropWhile (\<lambda>c. c = CHR ''0'') (rev s))"

definition pad_front :: "nat \<Rightarrow> string \<Rightarrow> string" where
  "pad_front n s = replicate (n - length s) CHR ''0'' @ s"

definition pad_back :: "nat \<Rightarrow> string \<Rightarrow> string" where
  "pad_back n s = s @ replicate (n - length s) CHR ''0''"

definition amount_to_string :: "Amount \<Rightarrow> string" where
  "amount_to_string a =
     dec_string (unat (whole a)) @ ''.'' @
     (let frac = fraction a in
      if frac = 0 then ''0''
      else let frac_str = strip_zeros (pad_front DECIMALS (dec_string (unat frac)))
           in if frac_str = [] then ''0'' else frac_str)"

definition amount_from_string :: "string \<Rightarrow> Amount throws" where
  "amount_from_string str =
     (if CHR ''.'' \<notin> set str
      then bind_exn (stoull 10 str) (\<lambda>v. Inr (Amount (v * WEI_PER_ETHER)))
      else bind_exn (stoull 10 (takeWhile (\<lambda>c. c \<noteq> CHR ''.'') str)) (\<lambda>w.
        let frac_str = pad_back DECIMALS (take DECIMALS (tl (dropWhile (\<lambda>c. c \<noteq> CHR ''.'') str)))
        in bind_exn (stoul 10 frac_str) (\<lambda>f. amount_make w (ucast f))))"

text \<open>\<open>None\<close> is the undefined conversion of an out-of-range \<open>double\<close>.\<close>

definition from_ether :: "f64 \<Rightarrow> Amount throws option" where
  "from_ether ether =
     (if f64_less ether (Fin 0)
         \<or> f64_less (f64_div (f64_of_u64 MAX_VALUE) (f64_of_u64 WEI_PER_ETHER)) ether
      then Some (Inl (Out_of_range ''Ether amount out of range''))
      else map_option (\<lambda>w. Inr (Amount w)) (f64_to_u64 (f64_mul ether (f64_of_u64 WEI_PER_ETHER))))"

subsection \<open>Arithmetic\<close>

lemma plus_wraps_iff: "(a + b < a) \<longleftrightarrow> 2 ^ 64 \<le> unat a + unat b" for a b :: u64
  using no_olen_add_nat [of a b] by (simp add: not_le [symmetric])

lemma unat_plus_exact: "unat a + unat b < 2 ^ 64 \<Longrightarrow> unat (a + b) = unat a + unat b" for a b :: u64
  using unat_add_lem [of a b] by simp

lemma unat_mult_exact: "unat a * unat b < 2 ^ 64 \<Longrightarrow> unat (a * b) = unat a * unat b" for a b :: u64
  using unat_mult_lem [of a b] by simp

lemma unat_MAX_VALUE [simp]: "unat MAX_VALUE = 2 ^ 64 - 1"
  by (simp add: MAX_VALUE_def unsigned_minus_1_eq_mask mask_eq_exp_minus_1)

lemma unat_WEI_PER_ETHER [simp]: "unat WEI_PER_ETHER = 10 ^ 18"
  by (simp add: WEI_PER_ETHER_def)

lemma max_div_less_iff:
  fixes a m :: u64
  assumes "m \<noteq> 0"
  shows "MAX_VALUE div m < a \<longleftrightarrow> 2 ^ 64 \<le> unat a * unat m"
proof -
  have "0 < unat m" using assms by (simp add: unat_gt_0)
  moreover have "(2 ^ 64 - 1) div k < n \<longleftrightarrow> 2 ^ 64 \<le> n * k" if "0 < k" for k n :: nat
    using that by (simp add: div_less_iff_less_mult) linarith
  ultimately show ?thesis by (simp add: word_less_nat_alt unat_div)
qed

lemmas amount_op_defs = amount_add_def amount_sub_def amount_mul_def amount_div_def
  validate_overflow_def amount_zero_def

text \<open>
  C31. The arithmetic of \<open>Amount\<close> is exact or refused: each operator returns the mathematical
  result on the natural numbers, and throws its exception exactly when that result is not a
  \<open>uint64_t\<close> (sum or product of \<open>2 ^ 64\<close> or more, negative difference, zero divisor).
\<close>

theorem amount_arithmetic_exact:
  "(case amount_add a b of
      Inr r \<Rightarrow> unat (wei r) = unat (wei a) + unat (wei b)
    | Inl e \<Rightarrow> e = Overflow_error ''Amount addition overflow'' \<and> 2 ^ 64 \<le> unat (wei a) + unat (wei b))
   \<and> (case amount_sub a b of
      Inr r \<Rightarrow> int (unat (wei r)) = int (unat (wei a)) - int (unat (wei b))
    | Inl e \<Rightarrow> e = Underflow_error ''Amount subtraction underflow'' \<and> unat (wei a) < unat (wei b))
   \<and> (case amount_mul a m of
      Inr r \<Rightarrow> unat (wei r) = unat (wei a) * unat m
    | Inl e \<Rightarrow> e = Overflow_error ''Amount multiplication overflow'' \<and> 2 ^ 64 \<le> unat (wei a) * unat m)
   \<and> (case amount_div a m of
      Inr r \<Rightarrow> m \<noteq> 0 \<and> unat (wei r) = unat (wei a) div unat m
    | Inl e \<Rightarrow> e = Domain_error ''Division by zero'' \<and> m = 0)"
proof (intro conjI)
  show "case amount_add a b of
      Inr r \<Rightarrow> unat (wei r) = unat (wei a) + unat (wei b)
    | Inl e \<Rightarrow> e = Overflow_error ''Amount addition overflow'' \<and> 2 ^ 64 \<le> unat (wei a) + unat (wei b)"
    using plus_wraps_iff [of "wei a" "wei b"] unat_plus_exact [of "wei a" "wei b"]
    by (auto simp: amount_op_defs)
  show "case amount_sub a b of
      Inr r \<Rightarrow> int (unat (wei r)) = int (unat (wei a)) - int (unat (wei b))
    | Inl e \<Rightarrow> e = Underflow_error ''Amount subtraction underflow'' \<and> unat (wei a) < unat (wei b)"
    by (auto simp: amount_op_defs word_less_nat_alt unat_sub word_le_nat_alt not_less of_nat_diff)
  show "case amount_mul a m of
      Inr r \<Rightarrow> unat (wei r) = unat (wei a) * unat m
    | Inl e \<Rightarrow> e = Overflow_error ''Amount multiplication overflow'' \<and> 2 ^ 64 \<le> unat (wei a) * unat m"
    using max_div_less_iff [of m "wei a"] unat_mult_exact [of "wei a" m]
    by (auto simp: amount_op_defs)
  show "case amount_div a m of
      Inr r \<Rightarrow> m \<noteq> 0 \<and> unat (wei r) = unat (wei a) div unat m
    | Inl e \<Rightarrow> e = Domain_error ''Division by zero'' \<and> m = 0"
    by (auto simp: amount_op_defs unat_div)
qed

lemma amount_make_exact:
  "case amount_make w f of
     Inr r \<Rightarrow> unat (wei r) = unat w * 10 ^ 18 + unat f
   | Inl e \<Rightarrow> e = Overflow_error ''Amount whole part too large'' \<and> 2 ^ 64 \<le> unat w * 10 ^ 18"
proof (cases "MAX_VALUE div WEI_PER_ETHER < w")
  case True
  then show ?thesis
    using max_div_less_iff [of WEI_PER_ETHER w] by (simp add: amount_make_def WEI_PER_ETHER_def)
next
  case False
  then have "unat w \<le> 18"
    by (simp add: word_less_nat_alt unat_div not_less)
  then have "unat w * 10 ^ 18 \<le> 18 * 10 ^ 18" by (intro mult_right_mono) auto
  moreover have f: "unat f < 2 ^ 32" using unsigned_less [of f, where ?'a = nat] by simp
  ultimately have b: "unat w * 10 ^ 18 + unat f < 2 ^ 64" by simp
  have u: "unat (ucast f :: u64) = unat f" using f by (simp add: unsigned_ucast_eq take_bit_nat_eq_self)
  show ?thesis
    using False b unat_mult_exact [of w WEI_PER_ETHER]
      unat_plus_exact [of "w * WEI_PER_ETHER" "ucast f"]
    by (simp add: amount_make_def u)
qed

subsection \<open>Printing and parsing\<close>

lemma strip_zeros_split: "\<exists>n. s = strip_zeros s @ replicate n CHR ''0''"
proof (induction s rule: rev_induct)
  case (snoc c s)
  show ?case
  proof (cases "c = CHR ''0''")
    case True
    then have "strip_zeros (s @ [c]) = strip_zeros s" by (simp add: strip_zeros_def)
    moreover obtain n where "s = strip_zeros s @ replicate n CHR ''0''" using snoc by blast
    ultimately have "s @ [c] = strip_zeros (s @ [c]) @ replicate (Suc n) CHR ''0''"
      using True by (metis append.assoc replicate_Suc replicate_append_same)
    then show ?thesis by blast
  next
    case False
    then have "s @ [c] = strip_zeros (s @ [c]) @ replicate 0 CHR ''0''" by (simp add: strip_zeros_def)
    then show ?thesis by blast
  qed
qed (simp add: strip_zeros_def)

lemma pad_back_strip_zeros: "length s = n \<Longrightarrow> pad_back n (strip_zeros s) = s"
proof -
  assume l: "length s = n"
  obtain k where k: "s = strip_zeros s @ replicate k CHR ''0''" using strip_zeros_split by blast
  then have "length s = length (strip_zeros s) + k" by (metis length_append length_replicate)
  then show ?thesis using l k by (simp add: pad_back_def)
qed

lemma length_strip_zeros: "length (strip_zeros s) \<le> length s"
  using strip_zeros_split [of s] by (metis le_add1 length_append)

text \<open>The digits that follow the point, completed to 18 places.\<close>

definition frac_digits :: "u32 \<Rightarrow> string" where
  "frac_digits f = pad_front DECIMALS (dec_string (unat f))"

lemma length_dec_u32: "length (dec_string (unat f)) \<le> 10" for f :: u32
proof -
  have "unat f < 10 ^ 10" using unsigned_less [of f, where ?'a = nat] by simp
  then show ?thesis by (simp add: dec_string_def length_show_base)
qed

lemma length_frac_digits: "length (frac_digits f) = 18"
  using length_dec_u32 [of f] by (simp add: frac_digits_def pad_front_def)

lemma stoul_frac_digits: "stoul 10 (frac_digits f) = Inr (ucast f)"
proof -
  have z: "CHR ''0'' = digit_char 0" by (simp add: digit_char_def)
  have dig: "\<forall>c \<in> set (frac_digits f). \<exists>d<10. c = digit_char d"
  proof
    fix c assume "c \<in> set (frac_digits f)"
    then have "c = digit_char 0 \<or> c \<in> set (dec_string (unat f))"
      by (auto simp: frac_digits_def pad_front_def z)
    then show "\<exists>d<10. c = digit_char d" using dec_string_digits [of "unat f"] by (metis zero_less_numeral)
  qed
  have "frac_digits f \<noteq> []" using length_frac_digits [of f] by fastforce
  moreover have "scan_digits 10 0 (frac_digits f) = unat f"
    using scan_show_base [OF digit_value_10, of "unat f"]
    by (simp add: frac_digits_def pad_front_def scan_digits_zeros dec_string_def)
  ultimately have "c_strto 10 (frac_digits f) = Some (False, unat f)"
    using c_strto_digits [OF _ dig] by simp
  moreover have "unat f < 2 ^ 64" using unsigned_less [of f, where ?'a = nat] by simp
  ultimately show ?thesis by (simp add: stoul_def)
qed

lemma pad_back_zero: "pad_back DECIMALS ''0'' = frac_digits 0"
  by (simp add: frac_digits_def pad_front_def dec_string_def show_base.simps digit_char_def
      pad_back_def numeral_eq_Suc)

lemma amount_to_string_frac:
  "\<exists>t. amount_to_string a = dec_string (unat (whole a)) @ ''.'' @ t
     \<and> length t \<le> 18 \<and> pad_back DECIMALS t = frac_digits (fraction a)"
proof (cases "fraction a = 0")
  case True
  then show ?thesis
    by (simp add: amount_to_string_def pad_back_zero)
next
  case False
  let ?s = "frac_digits (fraction a)"
  have "strip_zeros ?s \<noteq> []"
  proof
    assume "strip_zeros ?s = []"
    then obtain n where "?s = replicate n CHR ''0''" using strip_zeros_split [of ?s] by auto
    then have "scan_digits 10 0 ?s = 0" using scan_digits_zeros [of n "[]"] by simp
    then show False using False
      scan_show_base [OF digit_value_10, of "unat (fraction a)"]
      by (simp add: frac_digits_def pad_front_def scan_digits_zeros dec_string_def unat_eq_0)
  qed
  then show ?thesis using False
    pad_back_strip_zeros [OF length_frac_digits, of "fraction a"]
    length_strip_zeros [of ?s] length_frac_digits [of "fraction a"]
    by (simp add: amount_to_string_def Let_def frac_digits_def [symmetric])
qed

lemma ucast_u32_u64 [simp]: "ucast (ucast f :: u64) = f" for f :: u32
  by (simp add: ucast_up_ucast_id is_up)

lemma dec_string_u64 [simp]: "stoull 10 (dec_string (unat w)) = Inr w" for w :: u64
  using stoull_dec_string [of "unat w"] unsigned_less [of w, where ?'a = nat] by simp

lemma dec_string_no_point: "CHR ''.'' \<notin> set (dec_string n)"
proof
  assume "CHR ''.'' \<in> set (dec_string n)"
  then obtain d where "d < 10" "CHR ''.'' = digit_char d" using dec_string_digits by blast
  then show False by (simp add: digit_char_def numeral_eq_Suc less_Suc_eq) (auto simp: digit_char_def)
qed

lemma amount_string_result:
  "amount_from_string (amount_to_string a) = amount_make (whole a) (fraction a)"
proof -
  obtain t where t: "amount_to_string a = dec_string (unat (whole a)) @ ''.'' @ t"
    "length t \<le> 18" "pad_back DECIMALS t = frac_digits (fraction a)"
    using amount_to_string_frac by blast
  have nodot: "\<forall>c \<in> set (dec_string (unat (whole a))). c \<noteq> CHR ''.''" using dec_string_no_point by metis
  have "unat (whole a) < 2 ^ 64" using unsigned_less [of "whole a", where ?'a = nat] by simp
  then have "stoull 10 (dec_string (unat (whole a))) = Inr (whole a)"
    by (simp add: stoull_dec_string)
  then show ?thesis
    unfolding amount_from_string_def t(1) using nodot t(2,3)
    by (simp add: takeWhile_append dropWhile_append stoul_frac_digits Let_def)
qed

text \<open>
  C15. Printing an amount and parsing the text always succeeds, and the result keeps the whole part
  and the low 32 bits of the fraction of an ether. So the round trip returns the amount exactly
  when its fraction, in wei, is below \<open>2 ^ 32\<close>; above that \<open>fraction()\<close> has truncated it.
\<close>

theorem amount_string_round_trip:
  "\<exists>r. amount_from_string (amount_to_string a) = Inr r
     \<and> unat (wei r) = unat (wei a) div 10 ^ 18 * 10 ^ 18 + unat (wei a) mod 10 ^ 18 mod 2 ^ 32
     \<and> (r = a \<longleftrightarrow> unat (wei a) mod 10 ^ 18 < 2 ^ 32)"
proof -
  let ?n = "unat (wei a)"
  have w: "unat (whole a) = ?n div 10 ^ 18" by (simp add: whole_def unat_div)
  have f: "unat (fraction a) = ?n mod 10 ^ 18 mod 2 ^ 32"
    by (simp add: fraction_def unsigned_ucast_eq unat_mod take_bit_eq_mod)
  have "unat (whole a) * 10 ^ 18 < 2 ^ 64"
    unfolding w using unsigned_less [of "wei a", where ?'a = nat]
    by (simp add: le_less_trans [OF div_times_less_eq_dividend])
  then obtain r where r: "amount_make (whole a) (fraction a) = Inr r"
      "unat (wei r) = ?n div 10 ^ 18 * 10 ^ 18 + ?n mod 10 ^ 18 mod 2 ^ 32"
    using amount_make_exact [of "whole a" "fraction a"] by (auto simp: w f split: sum.splits)
  have "r = a \<longleftrightarrow> unat (wei r) = ?n"
    by (cases r; cases a) (simp add: word_unat_eq_iff)
  also have "\<dots> \<longleftrightarrow> ?n mod 10 ^ 18 < 2 ^ 32"
  proof -
    have "?n = ?n div 10 ^ 18 * 10 ^ 18 + ?n mod 10 ^ 18" by (rule div_mult_mod_eq [symmetric])
    then have "unat (wei r) = ?n \<longleftrightarrow> ?n mod 10 ^ 18 mod 2 ^ 32 = ?n mod 10 ^ 18"
      using r(2) by linarith
    then show ?thesis by (simp add: mod_eq_self_iff_div_eq_0 div_eq_0_iff)
  qed
  finally show ?thesis using r by (auto simp: amount_string_result)
qed

text \<open>Text without a point is multiplied without the range check that text with a point gets.\<close>

lemmas scan_eval = amount_from_string_def stoull_def stoul_def c_strto_def is_space_def scan_sign_def
  starts_digit_def digit_value_def

lemma amount_from_string_unchecked:
  "amount_from_string ''19'' = Inr (Amount 553255926290448384)
   \<and> amount_from_string ''19.0'' = Inl (Overflow_error ''Amount whole part too large'')"
proof
  show "amount_from_string ''19'' = Inr (Amount 553255926290448384)"
    by (simp add: scan_eval WEI_PER_ETHER_def)
  have "stoull 10 ''19'' = Inr 19" by (simp add: scan_eval)
  then show "amount_from_string ''19.0'' = Inl (Overflow_error ''Amount whole part too large'')"
    using stoul_frac_digits [of 0] pad_back_zero
    by (simp add: amount_from_string_def amount_make_def WEI_PER_ETHER_def MAX_VALUE_def)
qed

subsection \<open>Floating point\<close>

lemma wei_per_ether_f64: "f64_of_u64 WEI_PER_ETHER = Fin 1000000000000000000"
proof -
  have "fl 1000000000000000000 = 1000000000000000000"
    using fl_evalI [of 59 1000000000000000000 7812500000000000] by (simp add: power_int_minus)
  then show ?thesis
    using round64_Fin [of 1000000000000000000] small_range [of 1000000000000000000]
    by (simp add: f64_of_u64_def)
qed

lemma max_ether_f64:
  "f64_div (f64_of_u64 MAX_VALUE) (f64_of_u64 WEI_PER_ETHER) = Fin (1298074214633707 / 70368744177664)"
proof -
  have "fl 18446744073709551615 = 18446744073709551616"
    using fl_evalI [of 63 18446744073709551615 9007199254740992] by (simp add: power_int_minus)
  then have m: "f64_of_u64 MAX_VALUE = Fin 18446744073709551616"
    using round64_Fin [of 18446744073709551615] small_range [of 18446744073709551615]
    by (simp add: f64_of_u64_def)
  have "fl (18446744073709551616 / 1000000000000000000) = 1298074214633707 / 70368744177664"
    using fl_evalI [of 4 "18446744073709551616 / 1000000000000000000" 5192296858534828]
    by (simp add: power_int_minus)
  then show ?thesis
    using round64_Fin [of "18446744073709551616 / 1000000000000000000"]
      small_range [of "18446744073709551616 / 1000000000000000000"]
    by (simp add: m wei_per_ether_f64)
qed

lemma from_ether_in_range:
  assumes "0 \<le> q" "q \<le> 18"
  shows "from_ether (Fin q) =
    map_option (\<lambda>w. Inr (Amount w)) (f64_to_u64 (round64 (q * 1000000000000000000)))"
  using assms by (simp add: from_ether_def max_ether_f64 del: f64_of_u64_def) (simp add: wei_per_ether_f64)

text \<open>
  \<open>from_ether\<close> on a double between one wei and 18 ether never throws and never casts out of
  range, and the wei it returns differ from the exact product by less than one wei of truncation
  plus the half-ulp relative error \<open>2 ^ -53\<close> of the one multiplication.
\<close>

theorem from_ether_accurate:
  assumes "1 \<le> q * 1000000000000000000" and "q \<le> 18"
  shows "\<exists>w. from_ether (Fin q) = Some (Inr (Amount w))
    \<and> \<bar>of_nat (unat w) - q * 1000000000000000000\<bar> \<le> 1 + q * 1000000000000000000 * 2 powi (- 53)"
proof -
  let ?x = "q * 1000000000000000000"
  define t where "t = \<lfloor>fl ?x\<rfloor>"
  have x: "2 powi (- 1022) \<le> ?x" using assms(1) by (rule small_range)
  have "?x \<le> 18000000000000000000" using assms(2) by simp
  also have "\<dots> \<le> 2 ^ 1000" by (rule order_trans [of _ "2 ^ 64"]) (simp, rule power_increasing, simp_all)
  finally have r: "round64 ?x = Fin (fl ?x)" using x by (intro round64_Fin) auto
  have err: "\<bar>fl ?x - ?x\<bar> \<le> ?x * 2 powi (- 53)" using x by (rule fl_relative_error)
  have small: "(2::rat) powi (- 53) \<le> 1 / 100" by (simp add: power_int_minus)
  have "?x * 2 powi (- 53) \<le> ?x * (1 / 100)" using assms(1) small by (intro mult_left_mono) auto
  then have "\<bar>fl ?x - ?x\<bar> \<le> ?x * (1 / 100)" using err by (rule order_trans [rotated])
  then have "0 \<le> fl ?x" "fl ?x < 18446744073709551616"
    using assms by linarith+
  then have t: "0 \<le> t" "t < 2 ^ 64"
    unfolding t_def by (auto simp: floor_less_iff)
  have q: "0 \<le> q" using assms(1) by (simp add: zero_le_mult_iff not_less [symmetric])
  have "from_ether (Fin q) = Some (Inr (Amount (of_int t)))"
    using t \<open>0 \<le> fl ?x\<close> unfolding from_ether_in_range [OF q assms(2)] r
    by (simp add: t_def [symmetric])
  moreover have "of_nat (unat (of_int t :: u64)) = (of_int t :: rat)"
  proof -
    have "int (unat (of_int t :: u64)) = t"
      using t by (simp add: unsigned_of_int take_bit_int_eq_self)
    then show ?thesis by (metis of_int_of_nat_eq)
  qed
  moreover have "\<bar>of_int t - ?x\<bar> \<le> 1 + ?x * 2 powi (- 53)"
    using err of_int_floor_le [of "fl ?x"] floor_correct [of "fl ?x"]
    unfolding t_def [symmetric] by linarith
  ultimately show ?thesis by auto
qed

theorem from_ether_accurate_witness:
  "\<exists>w. from_ether (Fin (1 / 2)) = Some (Inr (Amount w))
    \<and> \<bar>of_nat (unat w) - 500000000000000000\<bar> \<le> (1 :: rat) + 500000000000000000 * 2 powi (- 53)"
  using from_ether_accurate [of "1 / 2"] by simp

text \<open>
  The largest double that passes the range check is the rounded quotient itself; its product with
  \<open>WEI_PER_ETHER\<close> rounds to \<open>2 ^ 64\<close>, which the cast cannot represent.
\<close>

lemma from_ether_limit_undefined:
  "from_ether (f64_div (f64_of_u64 MAX_VALUE) (f64_of_u64 WEI_PER_ETHER)) = None"
proof -
  let ?x = "1298074214633707 / 70368744177664 * 1000000000000000000 :: rat"
  have "fl ?x = 18446744073709551616"
    using fl_evalI [of 64 ?x 4503599627370496] by (simp add: power_int_minus)
  then have "round64 ?x = Fin 18446744073709551616"
    using round64_Fin [of ?x] small_range [of ?x] by simp
  then show ?thesis by (simp add: from_ether_def max_ether_f64) (simp add: wei_per_ether_f64)
qed

end
