(* ===== verification/Core_Transaction.thy ===== *)
theory Core_Transaction
  imports Core_Hash Core_Amount
begin

text \<open>
  \<open>core::Transaction\<close> (modules/core/src/transaction.cpp) over the struct \<open>TransactionData\<close>
  (types.hpp). The \<open>mutable\<close> member \<open>cached_hash_\<close> makes \<open>calculate_hash\<close> a state change, so
  the operation returns the hash and the transaction with its cache filled.
  \<open>tx_coherent\<close> is the cache invariant. \<open>to_json\<close> is not modelled: it only calls the JSON package.
\<close>

subsection \<open>Data\<close>

record TransactionData =
  td_from :: byte_vector
  td_to :: byte_vector
  td_value :: u64
  td_gas_limit :: u64
  td_gas_price :: u64
  td_data :: byte_vector
  td_nonce :: u64

record Transaction =
  tx_data :: TransactionData
  tx_cached_hash :: "Hash option"

abbreviation MAX_TRANSACTION_SIZE :: nat where "MAX_TRANSACTION_SIZE \<equiv> 128 * 1024"

text \<open>Two 20-byte arrays, four 8-byte integers and a 24-byte vector on LP64 targets.\<close>

abbreviation sizeof_TransactionData :: nat where "sizeof_TransactionData \<equiv> 96"

definition wf_txdata :: "TransactionData \<Rightarrow> bool" where
  "wf_txdata d \<longleftrightarrow> length (td_from d) = ADDRESS_SIZE \<and> length (td_to d) = ADDRESS_SIZE"

definition make_transaction :: "Address \<Rightarrow> Address \<Rightarrow> Amount \<Rightarrow> Transaction" where
  "make_transaction from to amount =
     \<lparr> tx_data = \<lparr> td_from = address_data from, td_to = address_data to, td_value = wei amount,
         td_gas_limit = 21000, td_gas_price = 1, td_data = [], td_nonce = 0 \<rparr>,
       tx_cached_hash = None \<rparr>"

definition transaction_of_data :: "TransactionData \<Rightarrow> Transaction" where
  "transaction_of_data d = \<lparr> tx_data = d, tx_cached_hash = None \<rparr>"

definition tx_from :: "Transaction \<Rightarrow> Address" where
  "tx_from t = Address (td_from (tx_data t))"

definition tx_to :: "Transaction \<Rightarrow> Address" where
  "tx_to t = Address (td_to (tx_data t))"

definition tx_value :: "Transaction \<Rightarrow> Amount" where
  "tx_value t = from_wei (td_value (tx_data t))"

definition tx_gas_limit :: "Transaction \<Rightarrow> u64" where
  "tx_gas_limit t = td_gas_limit (tx_data t)"

definition tx_gas_price :: "Transaction \<Rightarrow> u64" where
  "tx_gas_price t = td_gas_price (tx_data t)"

definition tx_payload :: "Transaction \<Rightarrow> byte_vector" where
  "tx_payload t = td_data (tx_data t)"

definition tx_nonce :: "Transaction \<Rightarrow> u64" where
  "tx_nonce t = td_nonce (tx_data t)"

subsection \<open>Setters and the cached hash\<close>

definition tx_invalidate_cache :: "Transaction \<Rightarrow> Transaction" where
  "tx_invalidate_cache t = t\<lparr>tx_cached_hash := None\<rparr>"

definition tx_set_from :: "Address \<Rightarrow> Transaction \<Rightarrow> Transaction" where
  "tx_set_from a t = tx_invalidate_cache (t\<lparr>tx_data := (tx_data t)\<lparr>td_from := address_data a\<rparr>\<rparr>)"

definition tx_set_to :: "Address \<Rightarrow> Transaction \<Rightarrow> Transaction" where
  "tx_set_to a t = tx_invalidate_cache (t\<lparr>tx_data := (tx_data t)\<lparr>td_to := address_data a\<rparr>\<rparr>)"

definition tx_set_value :: "Amount \<Rightarrow> Transaction \<Rightarrow> Transaction" where
  "tx_set_value v t = tx_invalidate_cache (t\<lparr>tx_data := (tx_data t)\<lparr>td_value := wei v\<rparr>\<rparr>)"

definition tx_set_gas_limit :: "u64 \<Rightarrow> Transaction \<Rightarrow> Transaction" where
  "tx_set_gas_limit g t = tx_invalidate_cache (t\<lparr>tx_data := (tx_data t)\<lparr>td_gas_limit := g\<rparr>\<rparr>)"

definition tx_set_gas_price :: "u64 \<Rightarrow> Transaction \<Rightarrow> Transaction" where
  "tx_set_gas_price p t = tx_invalidate_cache (t\<lparr>tx_data := (tx_data t)\<lparr>td_gas_price := p\<rparr>\<rparr>)"

definition tx_set_data :: "byte_vector \<Rightarrow> Transaction \<Rightarrow> Transaction" where
  "tx_set_data d t = tx_invalidate_cache (t\<lparr>tx_data := (tx_data t)\<lparr>td_data := d\<rparr>\<rparr>)"

definition tx_set_nonce :: "u64 \<Rightarrow> Transaction \<Rightarrow> Transaction" where
  "tx_set_nonce n t = tx_invalidate_cache (t\<lparr>tx_data := (tx_data t)\<lparr>td_nonce := n\<rparr>\<rparr>)"

text \<open>The bytes \<open>calculate_hash\<close> collects, and the hash of them.\<close>

definition tx_hash_input :: "TransactionData \<Rightarrow> byte_vector" where
  "tx_hash_input d =
     td_from d @ td_to d @ be_bytes (td_value d) 8 @ be_bytes (td_gas_limit d) 8 @
     be_bytes (td_gas_price d) 8 @ be_bytes (td_nonce d) 8 @ td_data d"

definition tx_calculate_hash :: "Transaction \<Rightarrow> Hash \<times> Transaction" where
  "tx_calculate_hash t =
     (case tx_cached_hash t of
        Some h \<Rightarrow> (h, t)
      | None \<Rightarrow> (let h = hash_sha256 (tx_hash_input (tx_data t)) in (h, t\<lparr>tx_cached_hash := Some h\<rparr>)))"

abbreviation tx_hash :: "Transaction \<Rightarrow> Hash" where
  "tx_hash t \<equiv> fst (tx_calculate_hash t)"

definition tx_calculate_fee :: "Transaction \<Rightarrow> Amount" where
  "tx_calculate_fee t = from_wei (td_gas_limit (tx_data t) * td_gas_price (tx_data t))"

subsection \<open>Classification and validation\<close>

definition is_contract_creation :: "Transaction \<Rightarrow> bool" where
  "is_contract_creation t = (address_is_zero (tx_to t) \<and> tx_payload t \<noteq> [])"

definition is_contract_call :: "Transaction \<Rightarrow> bool" where
  "is_contract_call t = (\<not> address_is_zero (tx_to t) \<and> tx_payload t \<noteq> [])"

definition is_transfer :: "Transaction \<Rightarrow> bool" where
  "is_transfer t = (\<not> address_is_zero (tx_to t) \<and> tx_payload t = [])"

definition validate_gas :: "Transaction \<Rightarrow> bool" where
  "validate_gas t = (21000 \<le> tx_gas_limit t \<and> 0 < tx_gas_price t)"

definition validate_amount :: "Transaction \<Rightarrow> bool" where
  "validate_amount t = (\<not> amount_is_zero (Amount (td_value (tx_data t))) \<or> is_contract_creation t)"

definition validate_addresses :: "Transaction \<Rightarrow> bool" where
  "validate_addresses t =
     (address_is_valid (tx_from t) \<and> (address_is_valid (tx_to t) \<or> is_contract_creation t))"

definition validate_nonce :: "Transaction \<Rightarrow> bool" where
  "validate_nonce t = True"

definition tx_is_valid :: "Transaction \<Rightarrow> bool" where
  "tx_is_valid t = (validate_addresses t \<and> validate_gas t \<and> validate_amount t \<and> validate_nonce t)"

definition tx_size :: "Transaction \<Rightarrow> nat" where
  "tx_size t = sizeof_TransactionData + length (tx_payload t)"

definition is_too_large :: "Transaction \<Rightarrow> bool" where
  "is_too_large t = (MAX_TRANSACTION_SIZE < tx_size t)"

definition tx_to_string :: "Transaction \<Rightarrow> string" where
  "tx_to_string t =
     ''Transaction{'' @ ''from: '' @ address_to_hex (tx_from t)
     @ '', to: '' @ address_to_hex (tx_to t)
     @ '', value: '' @ amount_to_string (Amount (td_value (tx_data t)))
     @ '', gas_limit: '' @ dec_string (unat (tx_gas_limit t))
     @ '', gas_price: '' @ dec_string (unat (tx_gas_price t))
     @ '', nonce: '' @ dec_string (unat (tx_nonce t))
     @ '', data_size: '' @ dec_string (length (tx_payload t))
     @ ''}''"

definition tx_equal :: "Transaction \<Rightarrow> Transaction \<Rightarrow> bool" where
  "tx_equal lhs rhs = (tx_hash lhs = tx_hash rhs)"

definition create_transfer_transaction :: "Address \<Rightarrow> Address \<Rightarrow> Amount \<Rightarrow> Transaction" where
  "create_transfer_transaction from to amount = make_transaction from to amount"

definition create_contract_transaction :: "Address \<Rightarrow> byte_vector \<Rightarrow> Transaction" where
  "create_contract_transaction from contract_data =
     tx_set_gas_limit 53000 (tx_set_data contract_data
       (make_transaction from address_zero amount_zero))"

definition create_contract_call_transaction :: "Address \<Rightarrow> Address \<Rightarrow> byte_vector \<Rightarrow> Transaction" where
  "create_contract_call_transaction from contract call_data =
     tx_set_data call_data (make_transaction from contract amount_zero)"

definition estimate_gas :: "Transaction \<Rightarrow> u64" where
  "estimate_gas t =
     (if is_contract_creation t then 53000 + of_nat (length (tx_payload t)) * 200
      else if is_contract_call t then 21000 + of_nat (length (tx_payload t)) * 68
      else 21000)"

subsection \<open>The cache invariant\<close>

definition tx_coherent :: "Transaction \<Rightarrow> bool" where
  "tx_coherent t \<longleftrightarrow>
     (case tx_cached_hash t of None \<Rightarrow> True | Some h \<Rightarrow> h = hash_sha256 (tx_hash_input (tx_data t)))"

lemmas tx_setter_defs = tx_set_from_def tx_set_to_def tx_set_value_def tx_set_gas_limit_def
  tx_set_gas_price_def tx_set_data_def tx_set_nonce_def tx_invalidate_cache_def

lemma tx_coherent_new [simp, cf_wf]:
  "tx_coherent (make_transaction f to v)" "tx_coherent (transaction_of_data d)"
  by (simp_all add: tx_coherent_def make_transaction_def transaction_of_data_def)

lemma tx_hash_coherent: "tx_coherent t \<Longrightarrow> tx_hash t = hash_sha256 (tx_hash_input (tx_data t))"
  by (auto simp: tx_coherent_def tx_calculate_hash_def Let_def split: option.splits)

lemma tx_calculate_hash_keeps:
  "tx_data (snd (tx_calculate_hash t)) = tx_data t"
  "tx_coherent t \<Longrightarrow> tx_coherent (snd (tx_calculate_hash t))"
  "tx_hash (snd (tx_calculate_hash t)) = tx_hash t"
  by (auto simp: tx_coherent_def tx_calculate_hash_def Let_def split: option.splits)

text \<open>A client's calls on one transaction object.\<close>

datatype tx_op = Set_from Address | Set_to Address | Set_value Amount | Set_gas_limit u64
  | Set_gas_price u64 | Set_data byte_vector | Set_nonce u64 | Calculate_hash

fun tx_apply :: "tx_op \<Rightarrow> Transaction \<Rightarrow> Transaction" where
  "tx_apply (Set_from a) t = tx_set_from a t"
| "tx_apply (Set_to a) t = tx_set_to a t"
| "tx_apply (Set_value v) t = tx_set_value v t"
| "tx_apply (Set_gas_limit g) t = tx_set_gas_limit g t"
| "tx_apply (Set_gas_price p) t = tx_set_gas_price p t"
| "tx_apply (Set_data d) t = tx_set_data d t"
| "tx_apply (Set_nonce n) t = tx_set_nonce n t"
| "tx_apply Calculate_hash t = snd (tx_calculate_hash t)"

lemma tx_apply_coherent: "tx_coherent t \<Longrightarrow> tx_coherent (tx_apply op t)"
  by (cases op) (simp_all add: tx_setter_defs tx_calculate_hash_keeps, simp_all add: tx_coherent_def)

lemma tx_run_coherent: "tx_coherent t \<Longrightarrow> tx_coherent (fold tx_apply ops t)"
  by (induction ops arbitrary: t) (simp_all add: tx_apply_coherent)

text \<open>
  C8. The cached hash is never stale: after any sequence of setter calls and hash computations on a
  newly constructed transaction, \<open>calculate_hash\<close> returns the hash of the current fields.
\<close>

theorem tx_hash_never_stale:
  "tx_hash (fold tx_apply ops (transaction_of_data d))
     = hash_sha256 (tx_hash_input (tx_data (fold tx_apply ops (transaction_of_data d))))"
  by (intro tx_hash_coherent tx_run_coherent tx_coherent_new)

lemma tx_hash_addresses:
  assumes "wf_txdata (tx_data t)" and "tx_cached_hash t = None"
  shows "tx_hash t = Hash (td_from (tx_data t) @ take 12 (td_to (tx_data t)))"
  using assms tx_hash_coherent [of t]
  by (simp add: tx_coherent_def hash_sha256_def tx_hash_input_def wf_txdata_def core_size_defs
      copy_into_zeros_long)

text \<open>In a hash table all transactions of a sender meet in one bucket.\<close>

lemma same_sender_bucket:
  assumes "wf_txdata (tx_data t)" "wf_txdata (tx_data u)" "tx_cached_hash t = None" "tx_cached_hash u = None"
    and "td_from (tx_data t) = td_from (tx_data u)"
  shows "std_hash (hash_data (tx_hash t)) = std_hash (hash_data (tx_hash u))"
  using assms by (simp add: tx_hash_addresses std_hash_def wf_txdata_def core_size_defs)

text \<open>
  The hash covers only the sender and the first 12 bytes of the recipient: \<open>hash_sha256\<close> keeps
  32 bytes and the addresses come first. Two transactions that agree on these bytes are equal for
  \<open>operator==\<close> whatever their value, gas, nonce and payload.
\<close>

theorem tx_hash_covers_addresses_only:
  assumes "wf_txdata d" and "wf_txdata e"
  shows "tx_hash (transaction_of_data d) = Hash (td_from d @ take 12 (td_to d))
    \<and> (tx_equal (transaction_of_data d) (transaction_of_data e)
         \<longleftrightarrow> td_from d = td_from e \<and> take 12 (td_to d) = take 12 (td_to e))"
proof -
  have "tx_hash (transaction_of_data d) = Hash (td_from d @ take 12 (td_to d))"
    if "wf_txdata d" for d
    using that tx_hash_addresses [of "transaction_of_data d"] by (simp add: transaction_of_data_def)
  then show ?thesis using assms
    by (simp add: tx_equal_def wf_txdata_def)
qed

theorem tx_hash_covers_addresses_only_witness:
  "tx_equal (make_transaction (Address (replicate 20 1)) (Address (replicate 20 2)) (Amount 5))
     (transaction_of_data \<lparr> td_from = replicate 20 1, td_to = replicate 20 2, td_value = 900,
        td_gas_limit = 50000, td_gas_price = 7, td_data = [1, 2], td_nonce = 3 \<rparr>)"
proof -
  have "make_transaction (Address (replicate 20 1)) (Address (replicate 20 2)) (Amount 5) =
    transaction_of_data \<lparr> td_from = replicate 20 1, td_to = replicate 20 2, td_value = 5,
        td_gas_limit = 21000, td_gas_price = 1, td_data = [], td_nonce = 0 \<rparr>"
    by (simp add: make_transaction_def transaction_of_data_def)
  then show ?thesis
    using tx_hash_covers_addresses_only [of
        "\<lparr> td_from = replicate 20 1, td_to = replicate 20 2, td_value = 5,
          td_gas_limit = 21000, td_gas_price = 1, td_data = [], td_nonce = 0 \<rparr>"
        "\<lparr> td_from = replicate 20 1, td_to = replicate 20 2, td_value = 900,
          td_gas_limit = 50000, td_gas_price = 7, td_data = [1, 2], td_nonce = 3 \<rparr>"]
    by (simp add: wf_txdata_def core_size_defs)
qed

subsection \<open>Validation\<close>

lemmas tx_validity_defs = tx_is_valid_def validate_addresses_def validate_gas_def validate_amount_def
  validate_nonce_def address_is_valid_def is_contract_creation_def is_contract_call_def is_transfer_def
  amount_is_zero_def tx_from_def tx_to_def tx_payload_def tx_gas_limit_def tx_gas_price_def

text \<open>
  What the creation helpers build. A transfer is valid exactly when both addresses and the
  amount are nonzero; a contract creation exactly when the sender is nonzero and the code is
  nonempty; a contract call to a nonzero address is never valid, because the helper sends a zero
  amount and \<open>validate_amount\<close> accepts that only for creations. A valid transaction is in exactly one of the
  three classes.
\<close>

theorem creation_helpers_validity:
  "tx_is_valid (create_transfer_transaction f to v)
     = (\<not> address_is_zero f \<and> \<not> address_is_zero to \<and> \<not> amount_is_zero v)
   \<and> tx_is_valid (create_contract_transaction f code) = (\<not> address_is_zero f \<and> code \<noteq> [])
   \<and> tx_is_valid (create_contract_call_transaction f contract call)
     = (\<not> address_is_zero f \<and> address_is_zero contract \<and> call \<noteq> [])
   \<and> (tx_is_valid t \<longrightarrow>
        length (filter id [is_contract_creation t, is_contract_call t, is_transfer t]) = 1)"
proof (intro conjI)
  have z: "address_is_zero address_zero" by (simp add: address_is_zero_iff)
  show "tx_is_valid (create_transfer_transaction f to v)
     = (\<not> address_is_zero f \<and> \<not> address_is_zero to \<and> \<not> amount_is_zero v)"
    by (auto simp: tx_validity_defs create_transfer_transaction_def make_transaction_def)
  show "tx_is_valid (create_contract_transaction f code) = (\<not> address_is_zero f \<and> code \<noteq> [])"
    using z by (auto simp: tx_validity_defs create_contract_transaction_def make_transaction_def
        tx_setter_defs amount_zero_def)
  show "tx_is_valid (create_contract_call_transaction f contract call)
     = (\<not> address_is_zero f \<and> address_is_zero contract \<and> call \<noteq> [])"
    by (auto simp: tx_validity_defs create_contract_call_transaction_def make_transaction_def
        tx_setter_defs amount_zero_def)
  show "tx_is_valid t \<longrightarrow>
      length (filter id [is_contract_creation t, is_contract_call t, is_transfer t]) = 1"
    by (auto simp: tx_validity_defs)
qed

theorem creation_helpers_validity_witness:
  "tx_is_valid (create_contract_transaction (Address (replicate 20 1)) [1])
   \<and> length (filter id
        [is_contract_creation (create_contract_transaction (Address (replicate 20 1)) [1]),
         is_contract_call (create_contract_transaction (Address (replicate 20 1)) [1]),
         is_transfer (create_contract_transaction (Address (replicate 20 1)) [1])]) = 1"
proof -
  have "\<not> address_is_zero (Address (replicate 20 1))"
    by (simp add: address_is_zero_def numeral_eq_Suc)
  then show ?thesis
    using creation_helpers_validity [where f = "Address (replicate 20 1)" and code = "[1]"
        and t = "create_contract_transaction (Address (replicate 20 1)) [1]"]
    by simp
qed

end
