(* ===== verification/Locking.thy ===== *)
theory Locking
  imports CF_Prelude
begin

text \<open>
  Mutexes. A thread that acquires a \<open>std::mutex\<close> or \<open>std::shared_mutex\<close> while it holds it has
  undefined behaviour, and in practice blocks for ever: the outcome \<open>Self_lock\<close>. A method takes
  the parameter \<open>held\<close>, whether the calling thread holds the mutex of the object, and where the
  behaviour apart from locking is of interest the parameter \<open>relock\<close>, whether the owner of the mutex
  may acquire it again. \<open>Undefined_cast\<close> is the conversion of a floating-point number that does not fit.
\<close>

datatype 'a outcome = Done 'a | Self_lock | Undefined_cast

primrec outcome_bind :: "'a outcome \<Rightarrow> ('a \<Rightarrow> 'b outcome) \<Rightarrow> 'b outcome" where
  "outcome_bind (Done x) f = f x"
| "outcome_bind Self_lock f = Self_lock"
| "outcome_bind Undefined_cast f = Undefined_cast"

definition lock_guard :: "bool \<Rightarrow> bool \<Rightarrow> 'a outcome \<Rightarrow> 'a outcome" where
  "lock_guard relock held body = (if held \<and> \<not> relock then Self_lock else body)"

lemma lock_guard_simps [simp]:
  "lock_guard relock False body = body"
  "lock_guard True held body = body"
  "lock_guard False True body = Self_lock"
  by (simp_all add: lock_guard_def)

end
