(* ===== verification/Mempool.thy ===== *)
theory Mempool
  imports Core_Transaction Containers Locking
begin

text \<open>
  The transaction pool \<open>MempoolImpl\<close> (modules/mempool/src/mempool_impl.cpp).

  Every public method takes \<open>mutex_\<close>, a \<open>std::shared_mutex\<close>. A thread that acquires it while
  already holding it has undefined behaviour (in practice it blocks for ever); this is the outcome
  \<open>Self_lock\<close>. Methods take the parameter \<open>relock\<close>, false for \<open>std::shared_mutex\<close> and true for
  a mutex its owner may acquire again, and the parameter \<open>held\<close>, whether the calling thread holds
  the mutex. The behaviour of the pool apart from this is stated with \<open>relock\<close> true.

  The clock is a parameter \<open>clk\<close>; \<open>clk i\<close> is the i-th reading in the call. Callbacks are the list
  of notifications sent, \<open>mp_events\<close>.
\<close>

subsection \<open>Data\<close>

datatype MempoolError = SUCCESS | TRANSACTION_EXISTS | INVALID_TRANSACTION | INSUFFICIENT_FEE
  | POOL_FULL | NONCE_TOO_LOW | NONCE_TOO_HIGH | REPLACE_UNDERPRICED | DEPENDENCY_MISSING

record TransactionPriority =
  pr_fee_per_gas :: f64
  pr_age_seconds :: u64
  pr_size_bytes :: u64

definition calculate_score :: "TransactionPriority \<Rightarrow> f64" where
  "calculate_score p =
     (let age_bonus = f64_add (Fin 1) (f64_div (f64_of_u64 (pr_age_seconds p)) (Fin 3600));
          size_penalty = f64_div (f64_of_u64 (pr_size_bytes p)) (Fin 1000)
      in f64_div (f64_mul (pr_fee_per_gas p) age_bonus) (f64_max size_penalty (Fin 1)))"

record MempoolConfig =
  cfg_max_size_bytes :: u64
  cfg_max_transactions :: u64
  cfg_min_fee_per_gas :: u64
  cfg_max_fee_per_gas :: u64
  cfg_eviction_interval_seconds :: u64
  cfg_eviction_threshold_ratio :: f64

definition default_config :: MempoolConfig where
  "default_config = \<lparr> cfg_max_size_bytes = 100 * 1024 * 1024, cfg_max_transactions = 10000,
     cfg_min_fee_per_gas = 1, cfg_max_fee_per_gas = 1000000, cfg_eviction_interval_seconds = 60,
     cfg_eviction_threshold_ratio = round64 (9 / 10) \<rparr>"

record MempoolEntry =
  en_transaction :: Transaction
  en_priority :: TransactionPriority
  en_added_timestamp :: u64
  en_last_seen_timestamp :: u64
  en_dependencies :: "Hash list"

definition is_expired :: "MempoolEntry \<Rightarrow> u64 \<Rightarrow> u64 \<Rightarrow> bool" where
  "is_expired e current_time max_age_seconds = (max_age_seconds < current_time - en_added_timestamp e)"

record MempoolStats =
  st_transaction_count :: u64
  st_total_size_bytes :: u64
  st_min_fee_per_gas :: u64
  st_max_fee_per_gas :: u64
  st_avg_fee_per_gas :: f64
  st_oldest_transaction_age :: u64

datatype mempool_event = Added Hash | Removed Hash

record MempoolImpl =
  mp_config :: MempoolConfig
  mp_transactions :: "(Hash \<times> MempoolEntry) list"
  mp_account_nonces :: "(Address \<times> (u64 \<times> Hash) list) list"
  mp_priority_queue :: "(f64 \<times> Hash) list"
  mp_on_added :: bool
  mp_on_removed :: bool
  mp_events :: "mempool_event list"

definition make_mempool :: "MempoolConfig \<Rightarrow> MempoolImpl" where
  "make_mempool config = \<lparr> mp_config = config, mp_transactions = [], mp_account_nonces = [],
     mp_priority_queue = [], mp_on_added = False, mp_on_removed = False, mp_events = [] \<rparr>"

definition mp_set_config :: "bool \<Rightarrow> bool \<Rightarrow> MempoolConfig \<Rightarrow> MempoolImpl \<Rightarrow> MempoolImpl outcome" where
  "mp_set_config relock held config s = lock_guard relock held (Done (s\<lparr>mp_config := config\<rparr>))"

definition mp_set_added_callback :: "bool \<Rightarrow> bool \<Rightarrow> bool \<Rightarrow> MempoolImpl \<Rightarrow> MempoolImpl outcome" where
  "mp_set_added_callback relock held callback s = lock_guard relock held (Done (s\<lparr>mp_on_added := callback\<rparr>))"

definition mp_set_removed_callback :: "bool \<Rightarrow> bool \<Rightarrow> bool \<Rightarrow> MempoolImpl \<Rightarrow> MempoolImpl outcome" where
  "mp_set_removed_callback relock held callback s = lock_guard relock held (Done (s\<lparr>mp_on_removed := callback\<rparr>))"

subsection \<open>Nonce index, priority queue and statistics\<close>

definition calculate_priority :: "u64 \<Rightarrow> Transaction \<Rightarrow> u64 \<Rightarrow> TransactionPriority" where
  "calculate_priority current_time tx added_time =
     \<lparr> pr_fee_per_gas = f64_of_u64 (tx_gas_price tx), pr_age_seconds = current_time - added_time,
       pr_size_bytes = of_nat (tx_size tx) \<rparr>"

definition update_account_nonce :: "Address \<Rightarrow> u64 \<Rightarrow> Hash \<Rightarrow> MempoolImpl \<Rightarrow> MempoolImpl" where
  "update_account_nonce a n h s =
     (let m = (case um_lookup (mp_account_nonces s) a of None \<Rightarrow> [] | Some m \<Rightarrow> m)
      in s\<lparr>mp_account_nonces := um_insert a (um_insert n h m) (mp_account_nonces s)\<rparr>)"

definition remove_account_nonce :: "Address \<Rightarrow> u64 \<Rightarrow> MempoolImpl \<Rightarrow> MempoolImpl" where
  "remove_account_nonce a n s =
     (case um_lookup (mp_account_nonces s) a of
        None \<Rightarrow> s
      | Some m \<Rightarrow>
          (let m' = um_erase n m
           in s\<lparr>mp_account_nonces :=
                (if m' = [] then um_erase a (mp_account_nonces s)
                 else um_insert a m' (mp_account_nonces s))\<rparr>))"

definition get_account_nonce :: "Address \<Rightarrow> MempoolImpl \<Rightarrow> u64 option" where
  "get_account_nonce a s =
     (case um_lookup (mp_account_nonces s) a of
        None \<Rightarrow> None
      | Some [] \<Rightarrow> None
      | Some (p # m) \<Rightarrow> Some (foldl (\<lambda>b q. if b < fst q then fst q else b) (fst p) m))"

definition rebuild_priority_queue :: "MempoolImpl \<Rightarrow> MempoolImpl" where
  "rebuild_priority_queue s =
     s\<lparr>mp_priority_queue :=
        pq_build (map (\<lambda>(h, e). (calculate_score (en_priority e), h)) (mp_transactions s))\<rparr>"

text \<open>One iteration of the loop of \<open>get_stats\<close>: totals so far and the youngest age.\<close>

definition stats_step ::
    "u64 \<Rightarrow> Hash \<times> MempoolEntry \<Rightarrow> MempoolStats \<times> u64 \<times> u64 \<Rightarrow> MempoolStats \<times> u64 \<times> u64" where
  "stats_step current_time he acc =
     (let e = snd he; tx = en_transaction e; price = tx_gas_price tx; (st, total_fee, min_age) = acc;
          st1 = st\<lparr>st_total_size_bytes := st_total_size_bytes st + of_nat (tx_size tx)\<rparr>;
          st2 = (if st_min_fee_per_gas st1 = 0 \<or> price < st_min_fee_per_gas st1
                 then st1\<lparr>st_min_fee_per_gas := price\<rparr> else st1);
          st3 = (if st_max_fee_per_gas st2 < price then st2\<lparr>st_max_fee_per_gas := price\<rparr> else st2)
      in (st3, total_fee + price, min min_age (current_time - en_added_timestamp e)))"

definition mp_get_stats :: "bool \<Rightarrow> bool \<Rightarrow> u64 \<Rightarrow> MempoolImpl \<Rightarrow> MempoolStats outcome" where
  "mp_get_stats relock held current_time s = lock_guard relock held (
     let st0 = \<lparr> st_transaction_count = of_nat (length (mp_transactions s)), st_total_size_bytes = 0,
                 st_min_fee_per_gas = 0, st_max_fee_per_gas = 0, st_avg_fee_per_gas = Fin 0,
                 st_oldest_transaction_age = 0 \<rparr>
     in if mp_transactions s = [] then Done st0
        else let (st, total_fee, min_age) = fold (stats_step current_time) (mp_transactions s) (st0, 0, - 1)
             in Done (st\<lparr>st_avg_fee_per_gas :=
                           f64_div (f64_of_u64 total_fee) (f64_of_u64 (of_nat (length (mp_transactions s)))),
                         st_oldest_transaction_age := min_age\<rparr>))"

definition is_pool_full :: "bool \<Rightarrow> u64 \<Rightarrow> MempoolImpl \<Rightarrow> bool outcome" where
  "is_pool_full relock current_time s =
     (if cfg_max_transactions (mp_config s) \<le> of_nat (length (mp_transactions s)) then Done True
      else outcome_bind (mp_get_stats relock True current_time s)
             (\<lambda>st. Done (cfg_max_size_bytes (mp_config s) \<le> st_total_size_bytes st)))"

subsection \<open>Validation\<close>

definition mp_validate_fee :: "MempoolImpl \<Rightarrow> Transaction \<Rightarrow> bool" where
  "mp_validate_fee s tx =
     (cfg_min_fee_per_gas (mp_config s) \<le> tx_gas_price tx \<and> tx_gas_price tx \<le> cfg_max_fee_per_gas (mp_config s))"

definition mp_validate_nonce :: "MempoolImpl \<Rightarrow> Transaction \<Rightarrow> bool" where
  "mp_validate_nonce s tx =
     (case get_account_nonce (tx_from tx) s of None \<Rightarrow> True | Some n \<Rightarrow> \<not> tx_nonce tx \<le> n)"

definition mp_validate_dependencies :: "MempoolImpl \<Rightarrow> Transaction \<Rightarrow> bool" where
  "mp_validate_dependencies s tx = True"

definition mp_validate_size :: "MempoolImpl \<Rightarrow> Transaction \<Rightarrow> bool" where
  "mp_validate_size s tx = (\<not> is_too_large tx)"

definition mp_validate_transaction :: "MempoolImpl \<Rightarrow> Transaction \<Rightarrow> bool" where
  "mp_validate_transaction s tx =
     (tx_is_valid tx \<and> mp_validate_fee s tx \<and> mp_validate_nonce s tx
      \<and> mp_validate_dependencies s tx \<and> mp_validate_size s tx)"

definition check_replacement_policy :: "Transaction \<Rightarrow> Transaction \<Rightarrow> MempoolError" where
  "check_replacement_policy old_tx new_tx =
     (if f64_less (f64_of_u64 (tx_gas_price new_tx))
                  (f64_mul (f64_of_u64 (tx_gas_price old_tx)) (round64 (11 / 10)))
      then REPLACE_UNDERPRICED else SUCCESS)"

subsection \<open>Removal and eviction\<close>

definition mp_remove_transaction ::
    "bool \<Rightarrow> bool \<Rightarrow> Hash \<Rightarrow> MempoolImpl \<Rightarrow> (MempoolError \<times> MempoolImpl) outcome" where
  "mp_remove_transaction relock held txh s = lock_guard relock held (
     case um_lookup (mp_transactions s) txh of
       None \<Rightarrow> Done (INVALID_TRANSACTION, s)
     | Some entry \<Rightarrow>
         (let tx = en_transaction entry;
              s1 = remove_account_nonce (tx_from tx) (tx_nonce tx) s;
              s2 = s1\<lparr>mp_transactions := um_erase txh (mp_transactions s1)\<rparr>;
              s3 = rebuild_priority_queue s2
          in Done (SUCCESS, if mp_on_removed s3 then s3\<lparr>mp_events := mp_events s3 @ [Removed txh]\<rparr> else s3)))"

fun remove_each :: "bool \<Rightarrow> Hash list \<Rightarrow> MempoolImpl \<Rightarrow> MempoolImpl outcome" where
  "remove_each relock [] s = Done s"
| "remove_each relock (h # hs) s =
     outcome_bind (mp_remove_transaction relock True h s) (\<lambda>(_, s'). remove_each relock hs s')"

definition evict_transactions_by_age :: "bool \<Rightarrow> u64 \<Rightarrow> u64 \<Rightarrow> MempoolImpl \<Rightarrow> MempoolImpl outcome" where
  "evict_transactions_by_age relock current_time max_age_seconds s =
     remove_each relock
       (map fst (filter (\<lambda>(h, e). is_expired e current_time max_age_seconds) (mp_transactions s))) s"

definition select_transactions_to_evict :: "u64 \<Rightarrow> MempoolImpl \<Rightarrow> Hash list" where
  "select_transactions_to_evict cnt s =
     (let candidates = sort (map (\<lambda>(h, e). (calculate_score (en_priority e), h)) (mp_transactions s))
      in map snd (take (min (unat cnt) (length candidates)) candidates))"

definition evict_transactions_by_fee :: "bool \<Rightarrow> u64 \<Rightarrow> MempoolImpl \<Rightarrow> MempoolImpl outcome" where
  "evict_transactions_by_fee relock cnt s = remove_each relock (select_transactions_to_evict cnt s) s"

definition mp_evict_expired_transactions :: "bool \<Rightarrow> bool \<Rightarrow> u64 \<Rightarrow> MempoolImpl \<Rightarrow> MempoolImpl outcome" where
  "mp_evict_expired_transactions relock held current_time s =
     lock_guard relock held (evict_transactions_by_age relock current_time 3600 s)"

definition mp_evict_low_fee_transactions :: "bool \<Rightarrow> bool \<Rightarrow> MempoolImpl \<Rightarrow> MempoolImpl outcome" where
  "mp_evict_low_fee_transactions relock held s = lock_guard relock held (
     let cnt = of_nat (length (mp_transactions s)); capacity = f64_of_u64 (cfg_max_transactions (mp_config s))
     in if f64_less (f64_of_u64 cnt) (f64_mul capacity (cfg_eviction_threshold_ratio (mp_config s)))
        then Done s
        else case f64_to_u64 (f64_mul capacity (round64 (8 / 10))) of
               None \<Rightarrow> Undefined_cast
             | Some target_count \<Rightarrow> evict_transactions_by_fee relock (cnt - target_count) s)"

definition mp_clear :: "bool \<Rightarrow> bool \<Rightarrow> MempoolImpl \<Rightarrow> MempoolImpl outcome" where
  "mp_clear relock held s = lock_guard relock held
     (Done (s\<lparr>mp_transactions := [], mp_account_nonces := [], mp_priority_queue := []\<rparr>))"

subsection \<open>Adding and replacing\<close>

definition make_entry :: "u64 \<Rightarrow> u64 \<Rightarrow> Transaction \<Rightarrow> MempoolEntry" where
  "make_entry current_time later tx =
     \<lparr> en_transaction = tx, en_priority = calculate_priority later tx current_time,
       en_added_timestamp = current_time, en_last_seen_timestamp = current_time, en_dependencies = [] \<rparr>"

definition mp_add_transaction ::
    "bool \<Rightarrow> bool \<Rightarrow> (nat \<Rightarrow> u64) \<Rightarrow> Transaction \<Rightarrow> MempoolImpl \<Rightarrow> (MempoolError \<times> MempoolImpl) outcome" where
  "mp_add_transaction relock held clk transaction s = lock_guard relock held (
     let (txh, tx) = tx_calculate_hash transaction in
     if um_lookup (mp_transactions s) txh \<noteq> None then Done (TRANSACTION_EXISTS, s)
     else if \<not> mp_validate_transaction s tx then Done (INVALID_TRANSACTION, s)
     else outcome_bind (is_pool_full relock (clk 0) s) (\<lambda>full.
       outcome_bind
         (if full
          then outcome_bind (mp_evict_low_fee_transactions relock True s) (\<lambda>s'.
                 outcome_bind (is_pool_full relock (clk 1) s') (\<lambda>still. Done (still, s')))
          else Done (False, s))
         (\<lambda>(still_full, s').
            if still_full then Done (POOL_FULL, s')
            else
              let entry = make_entry (clk 2) (clk 3) tx;
                  s1 = update_account_nonce (tx_from tx) (tx_nonce tx) txh s';
                  s2 = s1\<lparr>mp_transactions := um_insert txh entry (mp_transactions s1)\<rparr>;
                  s3 = s2\<lparr>mp_priority_queue :=
                         pq_push (calculate_score (en_priority entry), txh) (mp_priority_queue s2)\<rparr>
              in Done (SUCCESS,
                   if mp_on_added s3 then s3\<lparr>mp_events := mp_events s3 @ [Added txh]\<rparr> else s3))))"

definition mp_get_transaction :: "bool \<Rightarrow> bool \<Rightarrow> Hash \<Rightarrow> MempoolImpl \<Rightarrow> Transaction option outcome" where
  "mp_get_transaction relock held txh s = lock_guard relock held
     (Done (map_option en_transaction (um_lookup (mp_transactions s) txh)))"

definition mp_replace_transaction ::
    "bool \<Rightarrow> bool \<Rightarrow> (nat \<Rightarrow> u64) \<Rightarrow> Transaction \<Rightarrow> MempoolImpl \<Rightarrow> (MempoolError \<times> MempoolImpl) outcome" where
  "mp_replace_transaction relock held clk new_transaction s = lock_guard relock held (
     let (new_hash, new_tx) = tx_calculate_hash new_transaction in
     case um_lookup (mp_account_nonces s) (tx_from new_tx) of
       None \<Rightarrow> Done (INVALID_TRANSACTION, s)
     | Some nonces \<Rightarrow> (case um_lookup nonces (tx_nonce new_tx) of
         None \<Rightarrow> Done (INVALID_TRANSACTION, s)
       | Some old_txh \<Rightarrow> (case um_lookup (mp_transactions s) old_txh of
           None \<Rightarrow> Done (INVALID_TRANSACTION, s)
         | Some old_entry \<Rightarrow>
             (let old_tx = en_transaction old_entry; policy = check_replacement_policy old_tx new_tx in
              if policy \<noteq> SUCCESS then Done (policy, s)
              else
                let s1 = remove_account_nonce (tx_from old_tx) (tx_nonce old_tx) s;
                    s2 = s1\<lparr>mp_transactions := um_erase old_txh (mp_transactions s1)\<rparr>
                in if \<not> mp_validate_transaction s2 new_tx then Done (INVALID_TRANSACTION, s2)
                   else
                     let entry = make_entry (clk 0) (clk 1) new_tx;
                         s3 = update_account_nonce (tx_from new_tx) (tx_nonce new_tx) new_hash s2;
                         s4 = s3\<lparr>mp_transactions := um_insert new_hash entry (mp_transactions s3)\<rparr>
                     in Done (SUCCESS, rebuild_priority_queue s4)))))"

subsection \<open>Selection\<close>

text \<open>The two loops pop a copy of the queue; the head of the list is \<open>top()\<close>.\<close>

fun top_loop :: "(Hash \<times> MempoolEntry) list \<Rightarrow> (f64 \<times> Hash) list \<Rightarrow> nat \<Rightarrow> Transaction list" where
  "top_loop txs [] cnt = []"
| "top_loop txs (p # queue) cnt =
     (if cnt = 0 then []
      else case um_lookup txs (snd p) of
             None \<Rightarrow> top_loop txs queue cnt
           | Some e \<Rightarrow> en_transaction e # top_loop txs queue (cnt - 1))"

definition mp_get_top_transactions :: "bool \<Rightarrow> bool \<Rightarrow> nat \<Rightarrow> MempoolImpl \<Rightarrow> Transaction list outcome" where
  "mp_get_top_transactions relock held cnt s = lock_guard relock held
     (Done (top_loop (mp_transactions s) (mp_priority_queue s) cnt))"

fun block_loop ::
    "(Hash \<times> MempoolEntry) list \<Rightarrow> (f64 \<times> Hash) list \<Rightarrow> nat \<Rightarrow> u64 \<Rightarrow> u64 \<Rightarrow> Transaction list" where
  "block_loop txs [] max_count max_gas_limit total_gas = []"
| "block_loop txs (p # queue) max_count max_gas_limit total_gas =
     (if max_count = 0 then []
      else case um_lookup txs (snd p) of
             None \<Rightarrow> block_loop txs queue max_count max_gas_limit total_gas
           | Some e \<Rightarrow>
               (let tx = en_transaction e in
                if total_gas + tx_gas_limit tx \<le> max_gas_limit
                then tx # block_loop txs queue (max_count - 1) max_gas_limit (total_gas + tx_gas_limit tx)
                else block_loop txs queue max_count max_gas_limit total_gas))"

definition mp_get_transactions_for_block ::
    "bool \<Rightarrow> bool \<Rightarrow> nat \<Rightarrow> u64 \<Rightarrow> MempoolImpl \<Rightarrow> Transaction list outcome" where
  "mp_get_transactions_for_block relock held max_count max_gas_limit s = lock_guard relock held
     (Done (block_loop (mp_transactions s) (mp_priority_queue s) max_count max_gas_limit 0))"

datatype SelectionStrategy = HIGHEST_FEE_FIRST | OLDEST_FIRST | PRIORITY_SCORE

definition select_transactions_for_block ::
    "bool \<Rightarrow> MempoolImpl \<Rightarrow> SelectionStrategy \<Rightarrow> nat \<Rightarrow> u64 \<Rightarrow> Transaction list outcome" where
  "select_transactions_for_block relock s strategy max_count max_gas_limit =
     (case strategy of
        HIGHEST_FEE_FIRST \<Rightarrow> mp_get_transactions_for_block relock False max_count max_gas_limit s
      | PRIORITY_SCORE \<Rightarrow> mp_get_transactions_for_block relock False max_count max_gas_limit s
      | OLDEST_FIRST \<Rightarrow> mp_get_transactions_for_block relock False max_count max_gas_limit s)"

fun mempool_error_to_string :: "MempoolError \<Rightarrow> string" where
  "mempool_error_to_string SUCCESS = ''Success''"
| "mempool_error_to_string TRANSACTION_EXISTS = ''Transaction already exists''"
| "mempool_error_to_string INVALID_TRANSACTION = ''Invalid transaction''"
| "mempool_error_to_string INSUFFICIENT_FEE = ''Insufficient fee''"
| "mempool_error_to_string POOL_FULL = ''Pool is full''"
| "mempool_error_to_string NONCE_TOO_LOW = ''Nonce too low''"
| "mempool_error_to_string NONCE_TOO_HIGH = ''Nonce too high''"
| "mempool_error_to_string REPLACE_UNDERPRICED = ''Replacement underpriced''"
| "mempool_error_to_string DEPENDENCY_MISSING = ''Dependency missing''"

end
