(* ===== verification/Mempool_Laws.thy ===== *)
theory Mempool_Laws
  imports Mempool "HOL-Library.Sublist"
begin

text \<open>
  Properties of the transaction pool: self-locking under \<open>std::shared_mutex\<close>, the pool invariant
  (hash table, nonce index and priority queue agree), what adding and evicting do to the pool, the
  replacement threshold, and the statistics.
\<close>

subsection \<open>Locking\<close>

lemma is_pool_full_self_lock:
  "is_pool_full False t s = (if cfg_max_transactions (mp_config s) \<le> of_nat (length (mp_transactions s))
     then Done True else Self_lock)"
  by (simp add: is_pool_full_def mp_get_stats_def)

lemma add_transaction_outcome:
  "mp_add_transaction False False clk tx s =
     (if um_lookup (mp_transactions s) (tx_hash tx) \<noteq> None then Done (TRANSACTION_EXISTS, s)
      else if \<not> mp_validate_transaction s (snd (tx_calculate_hash tx)) then Done (INVALID_TRANSACTION, s)
      else Self_lock)"
  by (auto simp: mp_add_transaction_def is_pool_full_self_lock mp_evict_low_fee_transactions_def
      Let_def split: prod.splits)

text \<open>
  C38. With \<open>std::shared_mutex\<close>, \<open>add_transaction\<close> never adds anything. A call that returns has
  rejected the transaction as known or invalid and left the pool as it was; every other call locks
  the mutex it holds again, in \<open>get_stats\<close> or in \<open>evict_low_fee_transactions\<close>.
\<close>

theorem add_transaction_self_locks:
  "mp_add_transaction False False clk tx s =
     (if um_lookup (mp_transactions s) (tx_hash tx) \<noteq> None then Done (TRANSACTION_EXISTS, s)
      else if \<not> mp_validate_transaction s (snd (tx_calculate_hash tx)) then Done (INVALID_TRANSACTION, s)
      else Self_lock)"
  by (rule add_transaction_outcome)

text \<open>Removing an expired transaction has the same defect; an explicit removal has not.\<close>

lemma evict_expired_self_locks:
  assumes "(h, e) \<in> set (mp_transactions s)" and "is_expired e now 3600"
  shows "mp_evict_expired_transactions False False now s = Self_lock"
proof -
  have "map fst (filter (\<lambda>(h, e). is_expired e now 3600) (mp_transactions s)) \<noteq> []"
    using assms by (auto simp: filter_empty_conv)
  then obtain k ks where "map fst (filter (\<lambda>(h, e). is_expired e now 3600) (mp_transactions s)) = k # ks"
    by (cases "map fst (filter (\<lambda>(h, e). is_expired e now 3600) (mp_transactions s))") auto
  then show ?thesis
    by (simp add: mp_evict_expired_transactions_def evict_transactions_by_age_def
        mp_remove_transaction_def)
qed

subsection \<open>The nonce index\<close>

definition nonce_wf :: "MempoolImpl \<Rightarrow> bool" where
  "nonce_wf s \<longleftrightarrow> distinct_keys (mp_account_nonces s)
     \<and> (\<forall>a m. um_lookup (mp_account_nonces s) a = Some m \<longrightarrow> distinct_keys m \<and> m \<noteq> [])"

definition nonce_index :: "MempoolImpl \<Rightarrow> Address \<Rightarrow> u64 \<Rightarrow> Hash option" where
  "nonce_index s a n = (case um_lookup (mp_account_nonces s) a of None \<Rightarrow> None | Some m \<Rightarrow> um_lookup m n)"

lemma update_account_nonce_wf: "nonce_wf s \<Longrightarrow> nonce_wf (update_account_nonce a n h s)"
  by (auto simp: nonce_wf_def update_account_nonce_def Let_def um.lookup_insert um.invar_insert
      split: option.splits if_splits) (simp_all add: um_defs)

lemma nonce_index_update:
  "nonce_wf s \<Longrightarrow> nonce_index (update_account_nonce a n h s) b k =
     (if b = a \<and> k = n then Some h else nonce_index s b k)"
  by (auto simp: nonce_wf_def nonce_index_def update_account_nonce_def Let_def um.lookup_insert
      um.lookup_empty split: option.splits)

lemma remove_account_nonce_wf: "nonce_wf s \<Longrightarrow> nonce_wf (remove_account_nonce a n s)"
  by (auto simp: nonce_wf_def remove_account_nonce_def Let_def um.lookup_insert um.lookup_erase
      um.invar_insert um.invar_erase split: option.splits if_splits)

lemma nonce_index_remove:
  assumes "nonce_wf s"
  shows "nonce_index (remove_account_nonce a n s) b k =
     (if b = a \<and> k = n then None else nonce_index s b k)"
proof (cases "um_lookup (mp_account_nonces s) a")
  case None
  then show ?thesis by (auto simp: nonce_index_def remove_account_nonce_def)
next
  case (Some m)
  have d: "distinct_keys (mp_account_nonces s)" "distinct_keys m"
    using assms Some by (auto simp: nonce_wf_def)
  have "um_lookup m k = None" if "um_erase n m = []" "k \<noteq> n"
    using um.lookup_erase [OF d(2), of n k] that by (simp add: um.lookup_empty)
  then show ?thesis using Some d
    by (auto simp: nonce_index_def remove_account_nonce_def Let_def um.lookup_insert um.lookup_erase)
qed

lemma foldl_max_ge:
  fixes b :: u64
  shows "b \<le> foldl (\<lambda>b q. if b < fst q then fst q else b) b m
    \<and> (\<forall>q \<in> set m. fst q \<le> foldl (\<lambda>b q. if b < fst q then fst q else b) b m)"
proof (induction m arbitrary: b)
  case (Cons q m)
  let ?c = "if b < fst q then fst q else b"
  have "b \<le> ?c" "fst q \<le> ?c" by auto
  then show ?case using Cons.IH [of ?c] by (auto intro: order_trans)
qed simp

lemma get_account_nonce_greatest:
  assumes "nonce_wf s" and "nonce_index s a k = Some h"
  shows "\<exists>n. get_account_nonce a s = Some n \<and> k \<le> n"
proof -
  obtain m where m: "um_lookup (mp_account_nonces s) a = Some m" "um_lookup m k = Some h"
    using assms(2) by (auto simp: nonce_index_def split: option.splits)
  have "(k, h) \<in> set m" using m(2) by (auto simp: um_lookup_def dest: map_of_SomeD)
  moreover obtain p ps where p: "m = p # ps" using calculation by (cases m) auto
  ultimately show ?thesis
    using m(1) foldl_max_ge [of "fst p" ps] by (force simp: get_account_nonce_def)
qed

subsection \<open>The pool invariant\<close>

definition queue_entries :: "(Hash \<times> MempoolEntry) list \<Rightarrow> (f64 \<times> Hash) list" where
  "queue_entries txs = map (\<lambda>(h, e). (calculate_score (en_priority e), h)) txs"

definition entry_at :: "MempoolImpl \<Rightarrow> Address \<Rightarrow> u64 \<Rightarrow> Hash \<Rightarrow> bool" where
  "entry_at s a n h \<longleftrightarrow> (\<exists>e. um_lookup (mp_transactions s) h = Some e
     \<and> tx_from (en_transaction e) = a \<and> tx_nonce (en_transaction e) = n)"

text \<open>
  Keys are distinct and are the hashes of the stored transactions; the nonce index maps a sender and
  a nonce to exactly the pooled transaction that has them; the queue holds exactly the scores of the
  pooled transactions.
\<close>

definition pool_inv :: "MempoolImpl \<Rightarrow> bool" where
  "pool_inv s \<longleftrightarrow> distinct_keys (mp_transactions s) \<and> nonce_wf s
     \<and> (\<forall>h e. um_lookup (mp_transactions s) h = Some e \<longrightarrow> tx_hash (en_transaction e) = h)
     \<and> (\<forall>a n h. nonce_index s a n = Some h \<longleftrightarrow> entry_at s a n h)
     \<and> mp_priority_queue s = pq_build (queue_entries (mp_transactions s))"

lemma pool_invD:
  assumes "pool_inv s"
  shows "distinct_keys (mp_transactions s)" "nonce_wf s"
    "um_lookup (mp_transactions s) h = Some e \<Longrightarrow> tx_hash (en_transaction e) = h"
    "nonce_index s a n = Some h \<longleftrightarrow> entry_at s a n h"
    "mp_priority_queue s = pq_build (queue_entries (mp_transactions s))"
  using assms by (simp_all add: pool_inv_def)

lemma account_nonce_frame [simp]:
  "mp_transactions (remove_account_nonce a n s) = mp_transactions s"
  "mp_config (remove_account_nonce a n s) = mp_config s"
  "mp_on_removed (remove_account_nonce a n s) = mp_on_removed s"
  "mp_priority_queue (remove_account_nonce a n s) = mp_priority_queue s"
  "mp_transactions (update_account_nonce a n h s) = mp_transactions s"
  "mp_config (update_account_nonce a n h s) = mp_config s"
  "mp_on_added (update_account_nonce a n h s) = mp_on_added s"
  "mp_priority_queue (update_account_nonce a n h s) = mp_priority_queue s"
  by (simp_all add: remove_account_nonce_def update_account_nonce_def Let_def split: option.splits)

lemma rebuild_frame [simp]:
  "mp_transactions (rebuild_priority_queue s) = mp_transactions s"
  "mp_account_nonces (rebuild_priority_queue s) = mp_account_nonces s"
  "mp_config (rebuild_priority_queue s) = mp_config s"
  "mp_priority_queue (rebuild_priority_queue s) = pq_build (queue_entries (mp_transactions s))"
  by (simp_all add: rebuild_priority_queue_def queue_entries_def)

lemma nonce_frame:
  "mp_account_nonces s = mp_account_nonces t \<Longrightarrow> nonce_wf s = nonce_wf t"
  "mp_account_nonces s = mp_account_nonces t \<Longrightarrow> nonce_index s = nonce_index t"
  by (simp_all add: nonce_wf_def nonce_index_def fun_eq_iff)

text \<open>The invariant reads three fields only.\<close>

lemma pool_invI:
  assumes "distinct_keys (mp_transactions s)" "nonce_wf t" "mp_account_nonces s = mp_account_nonces t"
    and "\<And>h e. um_lookup (mp_transactions s) h = Some e \<Longrightarrow> tx_hash (en_transaction e) = h"
    and "\<And>a n h. nonce_index t a n = Some h \<longleftrightarrow> entry_at s a n h"
    and "mp_priority_queue s = pq_build (queue_entries (mp_transactions s))"
  shows "pool_inv s"
  using assms nonce_frame [OF assms(3)] by (auto simp: pool_inv_def)

lemma pool_inv_frame:
  "pool_inv s \<Longrightarrow> mp_transactions t = mp_transactions s \<Longrightarrow> mp_account_nonces t = mp_account_nonces s \<Longrightarrow>
   mp_priority_queue t = mp_priority_queue s \<Longrightarrow> pool_inv t"
  using nonce_frame [of t s] by (auto simp: pool_inv_def entry_at_def)

lemma pool_inv_make [simp]: "pool_inv (make_mempool config)"
  by (simp add: pool_inv_def make_mempool_def nonce_wf_def nonce_index_def entry_at_def um.lookup_empty
      queue_entries_def pq_build_def)

lemma mp_remove_inv:
  assumes inv: "pool_inv s"
  shows "\<exists>r s'. mp_remove_transaction True held h s = Done (r, s') \<and> pool_inv s'
    \<and> mp_transactions s' = um_erase h (mp_transactions s) \<and> mp_config s' = mp_config s"
proof (cases "um_lookup (mp_transactions s) h")
  case None
  then have "um_erase h (mp_transactions s) = mp_transactions s"
    by (auto simp: um_erase_filter um_lookup_None filter_id_conv image_iff)
  then show ?thesis using inv None by (auto simp: mp_remove_transaction_def)
next
  case (Some e)
  let ?a = "tx_from (en_transaction e)" and ?n = "tx_nonce (en_transaction e)"
  let ?r = "remove_account_nonce ?a ?n s"
  let ?s = "rebuild_priority_queue (?r\<lparr>mp_transactions := um_erase h (mp_transactions s)\<rparr>)"
  have d: "distinct_keys (mp_transactions s)" and wf: "nonce_wf s"
    and idx: "\<And>a n h. nonce_index s a n = Some h \<longleftrightarrow> entry_at s a n h"
    using inv by (auto simp: pool_inv_def)
  have own: "nonce_index s ?a ?n = Some h" using idx Some by (auto simp: entry_at_def)
  have "pool_inv ?s"
  proof (rule pool_invI [where t = ?r])
    show "distinct_keys (mp_transactions ?s)" using d by (simp add: um.invar_erase)
    show "nonce_wf ?r" using wf by (rule remove_account_nonce_wf)
    show "tx_hash (en_transaction x) = k" if "um_lookup (mp_transactions ?s) k = Some x" for k x
      using that inv d by (auto simp: pool_inv_def um.lookup_erase split: if_splits)
    show "nonce_index ?r a n = Some k \<longleftrightarrow> entry_at ?s a n k" for a n k
      using idx [of a n k] own Some d
      by (auto simp: nonce_index_remove [OF wf] entry_at_def um.lookup_erase)
  qed simp_all
  then show ?thesis using Some
    by (auto simp: mp_remove_transaction_def Let_def intro: pool_inv_frame)
qed

lemma remove_each_inv:
  "pool_inv s \<Longrightarrow> \<exists>s'. remove_each True hs s = Done s' \<and> pool_inv s'
     \<and> mp_transactions s' = fold um_erase hs (mp_transactions s) \<and> mp_config s' = mp_config s"
proof (induction hs arbitrary: s)
  case (Cons h hs)
  obtain r s1 where "mp_remove_transaction True True h s = Done (r, s1)" "pool_inv s1"
    "mp_transactions s1 = um_erase h (mp_transactions s)" "mp_config s1 = mp_config s"
    using mp_remove_inv [OF Cons.prems] by blast
  then show ?case using Cons.IH [of s1] by auto
qed simp

lemma mp_insert_inv:
  assumes inv: "pool_inv s" and new: "um_lookup (mp_transactions s) (tx_hash tx) = None"
    and free: "nonce_index s (tx_from tx) (tx_nonce tx) = None"
    and e: "en_transaction e = tx"
    and t: "mp_transactions t = um_insert (tx_hash tx) e (mp_transactions s)"
      "mp_account_nonces t = mp_account_nonces (update_account_nonce (tx_from tx) (tx_nonce tx) (tx_hash tx) s)"
      "mp_priority_queue t = pq_build (queue_entries (mp_transactions t))"
  shows "pool_inv t"
proof -
  let ?u = "update_account_nonce (tx_from tx) (tx_nonce tx) (tx_hash tx) s"
  have d: "distinct_keys (mp_transactions s)" and wf: "nonce_wf s"
    and idx: "\<And>a n h. nonce_index s a n = Some h \<longleftrightarrow> entry_at s a n h"
    using inv by (auto simp: pool_inv_def)
  show ?thesis
  proof (rule pool_invI [where t = ?u])
    show "distinct_keys (mp_transactions t)" using d by (simp add: t um.invar_insert)
    show "nonce_wf ?u" using wf by (rule update_account_nonce_wf)
    show "tx_hash (en_transaction x) = k" if "um_lookup (mp_transactions t) k = Some x" for k x
      using that inv d e by (auto simp: pool_inv_def t um.lookup_insert split: if_splits)
    show "nonce_index ?u a n = Some k \<longleftrightarrow> entry_at t a n k" for a n k
      using idx [of a n k] d e new free
      by (auto simp: nonce_index_update [OF wf] entry_at_def um.lookup_insert t)
  qed (simp_all add: t)
qed

subsection \<open>Every operation returns and keeps the invariant\<close>

lemma f64_of_u64_Fin: "f64_of_u64 w = Fin (fl (of_nat (unat w)))"
proof -
  have "(of_nat (unat w) :: rat) \<le> of_nat (2 ^ 64)"
    using unsigned_less [of w, where ?'a = nat] by (simp only: of_nat_le_iff) simp
  also have "\<dots> = 2 ^ 64" by simp
  also have "\<dots> \<le> 2 ^ 1000" by (rule power_increasing) simp_all
  finally have "(of_nat (unat w) :: rat) \<le> 2 ^ 1000" .
  moreover have "(of_nat (unat w) :: rat) = 0 \<or> 2 powi (- 1022) \<le> (of_nat (unat w) :: rat)"
    using small_range [of "of_nat (unat w)"] by (cases "unat w") auto
  ultimately show ?thesis unfolding f64_of_u64_def by (intro round64_Fin)
qed

lemma four_fifths: "round64 (8 / 10) = Fin (3602879701896397 / 4503599627370496)"
proof -
  have "fl (8 / 10) = 3602879701896397 / 4503599627370496"
    using fl_evalI [of "- 1" "8 / 10" 7205759403792794] by (simp add: power_int_minus)
  moreover have "(2::rat) powi (- 1022) \<le> 8 / 10"
  proof -
    have "(2::rat) powi (- 1022) \<le> 2 powi (- 1)" by (rule power_int_increasing) simp_all
    also have "\<dots> \<le> 8 / 10" by (simp add: power_int_minus)
    finally show ?thesis .
  qed
  moreover have "8 / 10 \<le> (2::rat) ^ 1000" by (rule order_trans [of _ 1]) simp_all
  ultimately show ?thesis using round64_Fin [of "8 / 10"] by simp
qed

text \<open>Four fifths of any capacity fit into a \<open>size_t\<close>.\<close>

lemma capacity_cast_defined: "\<exists>t. f64_to_u64 (f64_mul (f64_of_u64 w) (round64 (8 / 10))) = Some t"
proof (cases "w = 0")
  case True
  moreover have "round64 0 = Fin 0" using round64_Fin [of 0] by simp
  ultimately show ?thesis unfolding f64_of_u64_Fin four_fifths by simp
next
  case False
  let ?x = "fl (of_nat (unat w))" and ?c = "3602879701896397 / 4503599627370496 :: rat"
  have "1 \<le> unat w" using False by (simp add: Suc_le_eq unat_gt_0)
  then have w: "1 \<le> (of_nat (unat w) :: rat)" by (metis of_nat_1 of_nat_mono)
  have w2: "(of_nat (unat w) :: rat) \<le> 18446744073709551616"
    using unsigned_less [of w, where ?'a = nat] of_nat_le_iff [of "unat w" 18446744073709551616, where ?'a = rat]
    by simp
  have eps: "(2::rat) powi (- 53) \<le> 1 / 100" by (simp add: power_int_minus)
  have "\<bar>?x - of_nat (unat w)\<bar> \<le> of_nat (unat w) * 2 powi (- 53)"
    using w by (intro fl_relative_error small_range)
  also have "\<dots> \<le> of_nat (unat w) * (1 / 100)" using w eps by (intro mult_left_mono) auto
  finally have x: "of_nat (unat w) * (99 / 100) \<le> ?x" "?x \<le> of_nat (unat w) * (101 / 100)" by linarith+
  have lo: "1 / 2 \<le> ?x * ?c" using x(1) w by linarith
  have xc: "2 powi (- 1022) \<le> ?x * ?c"
  proof -
    have "(2::rat) powi (- 1022) \<le> 2 powi (- 1)" by (rule power_int_increasing) simp_all
    also have "\<dots> = 1 / 2" by (simp add: power_int_minus)
    finally show ?thesis using lo by (rule order_trans)
  qed
  have hi: "?x * ?c \<le> 15000000000000000000" using x(2) w2 by linarith
  have "?x * ?c \<le> 2 ^ 1000"
    by (rule order_trans [OF hi], rule order_trans [of _ "2 ^ 64"]) (simp, rule power_increasing, simp_all)
  then have r: "round64 (?x * ?c) = Fin (fl (?x * ?c))" using xc by (intro round64_Fin) auto
  have "\<bar>fl (?x * ?c) - ?x * ?c\<bar> \<le> ?x * ?c * 2 powi (- 53)" using xc by (rule fl_relative_error)
  also have "\<dots> \<le> ?x * ?c * (1 / 100)" using lo eps by (intro mult_left_mono) auto
  finally have "0 \<le> fl (?x * ?c)" "fl (?x * ?c) < 18446744073709551616" using lo hi by linarith+
  then show ?thesis
    unfolding f64_of_u64_Fin four_fifths f64_mul.simps r by (simp add: floor_less_iff)
qed

lemma evict_low_fee_inv:
  assumes "pool_inv s"
  shows "\<exists>s' hs. mp_evict_low_fee_transactions True held s = Done s' \<and> pool_inv s'
    \<and> mp_transactions s' = fold um_erase hs (mp_transactions s) \<and> mp_config s' = mp_config s"
proof -
  obtain t where "f64_to_u64 (f64_mul (f64_of_u64 (cfg_max_transactions (mp_config s))) (round64 (8 / 10))) = Some t"
    using capacity_cast_defined by blast
  then show ?thesis
    using remove_each_inv [OF assms] assms
    by (simp add: mp_evict_low_fee_transactions_def Let_def evict_transactions_by_fee_def)
      (metis fold_simps(1))
qed

text \<open>What \<open>is_pool_full\<close> tests: the number of transactions, or their sizes added up in 64 bits.\<close>

definition pool_full :: "MempoolImpl \<Rightarrow> bool" where
  "pool_full s \<longleftrightarrow> cfg_max_transactions (mp_config s) \<le> of_nat (length (mp_transactions s))
     \<or> cfg_max_size_bytes (mp_config s) \<le> (\<Sum>p\<leftarrow>mp_transactions s. of_nat (tx_size (en_transaction (snd p))))"

lemma stats_total_size:
  "st_total_size_bytes (fst (fold (stats_step now) m (st, fees, age)))
     = st_total_size_bytes st + (\<Sum>p\<leftarrow>m. of_nat (tx_size (en_transaction (snd p))))"
proof (induction m arbitrary: st fees age)
  case (Cons p m)
  obtain st1 fee1 age1 where 1: "stats_step now p (st, fees, age) = (st1, fee1, age1)"
    by (cases "stats_step now p (st, fees, age)") auto
  then have "st_total_size_bytes st1 = st_total_size_bytes st + of_nat (tx_size (en_transaction (snd p)))"
    by (auto simp: stats_step_def Let_def split: if_splits)
  then show ?case using Cons.IH [of st1 fee1 age1] 1 by (simp add: add.assoc)
qed simp

lemma is_pool_full_iff: "is_pool_full True t s = Done (pool_full s)"
  using stats_total_size [of t "mp_transactions s"]
  by (auto simp: is_pool_full_def mp_get_stats_def Let_def pool_full_def split_beta)

lemma not_full_room: "\<not> pool_full s \<Longrightarrow> of_nat (length (mp_transactions s)) < cfg_max_transactions (mp_config s)"
  by (simp add: pool_full_def not_le)

lemma fold_erase_lookup:
  "distinct_keys m \<Longrightarrow> um_lookup (fold um_erase hs m) k = Some e \<Longrightarrow> um_lookup m k = Some e"
  using um.lookup_fold_erase [of m hs k] by (auto split: if_splits)

lemma fold_erase_length: "length (fold um_erase hs m) \<le> length m"
proof (induction hs arbitrary: m)
  case (Cons h hs)
  show ?case using Cons.IH [of "um_erase h m"] length_filter_le [of _ m]
    by (auto simp: um_erase_filter intro: order_trans)
qed simp

lemma validated_nonce_free:
  assumes "pool_inv s" and "mp_validate_transaction s tx"
  shows "nonce_index s (tx_from tx) (tx_nonce tx) = None"
proof (rule ccontr)
  assume "nonce_index s (tx_from tx) (tx_nonce tx) \<noteq> None"
  then obtain h where "nonce_index s (tx_from tx) (tx_nonce tx) = Some h" by blast
  then obtain n where "get_account_nonce (tx_from tx) s = Some n" "tx_nonce tx \<le> n"
    using get_account_nonce_greatest [OF pool_invD(2) [OF assms(1)]] by blast
  then show False using assms(2) by (simp add: mp_validate_transaction_def mp_validate_nonce_def)
qed

lemma nonce_free_shrunk:
  assumes "pool_inv s" "pool_inv t" and "mp_transactions t = fold um_erase hs (mp_transactions s)"
    and "nonce_index s a n = None"
  shows "nonce_index t a n = None"
proof (rule ccontr)
  assume "nonce_index t a n \<noteq> None"
  then obtain h where "nonce_index t a n = Some h" by blast
  then have "entry_at t a n h" using pool_invD(4) [OF assms(2)] by blast
  then have "entry_at s a n h"
    using fold_erase_lookup [OF pool_invD(1) [OF assms(1)]] by (auto simp: entry_at_def assms(3))
  then show False using pool_invD(4) [OF assms(1)] assms(4) by (metis option.distinct(1))
qed


lemma pq_build_snoc: "pq_build (xs @ [x]) = pq_push x (pq_build xs)"
  by (simp add: pq_build_def)

definition entry_of :: "(nat \<Rightarrow> u64) \<Rightarrow> Transaction \<Rightarrow> MempoolEntry" where
  "entry_of clk tx = make_entry (clk 2) (clk 3) (snd (tx_calculate_hash tx))"

lemma snd_tx_calculate_hash [simp]:
  "tx_from (snd (tx_calculate_hash tx)) = tx_from tx"
  "tx_nonce (snd (tx_calculate_hash tx)) = tx_nonce tx"
  "tx_hash (snd (tx_calculate_hash tx)) = tx_hash tx"
  by (simp_all add: tx_from_def tx_nonce_def tx_calculate_hash_keeps)

text \<open>The last part of \<open>add_transaction\<close>, on a pool that does not know the hash and the nonce.\<close>

lemma mp_add_tail_inv:
  assumes inv: "pool_inv s" and new: "um_lookup (mp_transactions s) (tx_hash tx) = None"
    and free: "nonce_index s (tx_from tx) (tx_nonce tx) = None"
    and t: "mp_transactions t = um_insert (tx_hash tx) (entry_of clk tx) (mp_transactions s)"
      "mp_account_nonces t = mp_account_nonces (update_account_nonce (tx_from tx) (tx_nonce tx) (tx_hash tx) s)"
      "mp_priority_queue t =
        pq_push (calculate_score (en_priority (entry_of clk tx)), tx_hash tx) (mp_priority_queue s)"
  shows "pool_inv t"
proof (rule mp_insert_inv [OF inv, of "snd (tx_calculate_hash tx)" "entry_of clk tx"])
  show "mp_priority_queue t = pq_build (queue_entries (mp_transactions t))"
    using pool_invD(5) [OF inv] new by (simp add: t um_insert_new queue_entries_def pq_build_snoc)
qed (use new free t in \<open>simp_all add: entry_of_def make_entry_def\<close>)

text \<open>The pool after the last part of \<open>add_transaction\<close>.\<close>

definition pool_added :: "(nat \<Rightarrow> u64) \<Rightarrow> Transaction \<Rightarrow> MempoolImpl \<Rightarrow> MempoolImpl" where
  "pool_added clk tx s =
     (let t = (update_account_nonce (tx_from tx) (tx_nonce tx) (tx_hash tx) s)\<lparr>
            mp_transactions := um_insert (tx_hash tx) (entry_of clk tx) (mp_transactions s),
            mp_priority_queue := pq_push (calculate_score (en_priority (entry_of clk tx)), tx_hash tx) (mp_priority_queue s)\<rparr>
      in if mp_on_added t then t\<lparr>mp_events := mp_events t @ [Added (tx_hash tx)]\<rparr> else t)"

lemma pool_added_fields [simp]:
  "mp_transactions (pool_added clk tx s) = um_insert (tx_hash tx) (entry_of clk tx) (mp_transactions s)"
  "mp_account_nonces (pool_added clk tx s) = mp_account_nonces (update_account_nonce (tx_from tx) (tx_nonce tx) (tx_hash tx) s)"
  "mp_priority_queue (pool_added clk tx s)
     = pq_push (calculate_score (en_priority (entry_of clk tx)), tx_hash tx) (mp_priority_queue s)"
  "mp_config (pool_added clk tx s) = mp_config s"
  by (simp_all add: pool_added_def Let_def)

abbreviation tx_accepted :: "MempoolImpl \<Rightarrow> Transaction \<Rightarrow> bool" where
  "tx_accepted s tx \<equiv> mp_validate_transaction s (snd (tx_calculate_hash tx))"

lemma mp_add_eq:
  "mp_add_transaction True held clk tx s =
     (if um_lookup (mp_transactions s) (tx_hash tx) \<noteq> None then Done (TRANSACTION_EXISTS, s)
      else if \<not> tx_accepted s tx then Done (INVALID_TRANSACTION, s)
      else outcome_bind (if pool_full s then mp_evict_low_fee_transactions True True s else Done s)
             (\<lambda>s1. if pool_full s \<and> pool_full s1 then Done (POOL_FULL, s1) else Done (SUCCESS, pool_added clk tx s1)))"
proof (cases "mp_evict_low_fee_transactions True True s")
  case (Done s1)
  then show ?thesis
    by (simp add: mp_add_transaction_def split_beta Let_def is_pool_full_iff pool_added_def entry_of_def)
qed (simp_all add: mp_add_transaction_def split_beta Let_def is_pool_full_iff pool_added_def entry_of_def)

text \<open>A call that returns although the mutex may not be acquired again does what it does with any mutex.\<close>

lemma remove_any_mutex: "mp_remove_transaction relock held h s = Done x \<Longrightarrow> mp_remove_transaction True held h s = Done x"
  by (simp add: mp_remove_transaction_def lock_guard_def split: if_splits)

lemma remove_each_any_mutex: "remove_each relock hs s = Done s' \<Longrightarrow> remove_each True hs s = Done s'"
proof (cases relock)
  case False
  then show "remove_each relock hs s = Done s' \<Longrightarrow> remove_each True hs s = Done s'"
    by (cases hs) (simp_all add: mp_remove_transaction_def)
qed simp

lemma evict_any_mutex: "mp_evict_low_fee_transactions relock held s = Done s' \<Longrightarrow> mp_evict_low_fee_transactions True held s = Done s'"
  by (auto simp: mp_evict_low_fee_transactions_def evict_transactions_by_fee_def lock_guard_def Let_def
      split: if_splits option.splits intro: remove_each_any_mutex)

lemma add_any_mutex:
  assumes "mp_add_transaction relock False clk tx s = Done x"
  shows "mp_add_transaction True False clk tx s = Done x"
proof (cases relock)
  case False
  then show ?thesis using assms by (simp add: add_transaction_outcome mp_add_eq split: if_splits)
qed (use assms in simp)

subsection \<open>Adding\<close>

lemma mp_add_inv:
  assumes inv: "pool_inv s" and r: "mp_add_transaction True held clk tx s = Done (r, s')"
  shows "pool_inv s'"
proof (cases "um_lookup (mp_transactions s) (tx_hash tx) \<noteq> None \<or> \<not> tx_accepted s tx")
  case True
  then show ?thesis using assms by (simp add: mp_add_eq split: if_splits)
next
  case new: False
  obtain e hs where e: "mp_evict_low_fee_transactions True True s = Done e" "pool_inv e"
    "mp_transactions e = fold um_erase hs (mp_transactions s)" "mp_config e = mp_config s"
    using evict_low_fee_inv [OF inv] by blast
  define s1 where "s1 = (if pool_full s then e else s)"
  define ks where "ks = (if pool_full s then hs else [])"
  have s1: "pool_inv s1" "mp_transactions s1 = fold um_erase ks (mp_transactions s)"
    using inv e by (simp_all add: s1_def ks_def)
  have new1: "um_lookup (mp_transactions s1) (tx_hash tx) = None"
    using new fold_erase_lookup [OF pool_invD(1) [OF inv], of ks "tx_hash tx"] unfolding s1(2)
    by (metis option.exhaust)
  have free1: "nonce_index s1 (tx_from tx) (tx_nonce tx) = None"
    using nonce_free_shrunk [OF inv s1] validated_nonce_free [OF inv, of "snd (tx_calculate_hash tx)"] new by simp
  have "pool_inv (pool_added clk tx s1)" by (rule mp_add_tail_inv [OF s1(1) new1 free1]) simp_all
  then show ?thesis using r new e(1) s1(1) by (auto simp: mp_add_eq s1_def split: if_splits)
qed

lemma mp_add_returns: "pool_inv s \<Longrightarrow> \<exists>r s'. mp_add_transaction True held clk tx s = Done (r, s')"
  using evict_low_fee_inv [of s True] by (auto simp: mp_add_eq)

text \<open>
  C1. \<open>add_transaction\<close> on a pool that satisfies the invariant, for either kind of mutex. With a mutex that its owner may
  acquire again it always returns; with \<open>std::shared_mutex\<close> it may lock itself instead, but if it returns the same
  holds. The invariant is kept. A known hash gives \<open>TRANSACTION_EXISTS\<close>, an unknown transaction that fails the
  validation \<open>INVALID_TRANSACTION\<close>, and both leave the pool as it was. \<open>POOL_FULL\<close> means that the pool was full and still
  is after \<open>evict_low_fee_transactions\<close>, whose evictions stay. On \<open>SUCCESS\<close> the transaction can be looked up by its hash,
  the pool is within \<open>max_transactions\<close>, and every other entry is what it was, apart from those evicted
  when the pool was full. There is no other result.
\<close>

theorem add_transaction_correct:
  assumes inv: "pool_inv s" and size: "length (mp_transactions s) < 2 ^ 64"
  shows "(relock \<longrightarrow> (\<exists>r s'. mp_add_transaction relock False clk tx s = Done (r, s')))
    \<and> (\<forall>r s'. mp_add_transaction relock False clk tx s = Done (r, s') \<longrightarrow> pool_inv s'
        \<and> (r = TRANSACTION_EXISTS \<longleftrightarrow> um_lookup (mp_transactions s) (tx_hash tx) \<noteq> None)
        \<and> (r = INVALID_TRANSACTION \<longleftrightarrow>
             um_lookup (mp_transactions s) (tx_hash tx) = None \<and> \<not> mp_validate_transaction s (snd (tx_calculate_hash tx)))
        \<and> (if r = TRANSACTION_EXISTS \<or> r = INVALID_TRANSACTION then s' = s
           else if r = POOL_FULL then pool_full s \<and> pool_full s' \<and> mp_evict_low_fee_transactions True True s = Done s'
           else r = SUCCESS
             \<and> mp_get_transaction relock False (tx_hash tx) s' = Done (Some (snd (tx_calculate_hash tx)))
             \<and> length (mp_transactions s') \<le> unat (cfg_max_transactions (mp_config s'))
             \<and> (\<exists>s1. (if pool_full s then mp_evict_low_fee_transactions True True s = Done s1 else s1 = s)
                 \<and> (\<forall>h. h \<noteq> tx_hash tx \<longrightarrow> um_lookup (mp_transactions s') h = um_lookup (mp_transactions s1) h))))"
    (is "?ret \<and> (\<forall>r s'. _ \<longrightarrow> ?all r s')")
proof (rule conjI; (rule allI)?, (rule allI)?, rule impI)
  show "\<exists>r s'. mp_add_transaction relock False clk tx s = Done (r, s')" if relock
    using that mp_add_returns [OF inv, of False clk tx] by simp
  fix r s' assume "mp_add_transaction relock False clk tx s = Done (r, s')"
  then have r: "mp_add_transaction True False clk tx s = Done (r, s')" by (rule add_any_mutex)
  show "?all r s'"
  proof (cases "um_lookup (mp_transactions s) (tx_hash tx) \<noteq> None \<or> \<not> tx_accepted s tx")
    case True
    then show ?thesis using r inv by (auto simp: mp_add_eq split: if_splits)
  next
    case new: False
    obtain e hs where e: "mp_evict_low_fee_transactions True True s = Done e" "pool_inv e"
      "mp_transactions e = fold um_erase hs (mp_transactions s)" "mp_config e = mp_config s"
      using evict_low_fee_inv [OF inv] by blast
    define s1 where "s1 = (if pool_full s then e else s)"
    have s1: "pool_inv s1" "length (mp_transactions s1) < 2 ^ 64" "mp_config s1 = mp_config s"
      using inv e size fold_erase_length [of hs "mp_transactions s"] by (simp_all add: s1_def)
    show ?thesis
    proof (cases "pool_full s \<and> pool_full s1")
      case True
      then have "r = POOL_FULL" "s' = e" using r new e(1) by (auto simp: mp_add_eq s1_def)
      then show ?thesis using True new e(1,2) by (auto simp: s1_def)
    next
      case False
      then have rs: "r = SUCCESS" "s' = pool_added clk tx s1" using r new e(1) by (auto simp: mp_add_eq s1_def split: if_splits)
      have "\<not> pool_full s1" using False by (auto simp: s1_def)
      then have "Suc (length (mp_transactions s1)) \<le> unat (cfg_max_transactions (mp_config s1))"
        using not_full_room [of s1] s1(2) by (simp add: word_less_nat_alt unat_of_nat)
      then have "length (mp_transactions s') \<le> unat (cfg_max_transactions (mp_config s'))"
        by (simp add: rs length_um_insert)
      moreover have "pool_inv s'" using mp_add_inv [OF inv r] .
      moreover have "mp_get_transaction relock False (tx_hash tx) s' = Done (Some (snd (tx_calculate_hash tx)))"
        using pool_invD(1) [OF s1(1)] by (simp add: rs mp_get_transaction_def um.lookup_insert entry_of_def make_entry_def)
      moreover have "um_lookup (mp_transactions s') h = um_lookup (mp_transactions s1) h" if "h \<noteq> tx_hash tx" for h
        using that pool_invD(1) [OF s1(1)] by (simp add: rs um.lookup_insert)
      ultimately show ?thesis using new e(1) rs(1) by (auto simp: s1_def intro!: exI [of _ s1])
    qed
  qed
qed

definition pool_tx :: Transaction where
  "pool_tx = make_transaction (Address (replicate 20 1)) (Address (replicate 20 2)) (Amount 5)"

lemma make_mempool_simps [simp]:
  "mp_transactions (make_mempool c) = []" "mp_account_nonces (make_mempool c) = []"
  "mp_config (make_mempool c) = c" "mp_on_added (make_mempool c) = False"
  by (simp_all add: make_mempool_def)

lemma pool_tx_accepted: "mp_validate_transaction (make_mempool default_config) (snd (tx_calculate_hash pool_tx))"
proof -
  have "\<not> address_is_zero (Address (replicate 20 1))" "\<not> address_is_zero (Address (replicate 20 2))"
    by (simp_all add: address_is_zero_def numeral_eq_Suc)
  then show ?thesis
    by (simp add: mp_validate_transaction_def mp_validate_fee_def mp_validate_nonce_def
        mp_validate_dependencies_def mp_validate_size_def get_account_nonce_def um.lookup_empty
        tx_validity_defs tx_nonce_def is_too_large_def tx_size_def tx_calculate_hash_keeps pool_tx_def
        make_transaction_def default_config_def)
qed

lemma pool_tx_added:
  "\<exists>s'. mp_add_transaction True False (\<lambda>i. 7) pool_tx (make_mempool default_config) = Done (SUCCESS, s')
    \<and> mp_transactions s' = [(tx_hash pool_tx, make_entry 7 7 (snd (tx_calculate_hash pool_tx)))]"
  using pool_tx_accepted
  by (simp add: mp_add_transaction_def split_beta Let_def um.lookup_empty is_pool_full_def
      mp_get_stats_def) (simp add: default_config_def um_insert_def)

theorem add_transaction_correct_witness:
  "\<exists>s'. mp_add_transaction True False (\<lambda>i. 7) pool_tx (make_mempool default_config) = Done (SUCCESS, s')
    \<and> mp_get_transaction True False (tx_hash pool_tx) s' = Done (Some (snd (tx_calculate_hash pool_tx)))"
  using add_transaction_correct [of "make_mempool default_config" True "\<lambda>i. 7" pool_tx] pool_tx_added
  by fastforce

subsection \<open>Replacing\<close>

lemma eleven_tenths: "round64 (11 / 10) = Fin (2476979795053773 / 2251799813685248)"
proof -
  have "fl (11 / 10) = 2476979795053773 / 2251799813685248"
    using fl_evalI [of 0 "11 / 10" 4953959590107546] by (simp add: power_int_minus)
  moreover have "11 / 10 \<le> (2::rat) ^ 1000" by (rule order_trans [of _ "2 ^ 1"]) (simp, rule power_increasing, simp_all)
  ultimately show ?thesis using round64_Fin [of "11 / 10"] small_range [of "11 / 10"] by simp
qed

lemma f64_of_small: "unat w < 2 ^ 53 \<Longrightarrow> f64_of_u64 w = Fin (of_nat (unat w))"
  by (simp only: f64_of_u64_Fin fl_of_nat)

lemma policy_threshold:
  assumes "n < 2 ^ 48"
  shows "\<exists>T. f64_mul (Fin (of_nat n)) (round64 (11 / 10)) = Fin T
    \<and> 11 * of_nat n - 1 < 10 * T \<and> 10 * T < 11 * of_nat n + 1"
proof (cases "n = 0")
  case True
  have "round64 0 = Fin 0" using round64_Fin [of 0] by simp
  with True show ?thesis unfolding eleven_tenths by simp
next
  case False
  let ?x = "of_nat n * (2476979795053773 / 2251799813685248) :: rat"
  have "1 \<le> n" using False by simp
  then have n1: "1 \<le> (of_nat n :: rat)" by (metis of_nat_1 of_nat_mono)
  have n2: "(of_nat n :: rat) \<le> 281474976710656"
    using assms of_nat_le_iff [of n 281474976710656, where ?'a = rat] by simp
  have x: "1 \<le> ?x" using n1 by linarith
  have "?x \<le> 562949953421312" using n2 by linarith
  also have "\<dots> \<le> 2 ^ 1000" by (rule order_trans [of _ "2 ^ 64"]) (simp, rule power_increasing, simp_all)
  finally have r: "round64 ?x = Fin (fl ?x)" using small_range [OF x] by (intro round64_Fin) auto
  have "\<bar>fl ?x - ?x\<bar> \<le> ?x * 2 powi (- 53)" using x by (intro fl_relative_error small_range)
  also have "\<dots> = ?x * (1 / 9007199254740992)" by (simp add: power_int_minus)
  finally have "11 * of_nat n - 1 < 10 * fl ?x" "10 * fl ?x < 11 * of_nat n + 1"
    using n1 n2 by linarith+
  then show ?thesis unfolding eleven_tenths f64_mul.simps r by blast
qed

text \<open>
  For gas prices below \<open>2 ^ 48\<close> the replacement policy accepts every price more than 10%
  above the old one and rejects every price less than 10% above it; only at exactly 10% does the
  answer depend on the rounding of the product with 1.1.
\<close>

theorem replacement_policy_ten_percent:
  assumes "unat (tx_gas_price old) < 2 ^ 48" and "unat (tx_gas_price new) < 2 ^ 48"
  shows "(11 * unat (tx_gas_price old) < 10 * unat (tx_gas_price new) \<longrightarrow>
           check_replacement_policy old new = SUCCESS)
    \<and> (10 * unat (tx_gas_price new) < 11 * unat (tx_gas_price old) \<longrightarrow>
           check_replacement_policy old new = REPLACE_UNDERPRICED)"
proof -
  let ?o = "unat (tx_gas_price old)" and ?n = "unat (tx_gas_price new)"
  obtain T where T: "f64_mul (Fin (of_nat ?o)) (round64 (11 / 10)) = Fin T"
    "11 * of_nat ?o - 1 < 10 * T" "10 * T < 11 * of_nat ?o + 1"
    using policy_threshold [OF assms(1)] by blast
  have f: "f64_of_u64 (tx_gas_price old) = Fin (of_nat ?o)" "f64_of_u64 (tx_gas_price new) = Fin (of_nat ?n)"
    using assms by (simp_all only: f64_of_small less_trans [OF _ power_strict_increasing [of 48 53 "2::nat"]])
  have p: "check_replacement_policy old new = (if of_nat ?n < T then REPLACE_UNDERPRICED else SUCCESS)"
    unfolding check_replacement_policy_def f T(1) by simp
  have up: "\<not> of_nat ?n < T" if "11 * ?o < 10 * ?n"
  proof -
    have "11 * ?o + 1 \<le> 10 * ?n" using that by simp
    then have "(of_nat (11 * ?o + 1) :: rat) \<le> of_nat (10 * ?n)" by (simp only: of_nat_le_iff)
    then show ?thesis using T(3) by (simp only: of_nat_add of_nat_mult of_nat_numeral of_nat_1; linarith)
  qed
  have down: "of_nat ?n < T" if "10 * ?n < 11 * ?o"
  proof -
    have "10 * ?n + 1 \<le> 11 * ?o" using that by simp
    then have "(of_nat (10 * ?n + 1) :: rat) \<le> of_nat (11 * ?o)" by (simp only: of_nat_le_iff)
    then show ?thesis using T(2) by (simp only: of_nat_add of_nat_mult of_nat_numeral of_nat_1; linarith)
  qed
  show ?thesis unfolding p using up down by auto
qed

theorem replacement_policy_ten_percent_witness:
  "check_replacement_policy (tx_set_gas_price 100 pool_tx) (tx_set_gas_price 111 pool_tx) = SUCCESS
   \<and> check_replacement_policy (tx_set_gas_price 100 pool_tx) (tx_set_gas_price 109 pool_tx) = REPLACE_UNDERPRICED"
  using replacement_policy_ten_percent [of "tx_set_gas_price 100 pool_tx" "tx_set_gas_price 111 pool_tx"]
    replacement_policy_ten_percent [of "tx_set_gas_price 100 pool_tx" "tx_set_gas_price 109 pool_tx"]
  by (simp add: tx_gas_price_def tx_setter_defs)

text \<open>Exactly 10% more is refused at 110, where the product rounds above 121.\<close>

lemma replacement_policy_at_110:
  "check_replacement_policy (tx_set_gas_price 110 pool_tx) (tx_set_gas_price 121 pool_tx) = REPLACE_UNDERPRICED"
proof -
  let ?x = "110 * (2476979795053773 / 2251799813685248) :: rat"
  have "fl ?x = 8514618045497345 / 70368744177664"
    using fl_evalI [of 6 ?x 8514618045497345] by (simp add: power_int_minus)
  moreover have "?x \<le> 2 ^ 1000" by (rule order_trans [of _ "2 ^ 64"]) (simp, rule power_increasing, simp_all)
  ultimately have "round64 ?x = Fin (8514618045497345 / 70368744177664)"
    using round64_Fin [of ?x] small_range [of ?x] by simp
  then have "f64_mul (Fin 110) (round64 (11 / 10)) = Fin (8514618045497345 / 70368744177664)"
    unfolding eleven_tenths f64_mul.simps .
  moreover have "f64_of_u64 110 = Fin 110" "f64_of_u64 121 = Fin 121"
    using f64_of_small [of 110] f64_of_small [of 121] by simp_all
  ultimately show ?thesis
    unfolding check_replacement_policy_def by (simp add: tx_gas_price_def tx_setter_defs)
qed

lemma validate_frame:
  "mp_config s = mp_config t \<Longrightarrow> mp_account_nonces s = mp_account_nonces t \<Longrightarrow>
   mp_validate_transaction s tx = mp_validate_transaction t tx"
  by (simp add: mp_validate_transaction_def mp_validate_fee_def mp_validate_nonce_def
      mp_validate_dependencies_def mp_validate_size_def get_account_nonce_def)

text \<open>
  \<open>replace_transaction\<close> drops the old transaction before it validates the new one. When the
  sender has a pooled transaction with a higher nonce, a replacement that satisfies the fee policy
  returns \<open>INVALID_TRANSACTION\<close>, and the transaction it should have replaced is gone.
\<close>

theorem replace_transaction_loses:
  assumes inv: "pool_inv s"
    and old: "nonce_index s (tx_from tx) (tx_nonce tx) = Some h"
    and later: "nonce_index s (tx_from tx) k = Some h'" "tx_nonce tx < k"
    and policy: "\<forall>e. um_lookup (mp_transactions s) h = Some e \<longrightarrow>
      check_replacement_policy (en_transaction e) (snd (tx_calculate_hash tx)) = SUCCESS"
  shows "\<exists>s'. mp_replace_transaction True False clk tx s = Done (INVALID_TRANSACTION, s')
    \<and> um_lookup (mp_transactions s) h \<noteq> None \<and> um_lookup (mp_transactions s') h = None"
proof -
  let ?tx = "snd (tx_calculate_hash tx)"
  obtain e where e: "um_lookup (mp_transactions s) h = Some e"
    "tx_from (en_transaction e) = tx_from tx" "tx_nonce (en_transaction e) = tx_nonce tx"
    using pool_invD(4) [OF inv] old by (auto simp: entry_at_def)
  obtain m where m: "um_lookup (mp_account_nonces s) (tx_from tx) = Some m" "um_lookup m (tx_nonce tx) = Some h"
    using old by (auto simp: nonce_index_def split: option.splits)
  let ?r = "remove_account_nonce (tx_from tx) (tx_nonce tx) s"
  let ?s = "?r\<lparr>mp_transactions := um_erase h (mp_transactions s)\<rparr>"
  have wf: "nonce_wf ?r" using pool_invD(2) [OF inv] by (rule remove_account_nonce_wf)
  have "nonce_index ?r (tx_from tx) k = Some h'"
    using later by (simp add: nonce_index_remove [OF pool_invD(2) [OF inv]])
  then obtain n where n: "get_account_nonce (tx_from tx) ?r = Some n" "k \<le> n"
    using get_account_nonce_greatest [OF wf] by blast
  have "tx_nonce tx \<le> n" using n(2) later(2) by simp
  then have "\<not> mp_validate_transaction ?r ?tx"
    using n(1) by (simp add: mp_validate_transaction_def mp_validate_nonce_def)
  then have invalid: "\<not> mp_validate_transaction ?s ?tx"
    using validate_frame [of ?s ?r] by simp
  have "mp_replace_transaction True False clk tx s = Done (INVALID_TRANSACTION, ?s)"
    using m e policy invalid by (simp add: mp_replace_transaction_def split_beta Let_def)
  moreover have "um_lookup (mp_transactions ?s) h = None"
    using pool_invD(1) [OF inv] by (simp add: um.lookup_erase)
  ultimately show ?thesis using e(1) by blast
qed

text \<open>A pool with two transactions of one sender, nonces 1 and 2.\<close>

definition pool_insert :: "MempoolEntry \<Rightarrow> MempoolImpl \<Rightarrow> MempoolImpl" where
  "pool_insert e s =
     (let tx = en_transaction e;
          s1 = update_account_nonce (tx_from tx) (tx_nonce tx) (tx_hash tx) s
      in rebuild_priority_queue (s1\<lparr>mp_transactions := um_insert (tx_hash tx) e (mp_transactions s1)\<rparr>))"

lemma pool_insert_inv:
  "pool_inv s \<Longrightarrow> um_lookup (mp_transactions s) (tx_hash (en_transaction e)) = None \<Longrightarrow>
   nonce_index s (tx_from (en_transaction e)) (tx_nonce (en_transaction e)) = None \<Longrightarrow> pool_inv (pool_insert e s)"
  by (rule mp_insert_inv [where s = s and tx = "en_transaction e" and e = e])
    (simp_all add: pool_insert_def Let_def)

definition pool_tx1 :: Transaction where "pool_tx1 = tx_set_nonce 1 pool_tx"
definition pool_tx2 :: Transaction where
  "pool_tx2 = tx_set_nonce 2 (tx_set_to (Address (replicate 20 3)) pool_tx)"

definition pool2 :: MempoolImpl where
  "pool2 = pool_insert (make_entry 0 0 pool_tx2) (pool_insert (make_entry 0 0 pool_tx1) (make_mempool default_config))"

lemma pool_tx_simps [simp]:
  "tx_hash pool_tx1 = Hash (replicate 20 1 @ replicate 12 2)"
  "tx_hash pool_tx2 = Hash (replicate 20 1 @ replicate 12 3)"
  "tx_nonce pool_tx1 = 1" "tx_nonce pool_tx2 = 2"
  "tx_from pool_tx1 = Address (replicate 20 1)" "tx_from pool_tx2 = Address (replicate 20 1)"
  "tx_gas_price pool_tx1 = 1" "tx_gas_limit pool_tx1 = 21000" "tx_gas_limit pool_tx2 = 21000"
  by (simp_all add: tx_hash_addresses pool_tx1_def pool_tx2_def pool_tx_def tx_setter_defs
      make_transaction_def tx_nonce_def tx_from_def tx_gas_price_def tx_gas_limit_def wf_txdata_def core_size_defs
      take_replicate)

lemma pool2_hashes: "Hash (replicate 20 1 @ replicate 12 2) \<noteq> Hash (replicate 20 1 @ replicate 12 (3 :: u8))"
  by (simp add: numeral_eq_Suc)

lemma pool2_contents:
  "mp_transactions pool2 =
     [(Hash (replicate 20 1 @ replicate 12 2), make_entry 0 0 pool_tx1),
      (Hash (replicate 20 1 @ replicate 12 3), make_entry 0 0 pool_tx2)]"
  "mp_account_nonces pool2 = [(Address (replicate 20 1),
     [(1, Hash (replicate 20 1 @ replicate 12 2)), (2, Hash (replicate 20 1 @ replicate 12 3))])]"
  using pool2_hashes
  by (simp_all add: pool2_def pool_insert_def Let_def make_entry_def update_account_nonce_def um_defs)

lemma pool2_inv: "pool_inv pool2"
  unfolding pool2_def
proof (intro pool_insert_inv)
  show "pool_inv (make_mempool default_config)" by simp
  have w: "nonce_wf (make_mempool default_config)" by (simp add: nonce_wf_def um.lookup_empty)
  have "nonce_index (make_mempool default_config) a n = None" for a n
    by (simp add: nonce_index_def um.lookup_empty)
  then show "nonce_index (make_mempool default_config) (tx_from (en_transaction (make_entry 0 0 pool_tx1)))
      (tx_nonce (en_transaction (make_entry 0 0 pool_tx1))) = None" .
  show "um_lookup (mp_transactions (make_mempool default_config))
      (tx_hash (en_transaction (make_entry 0 0 pool_tx1))) = None" by (simp add: um.lookup_empty)
  show "um_lookup (mp_transactions (pool_insert (make_entry 0 0 pool_tx1) (make_mempool default_config)))
      (tx_hash (en_transaction (make_entry 0 0 pool_tx2))) = None"
    using pool2_hashes by (simp add: pool_insert_def Let_def make_entry_def um_defs)
  show "nonce_index (pool_insert (make_entry 0 0 pool_tx1) (make_mempool default_config))
      (tx_from (en_transaction (make_entry 0 0 pool_tx2))) (tx_nonce (en_transaction (make_entry 0 0 pool_tx2))) = None"
    by (simp add: pool_insert_def Let_def make_entry_def nonce_index_def update_account_nonce_def um_defs)
qed

theorem replace_transaction_loses_witness:
  "\<exists>s'. mp_replace_transaction True False (\<lambda>i. 0) (tx_set_gas_price 2 pool_tx1) pool2 = Done (INVALID_TRANSACTION, s')
    \<and> um_lookup (mp_transactions s') (Hash (replicate 20 1 @ replicate 12 2)) = None"
proof -
  let ?tx = "tx_set_gas_price 2 pool_tx1"
  have t: "tx_from ?tx = Address (replicate 20 1)" "tx_nonce ?tx = 1"
    by (simp_all add: pool_tx1_def pool_tx_def tx_setter_defs make_transaction_def tx_nonce_def tx_from_def)
  have g: "tx_gas_price (snd (tx_calculate_hash ?tx)) = 2"
    by (simp add: tx_gas_price_def tx_calculate_hash_keeps tx_setter_defs)
  have "check_replacement_policy pool_tx1 (snd (tx_calculate_hash ?tx)) = SUCCESS"
  proof -
    obtain T where "f64_mul (Fin (of_nat 1)) (round64 (11 / 10)) = Fin T" "10 * T < 11 * of_nat 1 + 1"
      using policy_threshold [of 1] by auto
    moreover have "f64_of_u64 1 = Fin 1" "f64_of_u64 2 = Fin 2"
      using f64_of_small [of 1] f64_of_small [of 2] by simp_all
    ultimately show ?thesis by (simp add: check_replacement_policy_def g)
  qed
  then show ?thesis
    using replace_transaction_loses [OF pool2_inv, of ?tx "Hash (replicate 20 1 @ replicate 12 2)" 2
        "Hash (replicate 20 1 @ replicate 12 3)" "\<lambda>i. 0"] pool2_hashes
    by (simp add: nonce_index_def pool2_contents um_lookup_def t make_entry_def)
qed

subsection \<open>Eviction\<close>

lemma length_fold_erase:
  "distinct_keys m \<Longrightarrow> distinct hs \<Longrightarrow> set hs \<subseteq> fst ` set m \<Longrightarrow>
   length (fold um_erase hs m) + length hs = length m"
proof (induction hs arbitrary: m)
  case (Cons h hs)
  have "um_lookup m h \<noteq> None" using Cons.prems(3) by (simp add: um_lookup_None)
  then have "Suc (length (um_erase h m)) = length m" using Cons.prems(1) by (rule length_um_erase [rotated])
  moreover have "set hs \<subseteq> fst ` set (um_erase h m)"
    using Cons.prems(2,3) by (force simp: um_erase_filter)
  ultimately show ?case
    using Cons.IH [of "um_erase h m"] Cons.prems um.invar_erase [of m h] by simp
qed simp

lemma evict_count:
  fixes t :: u64
  assumes "n < 2 ^ 64"
  shows "min (unat (of_nat n - t)) n = (if unat t \<le> n then n - unat t else n)"
proof (cases "unat t \<le> n")
  case True
  then have "t \<le> of_nat n" using assms by (simp add: word_le_nat_alt unat_of_nat)
  then show ?thesis using True assms by (simp add: unat_sub unat_of_nat)
next
  case False
  then have "unat (of_nat n - t :: u64) = 2 ^ 64 + n - unat t"
    using assms unat_sub_if' [of "of_nat n" t] by (simp add: word_le_nat_alt unat_of_nat)
  then show ?thesis using False unsigned_less [of t, where ?'a = nat] by simp
qed

lemma set_take_sorted:
  assumes "sorted xs" and "x \<in> set (take k xs)" and "y \<in> set (drop k xs)"
  shows "x \<le> y"
  using assms sorted_wrt_append [of "(\<le>)" "take k xs" "drop k xs"] by auto

lemma evicted_facts:
  assumes d: "distinct_keys m"
  defines "c \<equiv> sort (queue_entries m)"
  shows "distinct (map snd (take k c))" "set (map snd (take k c)) \<subseteq> fst ` set m"
    "(h, e) \<in> set m \<Longrightarrow> h \<in> set (map snd (take k c)) \<Longrightarrow> (h', e') \<in> set m \<Longrightarrow>
     h' \<notin> set (map snd (take k c)) \<Longrightarrow> calculate_score (en_priority e) \<le> calculate_score (en_priority e')"
proof -
  have "mset (map snd c) = mset (map fst m)"
    by (simp add: c_def queue_entries_def mset_map [symmetric] split_beta comp_def del: mset_map)
      (simp add: c_def queue_entries_def split_beta image_mset.compositionality comp_def)
  then have dc: "distinct (map snd c)" using d by (metis mset_eq_imp_distinct_iff)
  then show "distinct (map snd (take k c))" by (metis distinct_take take_map)
  show "set (map snd (take k c)) \<subseteq> fst ` set m"
    by (force simp: c_def queue_entries_def dest!: in_set_takeD)
  assume h: "(h, e) \<in> set m" "h \<in> set (map snd (take k c))" and h': "(h', e') \<in> set m" "h' \<notin> set (map snd (take k c))"
  have in_c: "(calculate_score (en_priority x), y) \<in> set c" if "(y, x) \<in> set m" for x y
    using that by (force simp: c_def queue_entries_def)
  have inj: "p = q" if "p \<in> set c" "q \<in> set c" "snd p = snd q" for p q
    using dc that by (auto simp: distinct_map inj_on_def)
  have "(calculate_score (en_priority e), h) \<in> set (take k c)"
    using h inj [OF in_c [OF h(1)]] by (fastforce dest: in_set_takeD)
  moreover have "(calculate_score (en_priority e'), h') \<in> set (drop k c)"
    using in_c [OF h'(1)] h'(2) by (metis (no_types) Un_iff append_take_drop_id image_eqI list.set_map set_append snd_conv)
  ultimately have "(calculate_score (en_priority e), h) \<le> (calculate_score (en_priority e'), h')"
    by (intro set_take_sorted [of c]) (simp_all add: c_def)
  then show "calculate_score (en_priority e) \<le> calculate_score (en_priority e')"
    by (auto simp: less_eq_prod_def less_imp_le)
qed

lemma below_threshold_keeps:
  "f64_less (f64_of_u64 (of_nat (length (mp_transactions s))))
     (f64_mul (f64_of_u64 (cfg_max_transactions (mp_config s))) (cfg_eviction_threshold_ratio (mp_config s))) \<Longrightarrow>
   mp_evict_low_fee_transactions relock False s = Done s"
  by (simp add: mp_evict_low_fee_transactions_def Let_def)

lemma evict_selects:
  assumes "length (mp_transactions s) < 2 ^ 64"
    and "\<not> f64_less (f64_of_u64 (of_nat (length (mp_transactions s))))
      (f64_mul (f64_of_u64 (cfg_max_transactions (mp_config s))) (cfg_eviction_threshold_ratio (mp_config s)))"
    and "f64_to_u64 (f64_mul (f64_of_u64 (cfg_max_transactions (mp_config s))) (round64 (8 / 10))) = Some t"
  shows "mp_evict_low_fee_transactions relock False s = remove_each relock (map snd (take
    (if unat t \<le> length (mp_transactions s) then length (mp_transactions s) - unat t else length (mp_transactions s))
    (sort (queue_entries (mp_transactions s))))) s"
  using evict_count [OF assms(1), of t] assms(2,3)
  by (simp add: mp_evict_low_fee_transactions_def evict_transactions_by_fee_def select_transactions_to_evict_def Let_def
      queue_entries_def)

lemma if_cases: "(P \<Longrightarrow> A) \<Longrightarrow> (\<not> P \<Longrightarrow> B) \<Longrightarrow> if P then A else B"
  by simp

lemma remove_each_self_locks: "remove_each False hs s = (if hs = [] then Done s else Self_lock)"
  by (cases hs) (simp_all add: mp_remove_transaction_def)

text \<open>
  C33. \<open>evict_low_fee_transactions\<close> on a pool that satisfies the invariant, for either kind of mutex. Below the configured
  threshold it changes nothing. At or above it, with a mutex that may be acquired again, it leaves exactly the target
  of 80% of the capacity when the pool holds at least that many, and unchanged entries that score no lower
  than those it evicts; when the threshold lets it run on a pool smaller than the target, the unsigned difference
  wraps and it evicts the whole pool. With \<open>std::shared_mutex\<close> it locks itself whenever there is anything to evict.
\<close>

theorem evict_low_fee_count:
  assumes inv: "pool_inv s" and size: "length (mp_transactions s) < 2 ^ 64"
    and target: "f64_to_u64 (f64_mul (f64_of_u64 (cfg_max_transactions (mp_config s))) (round64 (8 / 10))) = Some t"
  shows "if f64_less (f64_of_u64 (of_nat (length (mp_transactions s))))
        (f64_mul (f64_of_u64 (cfg_max_transactions (mp_config s))) (cfg_eviction_threshold_ratio (mp_config s)))
      then mp_evict_low_fee_transactions relock False s = Done s
      else if \<not> relock \<and> mp_transactions s \<noteq> [] \<and> length (mp_transactions s) \<noteq> unat t
      then mp_evict_low_fee_transactions relock False s = Self_lock
      else \<exists>s'. mp_evict_low_fee_transactions relock False s = Done s'
        \<and> length (mp_transactions s') = (if unat t \<le> length (mp_transactions s) then unat t else 0)
        \<and> (\<forall>h e. um_lookup (mp_transactions s') h = Some e \<longrightarrow> um_lookup (mp_transactions s) h = Some e)
        \<and> (\<forall>h e h' e'. (h, e) \<in> set (mp_transactions s) \<and> um_lookup (mp_transactions s') h = None
            \<and> um_lookup (mp_transactions s') h' = Some e' \<longrightarrow>
              calculate_score (en_priority e) \<le> calculate_score (en_priority e'))"
    (is "if ?below then _ else if ?stuck then _ else ?goal")
proof -
  let ?m = "mp_transactions s" and ?n = "length (mp_transactions s)"
  define k where "k = (if unat t \<le> ?n then ?n - unat t else ?n)"
  let ?hs = "map snd (take k (sort (queue_entries ?m)))"
  note d = pool_invD(1) [OF inv]
  have sel: "mp_evict_low_fee_transactions relock False s = remove_each relock ?hs s" if "\<not> ?below"
    using evict_selects [OF size that target] by (simp add: k_def)
  have "length ?hs = min ?n k" by (simp add: queue_entries_def)
  then have none: "?hs = [] \<longleftrightarrow> ?m = [] \<or> ?n = unat t" unfolding length_0_conv [symmetric] by (auto simp: k_def)
  have ?goal if "\<not> ?below" "\<not> ?stuck"
  proof -
    obtain s' where s': "remove_each True ?hs s = Done s'" "mp_transactions s' = fold um_erase ?hs ?m"
      using remove_each_inv [OF inv, of ?hs] by blast
    have "remove_each relock ?hs s = Done s'"
      using s'(1) that(2) none remove_each_self_locks [of ?hs s] by (cases relock) auto
    with sel [OF that(1)] have e: "mp_evict_low_fee_transactions relock False s = Done s'" by simp
    have "length (mp_transactions s') + min ?n k = ?n"
      using length_fold_erase [OF d evicted_facts(1,2) [OF d], of k] by (simp add: s'(2) queue_entries_def)
    then have "length (mp_transactions s') = (if unat t \<le> ?n then unat t else 0)"
      by (simp add: k_def split: if_splits)
    moreover have "calculate_score (en_priority e) \<le> calculate_score (en_priority e')"
      if he: "(h, e) \<in> set ?m" and "um_lookup (mp_transactions s') h = None"
        and "um_lookup (mp_transactions s') h' = Some e'" for h e h' e'
    proof (rule evicted_facts(3) [OF d he, of k])
      show "h \<in> set ?hs"
        using that um.lookup_fold_erase [OF d, of ?hs h] um_lookup_in [OF d, of h e] s'(2)
        by (auto split: if_splits)
      show "(h', e') \<in> set ?m" "h' \<notin> set ?hs"
        using that um.lookup_fold_erase [OF d, of ?hs h'] um_lookup_in [OF d, of h' e'] s'(2)
        by (auto split: if_splits)
    qed
    ultimately show ?goal using e fold_erase_lookup [OF d, of ?hs] s'(2) by auto
  qed
  moreover have "mp_evict_low_fee_transactions relock False s = Self_lock" if "\<not> ?below" ?stuck
    using sel [OF that(1)] that(2) none remove_each_self_locks [of ?hs s] by simp
  moreover have "mp_evict_low_fee_transactions relock False s = Done s" if ?below
    using that by (rule below_threshold_keeps)
  ultimately show ?thesis by (intro if_cases)
qed

definition small_pool :: MempoolImpl where
  "small_pool = pool2\<lparr>mp_config := default_config\<lparr>cfg_max_transactions := 2, cfg_eviction_threshold_ratio := Fin (1 / 2)\<rparr>\<rparr>"

lemma two_f64: "f64_of_u64 2 = Fin 2"
  using f64_of_small [of 2] by simp

lemma small_pool_target: "f64_to_u64 (f64_mul (Fin 2) (round64 (8 / 10))) = Some 1"
proof -
  let ?x = "2 * (3602879701896397 / 4503599627370496) :: rat"
  have "fl ?x = 3602879701896397 / 2251799813685248"
    using fl_evalI [of 0 ?x 7205759403792794] by (simp add: power_int_minus)
  moreover have "?x \<le> 2 ^ 1000" by (rule order_trans [of _ "2 ^ 64"]) (simp, rule power_increasing, simp_all)
  ultimately have "round64 ?x = Fin (3602879701896397 / 2251799813685248)"
    using round64_Fin [of ?x] small_range [of ?x] by simp
  moreover have "\<lfloor>3602879701896397 / 2251799813685248 :: rat\<rfloor> = 1" by (simp add: floor_eq_iff)
  ultimately show ?thesis unfolding four_fifths f64_mul.simps by simp
qed

theorem evict_low_fee_count_witness:
  "(\<exists>s'. mp_evict_low_fee_transactions True False small_pool = Done s' \<and> length (mp_transactions s') = 1)
   \<and> mp_evict_low_fee_transactions False False small_pool = Self_lock"
proof -
  have "round64 1 = Fin 1"
    using round64_Fin [of 1] small_range [of 1] fl_of_nat [of 1]
      power_increasing [of 0 1000 "2::rat"] by simp
  then have "\<not> f64_less (f64_of_u64 2) (f64_mul (f64_of_u64 2) (Fin (1 / 2)))"
    by (simp add: two_f64)
  moreover have inv: "pool_inv small_pool"
    by (rule pool_inv_frame [OF pool2_inv]) (simp_all add: small_pool_def)
  ultimately show ?thesis
    using evict_low_fee_count [OF inv, of 1 True] evict_low_fee_count [OF inv, of 1 False] small_pool_target
    by (auto simp: small_pool_def pool2_contents two_f64)
qed

subsection \<open>Statistics\<close>

lemma stats_fold:
  "\<exists>st' fee. fold (stats_step now) m (st, fees, age) =
      (st', fee, foldl (\<lambda>a p. min a (now - en_added_timestamp (snd p))) age m)
    \<and> st_max_fee_per_gas st' = foldl (\<lambda>a p. max a (tx_gas_price (en_transaction (snd p)))) (st_max_fee_per_gas st) m
    \<and> st_transaction_count st' = st_transaction_count st"
proof (induction m arbitrary: st fees age)
  case (Cons p m)
  obtain st1 fee1 age1 where 1: "stats_step now p (st, fees, age) = (st1, fee1, age1)"
    by (cases "stats_step now p (st, fees, age)") auto
  then have "age1 = min age (now - en_added_timestamp (snd p))"
    "st_max_fee_per_gas st1 = max (st_max_fee_per_gas st) (tx_gas_price (en_transaction (snd p)))"
    "st_transaction_count st1 = st_transaction_count st"
    by (auto simp: stats_step_def Let_def max_def split: if_splits)
  then show ?case using Cons.IH [of st1 fee1 age1] 1 by simp
qed simp

lemma foldl_min_Min: "foldl (\<lambda>a p. min a (f p)) b m = Min (insert b (f ` set m))" for b :: "'a::linorder"
proof (induction m arbitrary: b)
  case (Cons p m)
  have "Min (insert (min b (f p)) (f ` set m)) = Min (insert b (insert (f p) (f ` set m)))"
    by (cases "set m = {}") (auto simp: min.assoc)
  then show ?case using Cons by simp
qed simp

lemma foldl_max_Max: "foldl (\<lambda>a p. max a (f p)) b m = Max (insert b (f ` set m))" for b :: "'a::linorder"
proof (induction m arbitrary: b)
  case (Cons p m)
  have "Max (insert (max b (f p)) (f ` set m)) = Max (insert b (insert (f p) (f ` set m)))"
    by (cases "set m = {}") (auto simp: max.assoc)
  then show ?case using Cons by simp
qed simp

text \<open>
  The statistics of a nonempty pool: the maximal fee is the largest gas price, and
  \<open>oldest_transaction_age\<close> is the smallest age in the pool, that of the transaction added last.
\<close>

theorem get_stats_oldest_is_youngest:
  assumes "mp_transactions s \<noteq> []"
  shows "\<exists>st. mp_get_stats True False now s = Done st
    \<and> st_oldest_transaction_age st = Min ((\<lambda>p. now - en_added_timestamp (snd p)) ` set (mp_transactions s))
    \<and> st_max_fee_per_gas st = Max ((\<lambda>p. tx_gas_price (en_transaction (snd p))) ` set (mp_transactions s))"
proof -
  let ?m = "mp_transactions s"
  let ?st = "\<lparr> st_transaction_count = of_nat (length ?m), st_total_size_bytes = 0,
     st_min_fee_per_gas = 0, st_max_fee_per_gas = 0, st_avg_fee_per_gas = Fin 0,
     st_oldest_transaction_age = 0 \<rparr>"
  obtain st fee where f: "fold (stats_step now) ?m (?st, 0, - 1) =
      (st, fee, foldl (\<lambda>a p. min a (now - en_added_timestamp (snd p))) (- 1) ?m)"
    "st_max_fee_per_gas st = foldl (\<lambda>a p. max a (tx_gas_price (en_transaction (snd p)))) 0 ?m"
    using stats_fold [of now ?m ?st 0 "- 1"] by auto
  have mx: "max 0 w = w" and mn: "min (- 1) w = w" for w :: u64
    by (simp_all add: max_def min_def word_n1_ge antisym)
  have "Min (insert (- 1) ((\<lambda>p. now - en_added_timestamp (snd p)) ` set ?m))
      = Min ((\<lambda>p. now - en_added_timestamp (snd p)) ` set ?m)"
    "Max (insert 0 ((\<lambda>p. tx_gas_price (en_transaction (snd p))) ` set ?m))
      = Max ((\<lambda>p. tx_gas_price (en_transaction (snd p))) ` set ?m)"
    using assms by (simp_all add: mx mn)
  then show ?thesis using assms f
    by (simp add: mp_get_stats_def Let_def foldl_min_Min foldl_max_Max)
qed

theorem get_stats_oldest_is_youngest_witness:
  "\<exists>st. mp_get_stats True False 100 (pool2\<lparr>mp_transactions :=
       [(hash_zero, (make_entry 0 0 pool_tx1)), (hash_zero, make_entry 90 90 pool_tx2)]\<rparr>) = Done st
    \<and> st_oldest_transaction_age st = 10"
  using get_stats_oldest_is_youngest [of "pool2\<lparr>mp_transactions :=
       [(hash_zero, (make_entry 0 0 pool_tx1)), (hash_zero, make_entry 90 90 pool_tx2)]\<rparr>" 100]
  by (auto simp: make_entry_def min_def)

end
