(* ===== verification/Mempool_Runs.thy ===== *)
theory Mempool_Runs
  imports Mempool_Laws
begin

text \<open>
  The transaction pool over sequences of calls. Every public method may be called with any argument; the mutex is
  either kind. Two kinds of replacement leave the pool untidy: one that is refused after the transaction it should
  replace was erased, which leaves a stale entry in the queue, and one whose hash is that of another pooled
  transaction, which leaves a stale entry in the nonce index. What holds in every pool is \<open>pool_weak\<close>; as long as
  neither has happened since the pool was new or cleared, \<open>pool_inv\<close> holds.
\<close>

subsection \<open>What every call keeps\<close>

definition pool_table :: "MempoolImpl \<Rightarrow> bool" where
  "pool_table s \<longleftrightarrow> distinct_keys (mp_transactions s) \<and> nonce_wf s
     \<and> (\<forall>h e. um_lookup (mp_transactions s) h = Some e \<longrightarrow> tx_hash (en_transaction e) = h)
     \<and> (\<forall>a n h. entry_at s a n h \<longrightarrow> nonce_index s a n = Some h)"

definition pool_weak :: "MempoolImpl \<Rightarrow> bool" where
  "pool_weak s \<longleftrightarrow> pool_table s \<and> descending (mp_priority_queue s)
     \<and> mset (queue_entries (mp_transactions s)) \<subseteq># mset (mp_priority_queue s)"

lemma pool_tableD:
  assumes "pool_table s"
  shows "distinct_keys (mp_transactions s)" "nonce_wf s"
    "um_lookup (mp_transactions s) h = Some e \<Longrightarrow> tx_hash (en_transaction e) = h"
    "entry_at s a n h \<Longrightarrow> nonce_index s a n = Some h"
  using assms by (simp_all add: pool_table_def)

lemma pool_weakD: "pool_weak s \<Longrightarrow> pool_table s"
  by (simp add: pool_weak_def)

lemma pool_inv_weak: "pool_inv s \<Longrightarrow> pool_weak s"
  using pq_build_facts [of "queue_entries (mp_transactions s)"] by (simp add: pool_inv_def pool_weak_def pool_table_def)

lemma pool_table_frame:
  "pool_table s \<Longrightarrow> mp_transactions t = mp_transactions s \<Longrightarrow> mp_account_nonces t = mp_account_nonces s \<Longrightarrow> pool_table t"
  using nonce_frame [of t s] by (auto simp: pool_table_def entry_at_def)

lemma pool_weak_frame:
  "pool_weak s \<Longrightarrow> mp_transactions t = mp_transactions s \<Longrightarrow> mp_account_nonces t = mp_account_nonces s \<Longrightarrow>
   mp_priority_queue t = mp_priority_queue s \<Longrightarrow> pool_weak t"
  using pool_table_frame [of s t] by (simp add: pool_weak_def)

lemma rebuilt_weak: "pool_table s \<Longrightarrow> mp_priority_queue s = pq_build (queue_entries (mp_transactions s)) \<Longrightarrow> pool_weak s"
  using pq_build_facts [of "queue_entries (mp_transactions s)"] by (simp add: pool_weak_def)

text \<open>Erasing an entry together with its place in the nonce index.\<close>

definition pool_dropped :: "Hash \<Rightarrow> MempoolEntry \<Rightarrow> MempoolImpl \<Rightarrow> MempoolImpl" where
  "pool_dropped h e s =
     (remove_account_nonce (tx_from (en_transaction e)) (tx_nonce (en_transaction e)) s)\<lparr>
       mp_transactions := um_erase h (mp_transactions s)\<rparr>"

lemma pool_dropped_fields [simp]:
  "mp_transactions (pool_dropped h e s) = um_erase h (mp_transactions s)"
  "mp_priority_queue (pool_dropped h e s) = mp_priority_queue s"
  "mp_config (pool_dropped h e s) = mp_config s"
  by (simp_all add: pool_dropped_def)

lemma pool_dropped_table:
  assumes t: "pool_table s" and e: "um_lookup (mp_transactions s) h = Some e"
  shows "pool_table (pool_dropped h e s)"
proof -
  let ?a = "tx_from (en_transaction e)" and ?n = "tx_nonce (en_transaction e)"
  let ?r = "remove_account_nonce ?a ?n s" and ?s = "pool_dropped h e s"
  note d = pool_tableD(1,2) [OF t]
  have own: "nonce_index s ?a ?n = Some h" using pool_tableD(4) [OF t] e by (auto simp: entry_at_def)
  have nonces: "mp_account_nonces ?s = mp_account_nonces ?r" by (simp add: pool_dropped_def)
  have "nonce_index ?s b k = Some j" if "entry_at ?s b k j" for b k j
  proof -
    from that have "entry_at s b k j" "j \<noteq> h" using d(1) by (auto simp: entry_at_def um.lookup_erase split: if_splits)
    with pool_tableD(4) [OF t] own have "nonce_index s b k = Some j" "\<not> (b = ?a \<and> k = ?n)" by auto
    then show ?thesis using nonce_frame(2) [OF nonces] nonce_index_remove [OF d(2)] by auto
  qed
  moreover have "nonce_wf ?s" using nonce_frame(1) [OF nonces] remove_account_nonce_wf [OF d(2)] by simp
  ultimately show ?thesis
    using d(1) pool_tableD(3) [OF t] by (auto simp: pool_table_def um.invar_erase um.lookup_erase split: if_splits)
qed

lemma mset_entries_erase: "mset (queue_entries (um_erase h m)) \<subseteq># mset (queue_entries m)"
proof -
  have "mset (filter (\<lambda>p. fst p \<noteq> h) m) \<subseteq># mset m" by (simp add: multiset_filter_subset)
  then show ?thesis unfolding um_erase_filter queue_entries_def mset_map by (rule image_mset_subseteq_mono)
qed

lemma pool_dropped_weak:
  "pool_weak s \<Longrightarrow> um_lookup (mp_transactions s) h = Some e \<Longrightarrow> pool_weak (pool_dropped h e s)"
  using pool_dropped_table [of s h e] mset_entries_erase [of h "mp_transactions s"]
  by (auto simp: pool_weak_def intro: subset_mset.order_trans)

text \<open>Entering a transaction under a nonce that no pooled transaction has.\<close>

lemma entered_table:
  assumes t: "pool_table s" and free: "\<And>j. \<not> entry_at s (tx_from tx) (tx_nonce tx) j"
    and e: "en_transaction e = tx"
    and u: "mp_transactions u = um_insert (tx_hash tx) e (mp_transactions s)"
      "mp_account_nonces u = mp_account_nonces (update_account_nonce (tx_from tx) (tx_nonce tx) (tx_hash tx) s)"
  shows "pool_table u"
proof -
  note d = pool_tableD(1,2) [OF t]
  have idx: "nonce_index u b k = (if b = tx_from tx \<and> k = tx_nonce tx then Some (tx_hash tx) else nonce_index s b k)" for b k
    using nonce_frame(2) [OF u(2)] nonce_index_update [OF d(2)] by simp
  have "nonce_index u b k = Some j" if "entry_at u b k j" for b k j
  proof (cases "j = tx_hash tx")
    case True
    then show ?thesis using that d(1) e idx by (auto simp: entry_at_def u(1) um.lookup_insert)
  next
    case False
    then have "entry_at s b k j" using that d(1) by (auto simp: entry_at_def u(1) um.lookup_insert)
    then show ?thesis using free pool_tableD(4) [OF t] idx by auto
  qed
  moreover have "nonce_wf u" using nonce_frame(1) [OF u(2)] update_account_nonce_wf [OF d(2)] by simp
  ultimately show ?thesis
    using d(1) pool_tableD(3) [OF t] e by (auto simp: pool_table_def u(1) um.invar_insert um.lookup_insert split: if_splits)
qed

lemma accepted_no_entry:
  assumes "pool_table s" "mp_validate_transaction s tx"
  shows "\<not> entry_at s (tx_from tx) (tx_nonce tx) j"
proof
  assume "entry_at s (tx_from tx) (tx_nonce tx) j"
  then have "nonce_index s (tx_from tx) (tx_nonce tx) = Some j" by (rule pool_tableD(4) [OF assms(1)])
  then obtain n where "get_account_nonce (tx_from tx) s = Some n" "tx_nonce tx \<le> n"
    using get_account_nonce_greatest [OF pool_tableD(2) [OF assms(1)]] by blast
  then show False using assms(2) by (simp add: mp_validate_transaction_def mp_validate_nonce_def)
qed

subsection \<open>The calls\<close>

lemma mp_remove_weak:
  assumes "pool_weak s" "mp_remove_transaction True held h s = Done (r, s')"
  shows "pool_weak s' \<and> mp_transactions s' = um_erase h (mp_transactions s)"
proof (cases "um_lookup (mp_transactions s) h")
  case None
  then have "um_erase h (mp_transactions s) = mp_transactions s"
    by (auto simp: um_erase_filter um_lookup_None filter_id_conv image_iff)
  then show ?thesis using assms None by (simp add: mp_remove_transaction_def)
next
  case (Some e)
  have t: "pool_table (pool_dropped h e s)" using pool_dropped_table [OF pool_weakD [OF assms(1)] Some] .
  have s': "mp_transactions s' = mp_transactions (pool_dropped h e s)"
    "mp_account_nonces s' = mp_account_nonces (pool_dropped h e s)"
    "mp_priority_queue s' = pq_build (queue_entries (mp_transactions s'))"
    using assms(2) Some by (auto simp: mp_remove_transaction_def pool_dropped_def Let_def split: if_splits)
  show ?thesis using rebuilt_weak [OF pool_table_frame [OF t s'(1,2)] s'(3)] s'(1) by simp
qed

lemma remove_each_weak:
  "pool_weak s \<Longrightarrow> remove_each True hs s = Done s' \<Longrightarrow>
   pool_weak s' \<and> mp_transactions s' = fold um_erase hs (mp_transactions s)"
proof (induction hs arbitrary: s)
  case (Cons h hs)
  obtain r s1 where s1: "mp_remove_transaction True True h s = Done (r, s1)" "remove_each True hs s1 = Done s'"
    using Cons.prems(2) by (cases "mp_remove_transaction True True h s") auto
  show ?case using mp_remove_weak [OF Cons.prems(1) s1(1)] Cons.IH [of s1] s1(2) by simp
qed simp

lemma evict_weak:
  assumes "pool_weak s" "mp_evict_low_fee_transactions True held s = Done s'"
  shows "pool_weak s' \<and> (\<exists>hs. mp_transactions s' = fold um_erase hs (mp_transactions s))"
proof (cases "s' = s")
  case True
  then show ?thesis using assms(1) by (auto intro: exI [of _ "[]"])
next
  case False
  then obtain hs where "remove_each True hs s = Done s'"
    using assms(2) by (auto simp: mp_evict_low_fee_transactions_def evict_transactions_by_fee_def Let_def split: if_splits option.splits)
  then show ?thesis using remove_each_weak [OF assms(1)] by blast
qed

lemma mp_add_weak:
  assumes w: "pool_weak s" and r: "mp_add_transaction True held clk tx s = Done (r, s')"
  shows "pool_weak s'"
proof (cases "um_lookup (mp_transactions s) (tx_hash tx) \<noteq> None \<or> \<not> tx_accepted s tx")
  case True
  then show ?thesis using assms by (simp add: mp_add_eq split: if_splits)
next
  case new: False
  then obtain s1 where s1: "(if pool_full s then mp_evict_low_fee_transactions True True s else Done s) = Done s1"
    and s': "s' = s1 \<or> s' = pool_added clk tx s1"
    using r by (cases "if pool_full s then mp_evict_low_fee_transactions True True s else Done s") (auto simp: mp_add_eq split: if_splits)
  obtain hs where e: "pool_weak s1" "mp_transactions s1 = fold um_erase hs (mp_transactions s)"
    using s1 evict_weak [OF w, of True s1] w by (cases "pool_full s") (auto intro: that [of "[]"])
  note t = pool_weakD [OF w] and t1 = pool_weakD [OF e(1)]
  note shrunk = fold_erase_lookup [OF pool_tableD(1) [OF t], of hs, folded e(2)]
  have "\<not> entry_at s1 (tx_from tx) (tx_nonce tx) j" for j
    using accepted_no_entry [OF t, of "snd (tx_calculate_hash tx)" j] new shrunk by (auto simp: entry_at_def)
  then have "pool_table (pool_added clk tx s1)"
    by (intro entered_table [OF t1, of "snd (tx_calculate_hash tx)" "entry_of clk tx"]) (simp_all add: entry_of_def make_entry_def)
  moreover have "um_lookup (mp_transactions s1) (tx_hash tx) = None" using new shrunk by (metis option.exhaust)
  ultimately have "pool_weak (pool_added clk tx s1)"
    using e(1) by (simp add: pool_weak_def um_insert_new queue_entries_def)
  then show ?thesis using s' e(1) by auto
qed

text \<open>What a replacement does: nothing, or it erases the old entry and perhaps enters the new one.\<close>

lemma mp_replace_cases:
  assumes "mp_replace_transaction relock False clk tx s = Done (r, s')"
  obtains (same) "s' = s" "r \<noteq> SUCCESS"
  | (dropped) h e where "um_lookup (mp_transactions s) h = Some e" "nonce_index s (tx_from tx) (tx_nonce tx) = Some h"
      "s' = pool_dropped h e s" "r = INVALID_TRANSACTION"
  | (replaced) h e where "um_lookup (mp_transactions s) h = Some e" "nonce_index s (tx_from tx) (tx_nonce tx) = Some h"
      "tx_accepted (pool_dropped h e s) tx" "r = SUCCESS"
      "mp_transactions s' = um_insert (tx_hash tx) (make_entry (clk 0) (clk 1) (snd (tx_calculate_hash tx)))
         (um_erase h (mp_transactions s))"
      "mp_account_nonces s' = mp_account_nonces (update_account_nonce (tx_from tx) (tx_nonce tx) (tx_hash tx) (pool_dropped h e s))"
      "mp_priority_queue s' = pq_build (queue_entries (mp_transactions s'))"
proof (cases "nonce_index s (tx_from tx) (tx_nonce tx)")
  case None
  then show ?thesis using assms same
    by (auto simp: mp_replace_transaction_def split_beta Let_def nonce_index_def split: option.splits)
next
  case (Some h)
  then obtain m where m: "um_lookup (mp_account_nonces s) (tx_from tx) = Some m" "um_lookup m (tx_nonce tx) = Some h"
    by (auto simp: nonce_index_def split: option.splits)
  let ?new = "snd (tx_calculate_hash tx)"
  show ?thesis
  proof (cases "um_lookup (mp_transactions s) h")
    case None
    then show ?thesis using assms same m by (auto simp: mp_replace_transaction_def split_beta Let_def)
  next
    case e: (Some e)
    have eq: "mp_replace_transaction relock False clk tx s =
      (if check_replacement_policy (en_transaction e) ?new \<noteq> SUCCESS then Done (check_replacement_policy (en_transaction e) ?new, s)
       else if \<not> tx_accepted (pool_dropped h e s) tx then Done (INVALID_TRANSACTION, pool_dropped h e s)
       else Done (SUCCESS, rebuild_priority_queue ((update_account_nonce (tx_from tx) (tx_nonce tx) (tx_hash tx) (pool_dropped h e s))\<lparr>
         mp_transactions := um_insert (tx_hash tx) (make_entry (clk 0) (clk 1) ?new) (um_erase h (mp_transactions s))\<rparr>)))"
      using m e by (simp add: mp_replace_transaction_def split_beta Let_def pool_dropped_def)
    show ?thesis
    proof (cases "check_replacement_policy (en_transaction e) ?new = SUCCESS")
      case False
      then show ?thesis using assms same eq by auto
    next
      case True
      then show ?thesis using assms dropped [OF e Some] replaced [OF e Some] eq by (cases "tx_accepted (pool_dropped h e s) tx") auto
    qed
  qed
qed

lemma mp_replace_weak:
  assumes w: "pool_weak s" and r: "mp_replace_transaction relock False clk tx s = Done (r, s')"
  shows "pool_weak s'"
proof (rule mp_replace_cases [OF r])
  fix h e
  assume "um_lookup (mp_transactions s) h = Some e" "s' = pool_dropped h e s"
  then show ?thesis using pool_dropped_weak [OF w] by simp
next
  fix h e
  assume e: "um_lookup (mp_transactions s) h = Some e" and ok: "tx_accepted (pool_dropped h e s) tx"
    and s': "mp_transactions s' = um_insert (tx_hash tx) (make_entry (clk 0) (clk 1) (snd (tx_calculate_hash tx)))
         (um_erase h (mp_transactions s))"
      "mp_account_nonces s' = mp_account_nonces (update_account_nonce (tx_from tx) (tx_nonce tx) (tx_hash tx) (pool_dropped h e s))"
      "mp_priority_queue s' = pq_build (queue_entries (mp_transactions s'))"
  note t = pool_dropped_table [OF pool_weakD [OF w] e]
  have "pool_table s'"
    using accepted_no_entry [OF t ok] s'(1,2)
    by (intro entered_table [OF t, of "snd (tx_calculate_hash tx)" "make_entry (clk 0) (clk 1) (snd (tx_calculate_hash tx))"])
      (simp_all add: make_entry_def)
  then show ?thesis using s'(3) by (rule rebuilt_weak)
qed (use w in simp)

lemma mp_replace_inv:
  assumes inv: "pool_inv s" and r: "mp_replace_transaction relock False clk tx s = Done (SUCCESS, s')"
    and fresh: "um_lookup (mp_transactions s) (tx_hash tx) = None
      \<or> nonce_index s (tx_from tx) (tx_nonce tx) = Some (tx_hash tx)"
  shows "pool_inv s'"
proof -
  let ?tx = "snd (tx_calculate_hash tx)"
  obtain m h e where m: "um_lookup (mp_account_nonces s) (tx_from tx) = Some m"
    and h: "um_lookup m (tx_nonce tx) = Some h" and e: "um_lookup (mp_transactions s) h = Some e"
    using r by (auto simp: mp_replace_transaction_def split_beta Let_def split: option.splits)
  have idx: "nonce_index s (tx_from tx) (tx_nonce tx) = Some h" using m h by (simp add: nonce_index_def)
  then have key: "tx_from (en_transaction e) = tx_from tx" "tx_nonce (en_transaction e) = tx_nonce tx"
    using pool_invD(4) [OF inv] e by (auto simp: entry_at_def)
  obtain q s2 where q: "mp_remove_transaction True False h s = Done (q, s2)" "pool_inv s2"
    "mp_transactions s2 = um_erase h (mp_transactions s)"
    using mp_remove_inv [OF inv] by blast
  have n2: "mp_account_nonces s2 = mp_account_nonces (remove_account_nonce (tx_from tx) (tx_nonce tx) s)"
    using q(1) e key by (auto simp: mp_remove_transaction_def Let_def split: if_splits)
  have free: "nonce_index s2 (tx_from tx) (tx_nonce tx) = None"
    using nonce_frame(2) [OF n2] nonce_index_remove [OF pool_invD(2) [OF inv]] by simp
  have new: "um_lookup (mp_transactions s2) (tx_hash tx) = None"
    using fresh idx pool_invD(1) [OF inv] by (auto simp: q(3) um.lookup_erase)
  have eq: "mp_account_nonces (update_account_nonce a n k t) = mp_account_nonces (update_account_nonce a n k u)"
    if "mp_account_nonces t = mp_account_nonces u" for a n k t u
    using that by (simp add: update_account_nonce_def Let_def)
  show ?thesis
  proof (rule mp_insert_inv [OF q(2), of ?tx "make_entry (clk 0) (clk 1) ?tx"])
    show "mp_transactions s' = um_insert (tx_hash ?tx) (make_entry (clk 0) (clk 1) ?tx) (mp_transactions s2)"
      "mp_account_nonces s' = mp_account_nonces (update_account_nonce (tx_from ?tx) (tx_nonce ?tx) (tx_hash ?tx) s2)"
      "mp_priority_queue s' = pq_build (queue_entries (mp_transactions s'))"
      using r m h e key q(3) n2
      by (auto simp: mp_replace_transaction_def split_beta Let_def split: if_splits intro!: eq)
  qed (use new free in \<open>simp_all add: make_entry_def\<close>)
qed

lemma evict_by_age_inv:
  "pool_inv s \<Longrightarrow> mp_evict_expired_transactions True held now s = Done s' \<Longrightarrow> pool_inv s'"
  using remove_each_inv [of s "map fst (filter (\<lambda>(h, e). is_expired e now 3600) (mp_transactions s))"]
  by (auto simp: mp_evict_expired_transactions_def evict_transactions_by_age_def)

lemma expire_any_mutex:
  "mp_evict_expired_transactions relock False now s = Done s' \<Longrightarrow> mp_evict_expired_transactions True False now s = Done s'"
  by (auto simp: mp_evict_expired_transactions_def evict_transactions_by_age_def intro: remove_each_any_mutex)

lemma expire_weak:
  assumes "pool_weak s" "mp_evict_expired_transactions True False now s = Done s'"
  shows "pool_weak s' \<and> (\<exists>hs. mp_transactions s' = fold um_erase hs (mp_transactions s))"
  using assms(2) remove_each_weak [OF assms(1)]
  by (auto simp: mp_evict_expired_transactions_def evict_transactions_by_age_def)

subsection \<open>Reachable pools\<close>

text \<open>
  The pools a client reaches through the public methods, for either kind of mutex, and whether each is tidy: a
  replacement keeps a pool tidy when it changes nothing, or when it succeeds and its hash is not that of
  another pooled transaction. A call that locks itself does not return and reaches nothing.
\<close>

definition tidy_replacement :: "Transaction \<Rightarrow> MempoolImpl \<Rightarrow> MempoolError \<times> MempoolImpl \<Rightarrow> bool" where
  "tidy_replacement tx s x \<longleftrightarrow> snd x = s \<or> fst x = SUCCESS \<and>
     (um_lookup (mp_transactions s) (tx_hash tx) = None \<or> nonce_index s (tx_from tx) (tx_nonce tx) = Some (tx_hash tx))"

inductive reachable_pool :: "bool \<Rightarrow> bool \<Rightarrow> MempoolImpl \<Rightarrow> bool" for relock where
  new: "reachable_pool relock True (make_mempool config)"
| config: "reachable_pool relock tidy s \<Longrightarrow> mp_set_config relock False config s = Done s' \<Longrightarrow> reachable_pool relock tidy s'"
| on_added: "reachable_pool relock tidy s \<Longrightarrow> mp_set_added_callback relock False c s = Done s' \<Longrightarrow> reachable_pool relock tidy s'"
| on_removed: "reachable_pool relock tidy s \<Longrightarrow> mp_set_removed_callback relock False c s = Done s' \<Longrightarrow>
    reachable_pool relock tidy s'"
| add: "reachable_pool relock tidy s \<Longrightarrow> mp_add_transaction relock False clk tx s = Done (r, s') \<Longrightarrow> reachable_pool relock tidy s'"
| remove: "reachable_pool relock tidy s \<Longrightarrow> mp_remove_transaction relock False h s = Done (r, s') \<Longrightarrow> reachable_pool relock tidy s'"
| replace: "reachable_pool relock tidy s \<Longrightarrow> mp_replace_transaction relock False clk tx s = Done x \<Longrightarrow>
    reachable_pool relock (tidy \<and> tidy_replacement tx s x) (snd x)"
| expire: "reachable_pool relock tidy s \<Longrightarrow> mp_evict_expired_transactions relock False now s = Done s' \<Longrightarrow>
    reachable_pool relock tidy s'"
| evict: "reachable_pool relock tidy s \<Longrightarrow> mp_evict_low_fee_transactions relock False s = Done s' \<Longrightarrow>
    reachable_pool relock tidy s'"
| clear: "reachable_pool relock tidy s \<Longrightarrow> mp_clear relock False s = Done s' \<Longrightarrow> reachable_pool relock True s'"

lemma mp_clear_inv: "mp_clear relock False s = Done s' \<Longrightarrow> pool_inv s'"
  by (auto simp: mp_clear_def pool_inv_def nonce_wf_def nonce_index_def entry_at_def um.lookup_empty
      queue_entries_def pq_build_def)

lemma reachable_pool_facts: "reachable_pool relock tidy s \<Longrightarrow> pool_weak s \<and> (tidy \<longrightarrow> pool_inv s)"
proof (induction rule: reachable_pool.induct)
  case (new config)
  show ?case using pool_inv_weak by simp
next
  case (config tidy s config s')
  then show ?case by (auto simp: mp_set_config_def intro: pool_inv_frame pool_weak_frame)
next
  case (on_added tidy s c s')
  then show ?case by (auto simp: mp_set_added_callback_def intro: pool_inv_frame pool_weak_frame)
next
  case (on_removed tidy s c s')
  then show ?case by (auto simp: mp_set_removed_callback_def intro: pool_inv_frame pool_weak_frame)
next
  case (add tidy s clk tx r s')
  then show ?case using add_any_mutex [OF add(2)] mp_add_weak mp_add_inv by blast
next
  case (remove tidy s h r s')
  then show ?case using remove_any_mutex [OF remove(2)] mp_remove_weak [of s False h r s'] mp_remove_inv [of s False h] by auto
next
  case (replace tidy s clk tx x)
  obtain r s' where x: "x = (r, s')" by (cases x)
  have "pool_inv s'" if "tidy \<and> tidy_replacement tx s x"
    using that replace mp_replace_inv [of s relock clk tx s'] by (auto simp: x tidy_replacement_def)
  then show ?case using replace mp_replace_weak [of s relock clk tx r s'] by (auto simp: x)
next
  case (expire tidy s now s')
  then show ?case using expire_any_mutex [OF expire(2)] expire_weak evict_by_age_inv by blast
next
  case (evict tidy s s')
  then show ?case using evict_any_mutex [OF evict(2)] evict_weak [of s False s'] evict_low_fee_inv [of s False] by auto
next
  case (clear tidy s s')
  then show ?case using mp_clear_inv pool_inv_weak by blast
qed

lemmas reachable_pool_weak = reachable_pool_facts [THEN conjunct1]
lemmas reachable_pool_inv = reachable_pool_facts [of _ True, simplified, THEN conjunct2]

text \<open>With \<open>std::shared_mutex\<close> nothing ever enters the pool.\<close>

lemma shared_mutex_pool_empty: "reachable_pool False tidy s \<Longrightarrow> mp_transactions s = []"
proof (induction rule: reachable_pool.induct)
  case (add tidy s clk tx r s')
  then show ?case by (simp add: add_transaction_outcome split: if_splits)
next
  case (remove tidy s h r s')
  then show ?case by (simp add: mp_remove_transaction_def um.lookup_empty)
next
  case (replace tidy s clk tx x)
  obtain r s' where x: "x = (r, s')" by (cases x)
  from replace(2) have "mp_replace_transaction False False clk tx s = Done (r, s')" by (simp add: x)
  then show ?case using replace(3) by (cases rule: mp_replace_cases) (simp_all add: x um.lookup_empty)
next
  case (expire tidy s now s')
  then show ?case by (simp add: mp_evict_expired_transactions_def evict_transactions_by_age_def)
next
  case (evict tidy s s')
  then show ?case
    by (auto simp: mp_evict_low_fee_transactions_def evict_transactions_by_fee_def select_transactions_to_evict_def Let_def
        split: if_splits option.splits)
qed (auto simp: mp_set_config_def mp_set_added_callback_def mp_set_removed_callback_def mp_clear_def)

subsection \<open>Selection by score\<close>

lemma pq_build_sorted: "pq_build xs = rev (sort xs)"
proof (rule descending_unique)
  show "descending (rev (sort xs))" by (simp add: sorted_wrt_rev)
qed (simp_all add: pq_build_facts)

lemma top_loop_take:
  "\<forall>p \<in> set q. um_lookup txs (snd p) \<noteq> None \<Longrightarrow>
   top_loop txs q n = map (\<lambda>p. en_transaction (the (um_lookup txs (snd p)))) (take n q)"
  by (induction txs q n rule: top_loop.induct) (auto simp: take_Cons split: nat.splits)

lemma queue_lookup: "pool_inv s \<Longrightarrow> p \<in> set (mp_priority_queue s) \<Longrightarrow>
   \<exists>e. um_lookup (mp_transactions s) (snd p) = Some e \<and> fst p = calculate_score (en_priority e)"
  using pq_build_facts(2) [of "queue_entries (mp_transactions s)"] pool_invD(1,5) [of s]
  by (fastforce simp: queue_entries_def um_lookup_in dest!: arg_cong [of _ _ set_mset])

text \<open>The queue entries whose transactions are pooled, in the order of the queue.\<close>

definition queued :: "MempoolImpl \<Rightarrow> (f64 \<times> Hash) list" where
  "queued s = filter (\<lambda>p. um_lookup (mp_transactions s) (snd p) \<noteq> None) (mp_priority_queue s)"

abbreviation queued_tx :: "MempoolImpl \<Rightarrow> f64 \<times> Hash \<Rightarrow> Transaction" where
  "queued_tx s p \<equiv> en_transaction (the (um_lookup (mp_transactions s) (snd p)))"

lemma loops_0 [simp]: "top_loop txs q 0 = []" "block_loop txs q 0 g used = []"
  by (cases q; simp)+

lemma top_loop_filter: "top_loop txs q n = top_loop txs (filter (\<lambda>p. um_lookup txs (snd p) \<noteq> None) q) n"
  by (induction txs q n rule: top_loop.induct) (auto split: option.splits)

lemma top_queued: "mp_get_top_transactions relock False n s = Done (map (queued_tx s) (take n (queued s)))"
  using top_loop_filter [of "mp_transactions s" "mp_priority_queue s" n] top_loop_take [of "queued s" "mp_transactions s" n]
  by (simp add: mp_get_top_transactions_def queued_def)

lemma queued_facts:
  assumes "pool_weak s"
  shows "descending (queued s)" "(h, e) \<in> set (mp_transactions s) \<Longrightarrow> (calculate_score (en_priority e), h) \<in> set (queued s)"
    "pool_inv s \<Longrightarrow> queued s = rev (sort (map (\<lambda>(h, e). (calculate_score (en_priority e), h)) (mp_transactions s)))"
proof -
  show "descending (queued s)" using assms by (simp add: queued_def pool_weak_def sorted_wrt_filter)
  assume he: "(h, e) \<in> set (mp_transactions s)"
  then have "(calculate_score (en_priority e), h) \<in> set (queue_entries (mp_transactions s))" by (force simp: queue_entries_def)
  then have "(calculate_score (en_priority e), h) \<in> set (mp_priority_queue s)"
    using assms by (metis pool_weak_def mset_subset_eqD set_mset_mset)
  moreover have "um_lookup (mp_transactions s) h \<noteq> None" using he pool_tableD(1) [OF pool_weakD [OF assms]] um_lookup_in by force
  ultimately show "(calculate_score (en_priority e), h) \<in> set (queued s)" by (simp add: queued_def)
next
  assume inv: "pool_inv s"
  have "queued s = mp_priority_queue s" using queue_lookup [OF inv] by (auto simp: queued_def filter_id_conv)
  then show "queued s = rev (sort (map (\<lambda>(h, e). (calculate_score (en_priority e), h)) (mp_transactions s)))"
    using pool_invD(5) [OF inv] by (simp add: pq_build_sorted queue_entries_def)
qed

text \<open>
  C3. In every pool that any sequence of public calls reaches, with either kind of mutex, every pooled transaction is
  found in the nonce index under its sender and nonce and stands in the queue with its score, and
  \<open>get_top_transactions\<close> returns pooled transactions in descending order of their queue entries. As long as
  no replacement was refused after it had erased the old transaction, and none had the hash of another
  pooled transaction, since the pool was new or last cleared, index and table agree both ways and the result is
  exactly the highest scored transactions, each once, as many as asked for or as there are.
\<close>

theorem get_top_transactions_sorted:
  assumes "reachable_pool relock tidy s"
  shows "(\<exists>q. descending q \<and> set q \<subseteq> set (mp_priority_queue s)
      \<and> (\<forall>(h, e) \<in> set (mp_transactions s). (calculate_score (en_priority e), h) \<in> set q)
      \<and> (\<forall>p \<in> set q. um_lookup (mp_transactions s) (snd p) \<noteq> None)
      \<and> mp_get_top_transactions relock False n s
          = Done (map (\<lambda>p. en_transaction (the (um_lookup (mp_transactions s) (snd p)))) (take n q)))
    \<and> (\<forall>h e. um_lookup (mp_transactions s) h = Some e \<longrightarrow>
         nonce_index s (tx_from (en_transaction e)) (tx_nonce (en_transaction e)) = Some h)
    \<and> (tidy \<longrightarrow> mp_get_top_transactions relock False n s =
           Done (map (\<lambda>p. en_transaction (the (um_lookup (mp_transactions s) (snd p))))
             (take n (rev (sort (map (\<lambda>(h, e). (calculate_score (en_priority e), h)) (mp_transactions s))))))
         \<and> (\<forall>a k h. nonce_index s a k = Some h \<longleftrightarrow> (\<exists>e. um_lookup (mp_transactions s) h = Some e
              \<and> tx_from (en_transaction e) = a \<and> tx_nonce (en_transaction e) = k)))"
    (is "?queue \<and> ?index \<and> (tidy \<longrightarrow> ?tidy)")
proof -
  have w: "pool_weak s" using assms by (rule reachable_pool_weak)
  have ?queue
    using queued_facts(1,2) [OF w] top_queued [of relock n s]
    by (intro exI [of _ "queued s"]) (auto simp: queued_def)
  moreover have ?index using pool_tableD(4) [OF pool_weakD [OF w]] by (auto simp: entry_at_def)
  moreover have ?tidy if tidy
  proof -
    have inv: "pool_inv s" using assms that reachable_pool_inv [of relock s] by simp
    then show ?thesis
      using top_queued [of relock n s] queued_facts(3) [OF w inv] pool_invD(4) [OF inv] by (simp add: entry_at_def)
  qed
  ultimately show ?thesis by blast
qed

theorem get_top_transactions_sorted_witness:
  "\<exists>s. mp_add_transaction True False (\<lambda>i. 7) pool_tx (make_mempool default_config) = Done (SUCCESS, s)
    \<and> mp_get_top_transactions True False 5 s = Done [snd (tx_calculate_hash pool_tx)]"
proof -
  obtain s where s: "mp_add_transaction True False (\<lambda>i. 7) pool_tx (make_mempool default_config) = Done (SUCCESS, s)"
    "mp_transactions s = [(tx_hash pool_tx, make_entry 7 7 (snd (tx_calculate_hash pool_tx)))]"
    using pool_tx_added by blast
  have "reachable_pool True True s" using reachable_pool.add [OF reachable_pool.new s(1)] .
  from get_top_transactions_sorted [OF this, of 5] s show ?thesis
    by (auto simp: um_lookup_def make_entry_def)
qed

text \<open>
  The condition matters: a replacement that is refused for its nonce leaves the old queue entry behind. A later transaction
  with the same hash, that is the same sender and almost the same recipient, is then returned twice.
\<close>

lemma refused_replacement_duplicates:
  assumes inv: "pool_inv s" and h: "um_lookup (mp_transactions s) h = Some e"
    and add: "mp_add_transaction True False clk tx (pool_dropped h e s) = Done (SUCCESS, s2)"
    and room: "\<not> pool_full (pool_dropped h e s)" and same: "tx_hash tx = h" and n: "length (mp_transactions s2) < n"
  shows "\<exists>txs. mp_get_top_transactions relock False n s2 = Done txs \<and> length txs = Suc (length (mp_transactions s2))"
proof -
  note d = pool_invD(1) [OF inv]
  have s2: "s2 = pool_added clk tx (pool_dropped h e s)" using add room by (auto simp: mp_add_eq split: if_splits)
  have "mset (mp_priority_queue s2) = add_mset (calculate_score (en_priority (entry_of clk tx)), h) (mset (queue_entries (mp_transactions s)))"
    using pool_invD(5) [OF inv] pq_build_facts(2) by (simp add: s2 same)
  from arg_cong [OF this, of size] have len: "length (mp_priority_queue s2) = Suc (length (mp_transactions s))"
    by (simp add: queue_entries_def)
  have known: "um_lookup (mp_transactions s2) (snd p) \<noteq> None" if "p \<in> set (mp_priority_queue s2)" for p
  proof (cases "snd p = h")
    case False
    then have "p \<in> set (mp_priority_queue s)" using that by (auto simp: s2 same)
    then show ?thesis using queue_lookup [OF inv, of p] False d by (auto simp: s2 same um.lookup_insert um.lookup_erase um.invar_erase)
  qed (use d in \<open>simp add: s2 same um.lookup_insert um.invar_erase\<close>)
  have "Suc (length (um_erase h (mp_transactions s))) = length (mp_transactions s)" using length_um_erase [OF d] h by simp
  then have "length (mp_transactions s2) = length (mp_transactions s)"
    using d by (simp add: s2 same length_um_insert um.lookup_erase)
  then show ?thesis using top_queued [of relock n s2] known len n by (simp add: queued_def filter_id_conv)
qed

subsection \<open>Selection for a block\<close>

lemma block_loop_facts:
  assumes "\<forall>p \<in> set q. um_lookup txs (snd p) \<noteq> None"
    and "\<forall>p \<in> set q. unat (tx_gas_limit (en_transaction (the (um_lookup txs (snd p))))) + unat g < 2 ^ 64"
    and "used \<le> g"
  shows "length (block_loop txs q n g used) \<le> n
    \<and> subseq (block_loop txs q n g used) (map (\<lambda>p. en_transaction (the (um_lookup txs (snd p)))) q)
    \<and> unat used + sum_list (map (\<lambda>t. unat (tx_gas_limit t)) (block_loop txs q n g used)) \<le> unat g"
  using assms
proof (induction txs q n g used rule: block_loop.induct)
  case (1 txs n g used)
  then show ?case by (simp add: word_le_nat_alt)
next
  case (2 txs p q n g used)
  obtain e where e: "um_lookup txs (snd p) = Some e" using 2(4) by auto
  let ?tx = "en_transaction e"
  have ex: "unat (used + tx_gas_limit ?tx) = unat used + unat (tx_gas_limit ?tx)"
    using 2(5,6) e by (intro unat_plus_exact) (simp add: word_le_nat_alt)
  show ?case
  proof (cases "n = 0")
    case True
    then show ?thesis using 2(6) by (simp add: word_le_nat_alt)
  next
    case n: False
    show ?thesis
    proof (cases "used + tx_gas_limit ?tx \<le> g")
      case True
      then show ?thesis using 2(2) [OF n e refl True] 2(4-6) n e ex by (auto simp: Let_def)
    next
      case False
      then show ?thesis using 2(3) [OF n e refl False] 2(4-6) n e by (auto simp: Let_def)
    qed
  qed
qed

lemma block_loop_filter:
  "block_loop txs q n g used = block_loop txs (filter (\<lambda>p. um_lookup txs (snd p) \<noteq> None) q) n g used"
  by (induction txs q n g used rule: block_loop.induct) (auto simp: Let_def split: option.splits)

lemma block_loop_wrapped_gas:
  "used \<le> g \<Longrightarrow> used + sum_list (map tx_gas_limit (block_loop txs q n g used)) \<le> g"
  by (induction txs q n g used rule: block_loop.induct) (auto simp: Let_def add.assoc split: option.splits)

lemma block_loop_length: "length (block_loop txs q n g used) \<le> n"
proof (induction q arbitrary: n used)
  case (Cons p q)
  then show ?case by (cases n) (auto simp: Let_def split: option.splits)
qed simp

lemma block_loop_subseq:
  "\<forall>p \<in> set q. um_lookup txs (snd p) \<noteq> None \<Longrightarrow>
   subseq (block_loop txs q n g used) (map (\<lambda>p. en_transaction (the (um_lookup txs (snd p)))) q)"
  by (induction txs q n g used rule: block_loop.induct) (auto simp: Let_def split: option.splits)

lemma block_queued:
  "mp_get_transactions_for_block relock False n g s = Done (block_loop (mp_transactions s) (queued s) n g 0)"
  using block_loop_filter [of "mp_transactions s" "mp_priority_queue s" n g 0]
  by (simp add: mp_get_transactions_for_block_def queued_def)

lemma block_selection:
  assumes "pool_weak s"
  shows "\<exists>txs. mp_get_transactions_for_block relock False n g s = Done txs \<and> length txs \<le> n
    \<and> set txs \<subseteq> en_transaction ` snd ` set (mp_transactions s)
    \<and> ((\<forall>(h, e) \<in> set (mp_transactions s). unat (tx_gas_limit (en_transaction e)) + unat g < 2 ^ 64) \<longrightarrow>
         sum_list (map (\<lambda>t. unat (tx_gas_limit t)) txs) \<le> unat g)"
proof -
  let ?txs = "block_loop (mp_transactions s) (queued s) n g 0"
  have known: "\<forall>p \<in> set (queued s). um_lookup (mp_transactions s) (snd p) \<noteq> None" by (simp add: queued_def)
  note in_set = um_lookup_in [OF pool_tableD(1) [OF pool_weakD [OF assms]]]
  have pooled: "queued_tx s p \<in> en_transaction ` snd ` set (mp_transactions s)" if "p \<in> set (queued s)" for p
  proof -
    from known that obtain e where e: "um_lookup (mp_transactions s) (snd p) = Some e" by blast
    then have "(snd p, e) \<in> set (mp_transactions s)" using in_set by blast
    then show ?thesis using e by force
  qed
  have "set ?txs \<subseteq> queued_tx s ` set (queued s)"
  proof
    fix t assume "t \<in> set ?txs"
    from list_emb_set [OF block_loop_subseq [OF known, of n g 0] this] obtain u
      where "u \<in> set (map (queued_tx s) (queued s))" "t = u" by blast
    then show "t \<in> queued_tx s ` set (queued s)" by simp
  qed
  then have "set ?txs \<subseteq> en_transaction ` snd ` set (mp_transactions s)" using pooled by blast
  moreover have "sum_list (map (\<lambda>t. unat (tx_gas_limit t)) ?txs) \<le> unat g"
    if g: "\<forall>(h, e) \<in> set (mp_transactions s). unat (tx_gas_limit (en_transaction e)) + unat g < 2 ^ 64"
  proof -
    have "\<forall>t \<in> en_transaction ` snd ` set (mp_transactions s). unat (tx_gas_limit t) + unat g < 2 ^ 64" using g by auto
    then have "\<forall>p \<in> set (queued s). unat (tx_gas_limit (queued_tx s p)) + unat g < 2 ^ 64" using pooled by blast
    from block_loop_facts [OF known this, of 0 n] show ?thesis by simp
  qed
  ultimately show ?thesis by (intro exI [of _ ?txs] conjI impI block_queued block_loop_length)
qed

text \<open>
  C5. \<open>get_transactions_for_block\<close> on any pool that public calls reach, with either kind of mutex: it returns at most
  \<open>max_count\<close> pooled transactions, in descending order of their queue entries; their gas limits, added up in 64 bits,
  are within \<open>max_gas_limit\<close>. The true sum is within \<open>max_gas_limit\<close> when no gas limit of a pooled transaction plus
  \<open>max_gas_limit\<close> exceeds 64 bits. In a tidy pool they are in the order of their scores, each at most once.
\<close>

theorem get_transactions_for_block_bounds:
  assumes "reachable_pool relock tidy s"
  shows "\<exists>txs. mp_get_transactions_for_block relock False n g s = Done txs \<and> length txs \<le> n
    \<and> (\<exists>q. descending q \<and> set q \<subseteq> set (mp_priority_queue s) \<and> (\<forall>p \<in> set q. um_lookup (mp_transactions s) (snd p) \<noteq> None)
         \<and> subseq txs (map (\<lambda>p. en_transaction (the (um_lookup (mp_transactions s) (snd p)))) q))
    \<and> sum_list (map tx_gas_limit txs) \<le> g
    \<and> ((\<forall>(h, e) \<in> set (mp_transactions s). unat (tx_gas_limit (en_transaction e)) + unat g < 2 ^ 64) \<longrightarrow>
         sum_list (map (\<lambda>t. unat (tx_gas_limit t)) txs) \<le> unat g)
    \<and> (tidy \<longrightarrow> subseq txs (map (\<lambda>p. en_transaction (the (um_lookup (mp_transactions s) (snd p))))
         (rev (sort (map (\<lambda>(h, e). (calculate_score (en_priority e), h)) (mp_transactions s))))))"
proof -
  have w: "pool_weak s" using assms by (rule reachable_pool_weak)
  let ?txs = "block_loop (mp_transactions s) (queued s) n g 0"
  have known: "\<forall>p \<in> set (queued s). um_lookup (mp_transactions s) (snd p) \<noteq> None" by (simp add: queued_def)
  note sub = block_loop_subseq [OF known, of n g 0]
  have gas: "sum_list (map (\<lambda>t. unat (tx_gas_limit t)) ?txs) \<le> unat g"
    if "\<forall>(h, e) \<in> set (mp_transactions s). unat (tx_gas_limit (en_transaction e)) + unat g < 2 ^ 64"
    using block_selection [OF w, of relock n g] block_queued [of relock n g s] that by simp
  have "subseq ?txs (map (queued_tx s) (rev (sort (map (\<lambda>(h, e). (calculate_score (en_priority e), h)) (mp_transactions s)))))"
    if tidy
    using sub queued_facts(3) [OF w] reachable_pool_inv [of relock s] assms that by simp
  moreover have "\<exists>q. descending q \<and> set q \<subseteq> set (mp_priority_queue s) \<and> (\<forall>p \<in> set q. um_lookup (mp_transactions s) (snd p) \<noteq> None)
      \<and> subseq ?txs (map (queued_tx s) q)"
    by (rule exI [of _ "queued s"]) (intro conjI sub known queued_facts(1) [OF w], simp add: queued_def)
  moreover have "sum_list (map tx_gas_limit ?txs) \<le> g"
    using block_loop_wrapped_gas [of 0 g "mp_transactions s" "queued s" n] by simp
  ultimately show ?thesis
    using gas by (intro exI [of _ ?txs] conjI impI block_queued block_loop_length) simp_all
qed

theorem get_transactions_for_block_bounds_witness:
  "\<exists>s txs. mp_add_transaction True False (\<lambda>i. 7) pool_tx (make_mempool default_config) = Done (SUCCESS, s)
    \<and> mp_get_transactions_for_block True False 10 30000 s = Done txs
    \<and> sum_list (map (\<lambda>t. unat (tx_gas_limit t)) txs) \<le> 30000"
proof -
  obtain s where s: "mp_add_transaction True False (\<lambda>i. 7) pool_tx (make_mempool default_config) = Done (SUCCESS, s)"
    "mp_transactions s = [(tx_hash pool_tx, make_entry 7 7 (snd (tx_calculate_hash pool_tx)))]"
    using pool_tx_added by blast
  have r: "reachable_pool True True s" using reachable_pool.add [OF reachable_pool.new s(1)] .
  have "tx_gas_limit (snd (tx_calculate_hash pool_tx)) = 21000"
    by (simp add: tx_gas_limit_def tx_calculate_hash_keeps pool_tx_def make_transaction_def)
  then show ?thesis
    using get_transactions_for_block_bounds [OF r, of 10 30000] s by (auto simp: make_entry_def)
qed

text \<open>
  Without that proviso the sum wraps: after a transaction of 21000 gas, one of \<open>2 ^ 64 - 1\<close> gas
  still fits under any limit.
\<close>

lemma block_selection_wraps:
  "block_loop [(h1, make_entry 0 0 pool_tx1), (h2, make_entry 0 0 (tx_set_gas_limit (- 1) pool_tx2))]
     [(Fin 2, h1), (Fin 1, h2)] 10 30000 0 = [pool_tx1, tx_set_gas_limit (- 1) pool_tx2]"
  if "h1 \<noteq> h2"
proof -
  have "tx_gas_limit (tx_set_gas_limit (- 1) pool_tx2) = - 1" by (simp add: tx_gas_limit_def tx_setter_defs)
  then show ?thesis using that by (simp add: um_lookup_def make_entry_def)
qed

end
