(* ===== verification/Core_Timestamp.thy ===== *)
theory Core_Timestamp
  imports Core_Amount
begin

text \<open>
  \<open>core::Timestamp\<close> (modules/core/src/timestamp.cpp): seconds since the epoch in a
  \<open>uint64_t\<close>. \<open>std::chrono::seconds\<close> counts in a signed 64-bit integer, so a duration is a
  \<open>u64\<close> read with \<open>sint\<close>. A \<open>system_clock::time_point\<close> is its signed tick count; the number of
  ticks per second and the current time are parameters. The calendar is in
  Timestamp_Iso.
\<close>

subsection \<open>The class\<close>

datatype Timestamp = Timestamp (seconds: u64)

instantiation Timestamp :: linorder
begin

definition less_eq_Timestamp :: "Timestamp \<Rightarrow> Timestamp \<Rightarrow> bool" where
  "less_eq_Timestamp a b \<longleftrightarrow> seconds a \<le> seconds b"

definition less_Timestamp :: "Timestamp \<Rightarrow> Timestamp \<Rightarrow> bool" where
  "less_Timestamp a b \<longleftrightarrow> seconds a < seconds b"

instance
  by standard (auto simp: less_eq_Timestamp_def less_Timestamp_def Timestamp.expand)

end

abbreviation TS_MIN_VALUE :: u64 where "TS_MIN_VALUE \<equiv> 0"
abbreviation TS_MAX_VALUE :: u64 where "TS_MAX_VALUE \<equiv> - 1"

definition is_valid_timestamp :: "u64 \<Rightarrow> bool" where
  "is_valid_timestamp s = (TS_MIN_VALUE \<le> s \<and> s \<le> TS_MAX_VALUE)"

definition validate_timestamp :: "u64 \<Rightarrow> unit throws" where
  "validate_timestamp s =
     (if \<not> is_valid_timestamp s then Inl (Out_of_range ''Invalid timestamp value'') else Inr ())"

definition make_timestamp :: "u64 \<Rightarrow> Timestamp throws" where
  "make_timestamp s = bind_exn (validate_timestamp s) (\<lambda>_. Inr (Timestamp s))"

text \<open>\<open>duration_cast\<close> to seconds truncates towards zero.\<close>

definition ticks_to_seconds :: "int \<Rightarrow> int \<Rightarrow> int" where
  "ticks_to_seconds ticks t = (if 0 \<le> t then t div ticks else - ((- t) div ticks))"

definition timestamp_of_time_point :: "int \<Rightarrow> int \<Rightarrow> Timestamp throws" where
  "timestamp_of_time_point ticks tp = make_timestamp (of_int (ticks_to_seconds ticks tp))"

text \<open>\<open>None\<close> when the multiplication overflows the signed tick count.\<close>

definition to_time_point :: "int \<Rightarrow> Timestamp \<Rightarrow> int option" where
  "to_time_point ticks ts =
     (let t = sint (seconds ts) * ticks
      in if - (2 ^ 63) \<le> t \<and> t < 2 ^ 63 then Some t else None)"

definition milliseconds :: "Timestamp \<Rightarrow> u64" where
  "milliseconds ts = seconds ts * 1000"

definition timestamp_plus :: "Timestamp \<Rightarrow> u64 \<Rightarrow> Timestamp throws" where
  "timestamp_plus ts duration =
     (let result_seconds = seconds ts + duration in
      if TS_MAX_VALUE < result_seconds then Inl (Overflow_error ''Timestamp addition overflow'')
      else make_timestamp result_seconds)"

definition timestamp_minus :: "Timestamp \<Rightarrow> u64 \<Rightarrow> Timestamp throws" where
  "timestamp_minus ts duration =
     (if sint (seconds ts) < sint duration
      then Inl (Underflow_error ''Timestamp subtraction underflow'')
      else make_timestamp (seconds ts - duration))"

definition timestamp_diff :: "Timestamp \<Rightarrow> Timestamp \<Rightarrow> u64 throws" where
  "timestamp_diff ts other =
     (if seconds ts < seconds other
      then Inl (Underflow_error ''Timestamp difference underflow'')
      else Inr (seconds ts - seconds other))"

text \<open>The compound assignments of the operator \<open>f\<close>: when it throws, the object keeps its value.\<close>

definition timestamp_assign :: "(Timestamp \<Rightarrow> u64 \<Rightarrow> Timestamp throws) \<Rightarrow> Timestamp \<Rightarrow> u64 \<Rightarrow> unit throws \<times> Timestamp" where
  "timestamp_assign f ts d = (case f ts d of Inl e \<Rightarrow> (Inl e, ts) | Inr r \<Rightarrow> (Inr (), r))"

definition timestamp_is_valid :: "Timestamp \<Rightarrow> bool" where
  "timestamp_is_valid ts = is_valid_timestamp (seconds ts)"

definition timestamp_now :: "int \<Rightarrow> int \<Rightarrow> Timestamp throws" where
  "timestamp_now ticks now = make_timestamp (of_int (ticks_to_seconds ticks now))"

definition from_seconds :: "u64 \<Rightarrow> Timestamp throws" where
  "from_seconds s = make_timestamp s"

subsection \<open>Facts\<close>

lemma is_valid_timestamp_True [simp]: "is_valid_timestamp s"
  by (simp add: is_valid_timestamp_def)

lemma make_timestamp_total [simp]: "make_timestamp s = Inr (Timestamp s)"
  by (simp add: make_timestamp_def validate_timestamp_def)

lemma sint_small: "unat w < 2 ^ 63 \<Longrightarrow> sint w = int (unat w)" for w :: u64
proof -
  assume "unat w < 2 ^ 63"
  then have "int (unat w) < 2 ^ 63" by (metis of_nat_less_iff of_nat_numeral of_nat_power)
  moreover have "- (2 ^ 63) \<le> int (unat w)" by (rule order_trans [of _ 0]) (simp, rule of_nat_0_le_iff)
  ultimately have "signed_take_bit 63 (int (unat w)) = int (unat w)"
    by (intro signed_take_bit_int_eq_self)
  then show ?thesis by (simp add: sint_uint)
qed

lemma timestamp_plus_total: "timestamp_plus ts d = Inr (Timestamp (seconds ts + d))"
  by (simp add: timestamp_plus_def Let_def not_less)


text \<open>
  Timestamps below \<open>2 ^ 63\<close> seconds. Subtracting a non-negative duration throws
  \<open>underflow_error\<close> exactly when it exceeds the timestamp and is exact otherwise; adding and then
  subtracting the same duration gives the timestamp back; the difference of two timestamps is
  exact or refused; and the conversion to a time point and back is the identity whenever the tick
  count fits.
\<close>

theorem timestamp_arithmetic:
  assumes ts: "unat (seconds ts) < 2 ^ 63" and d: "unat d < 2 ^ 63"
    and sum: "unat (seconds ts) + unat d < 2 ^ 63" and ticks: "0 < ticks"
  shows "timestamp_minus ts d =
      (if unat (seconds ts) < unat d then Inl (Underflow_error ''Timestamp subtraction underflow'')
       else Inr (Timestamp (of_nat (unat (seconds ts) - unat d))))
    \<and> bind_exn (timestamp_plus ts d) (\<lambda>t. timestamp_minus t d) = Inr ts
    \<and> bind_exn (timestamp_plus ts d) (\<lambda>t. timestamp_diff t ts) = Inr d
    \<and> (\<forall>tp. to_time_point ticks ts = Some tp \<longrightarrow> timestamp_of_time_point ticks tp = Inr ts)"
proof (intro conjI allI impI)
  have sub: "seconds ts - d = of_nat (unat (seconds ts) - unat d)" if "unat d \<le> unat (seconds ts)"
    using that by (simp add: of_nat_diff)
  show "timestamp_minus ts d =
      (if unat (seconds ts) < unat d then Inl (Underflow_error ''Timestamp subtraction underflow'')
       else Inr (Timestamp (of_nat (unat (seconds ts) - unat d))))"
  proof (cases "unat (seconds ts) < unat d")
    case True
    then show ?thesis using ts d
      by (simp only: timestamp_minus_def sint_small of_nat_less_iff if_True)
  next
    case False
    then have "seconds ts - d = of_nat (unat (seconds ts) - unat d)" by (intro sub) simp
    then show ?thesis using False ts d
      by (simp only: timestamp_minus_def sint_small of_nat_less_iff if_False make_timestamp_total)
  qed
  have u: "unat (seconds ts + d) = unat (seconds ts) + unat d"
    using sum by (intro unat_plus_exact) simp
  show "bind_exn (timestamp_plus ts d) (\<lambda>t. timestamp_minus t d) = Inr ts"
    using sum d sint_small [of "seconds ts + d"]
    by (simp add: timestamp_plus_total timestamp_minus_def u sint_small)
  show "bind_exn (timestamp_plus ts d) (\<lambda>t. timestamp_diff t ts) = Inr d"
    by (simp add: timestamp_plus_total timestamp_diff_def word_less_nat_alt u)
  fix tp assume "to_time_point ticks ts = Some tp"
  then have "tp = int (unat (seconds ts)) * ticks"
    using ts by (simp add: to_time_point_def Let_def sint_small split: if_splits)
  then show "timestamp_of_time_point ticks tp = Inr ts"
    using ticks by (simp add: timestamp_of_time_point_def ticks_to_seconds_def)
qed

theorem timestamp_arithmetic_witness:
  "timestamp_minus (Timestamp 100) 30 = Inr (Timestamp 70)
   \<and> to_time_point 1000000000 (Timestamp 100) = Some 100000000000
   \<and> timestamp_of_time_point 1000000000 100000000000 = Inr (Timestamp 100)"
proof -
  have "to_time_point 1000000000 (Timestamp 100) = Some 100000000000"
    by (simp add: to_time_point_def)
  then show ?thesis
    using timestamp_arithmetic [of "Timestamp 100" 30 1000000000] by simp
qed

text \<open>
  \<open>operator+\<close> never throws: \<open>result_seconds > MAX_VALUE\<close> cannot hold of a \<open>uint64_t\<close>, so
  an addition whose exact sum exceeds \<open>MAX_VALUE\<close> returns a timestamp earlier than the operand.
\<close>

theorem timestamp_plus_never_throws:
  "timestamp_plus ts d = Inr (Timestamp (seconds ts + d))
   \<and> (2 ^ 64 \<le> unat (seconds ts) + unat d \<longleftrightarrow> Timestamp (seconds ts + d) < ts)"
  using plus_wraps_iff [of "seconds ts" d] by (simp add: timestamp_plus_total less_Timestamp_def)

end
