(* ===== verification/Merkle.thy ===== *)
theory Merkle
  imports CF_Prelude
begin

text \<open>
  The pairwise reduction that \<open>core::Block\<close> and \<open>crypto::Hash::hash_many\<close> both run over a vector
  of hashes. \<open>merkle_level\<close> is one pass of the \<open>for\<close> loop, \<open>merkle_loop\<close> the \<open>while\<close> loop, for any
  combining function. \<open>merkle_tree\<close> is the reference definition: the root of the complete binary
  tree of a given height, cut at a power of two, where a missing right half repeats the left one.
\<close>

subsection \<open>The loop\<close>

fun merkle_level :: "('h \<Rightarrow> 'h \<Rightarrow> 'h) \<Rightarrow> 'h list \<Rightarrow> 'h list" where
  "merkle_level combine [] = []"
| "merkle_level combine [x] = [combine x x]"
| "merkle_level combine (x # y # hs) = combine x y # merkle_level combine hs"

lemma length_merkle_level [simp]: "length (merkle_level combine hs) = (length hs + 1) div 2"
  by (induction combine hs rule: merkle_level.induct) auto

function merkle_loop :: "('h \<Rightarrow> 'h \<Rightarrow> 'h) \<Rightarrow> 'h list \<Rightarrow> 'h list" where
  "merkle_loop combine hs =
     (if 1 < length hs then merkle_loop combine (merkle_level combine hs) else hs)"
  by pat_completeness auto
termination
  by (relation "measure (length \<circ> snd)") auto

declare merkle_loop.simps [simp del]

subsection \<open>The reference tree\<close>

fun merkle_tree :: "('h \<Rightarrow> 'h \<Rightarrow> 'h) \<Rightarrow> nat \<Rightarrow> 'h list \<Rightarrow> 'h" where
  "merkle_tree combine 0 hs = hd hs"
| "merkle_tree combine (Suc k) hs =
     (if length hs \<le> 2 ^ k then (let h = merkle_tree combine k hs in combine h h)
      else combine (merkle_tree combine k (take (2 ^ k) hs)) (merkle_tree combine k (drop (2 ^ k) hs)))"

fun merkle_height :: "nat \<Rightarrow> nat" where
  "merkle_height n = (if n \<le> 1 then 0 else Suc (merkle_height ((n + 1) div 2)))"

declare merkle_height.simps [simp del]

lemma merkle_height_bounds: "0 < n \<Longrightarrow> 2 ^ merkle_height n < 2 * n \<and> n \<le> 2 ^ merkle_height n"
proof (induction n rule: merkle_height.induct)
  case (1 n)
  show ?case
  proof (cases "n \<le> 1")
    case True
    with 1 show ?thesis by (simp add: merkle_height.simps)
  next
    case False
    let ?m = "(n + 1) div 2"
    have "2 ^ merkle_height ?m < 2 * ?m \<and> ?m \<le> 2 ^ merkle_height ?m"
      using 1(1) [OF False] False by simp
    moreover have "2 * p < 2 * n \<and> n \<le> 2 * p" if "p < 2 * ?m" "?m \<le> p" "even p \<or> p = 1" for p
      using that False by (auto elim!: evenE)
    ultimately have "2 * 2 ^ merkle_height ?m < 2 * n \<and> n \<le> 2 * 2 ^ merkle_height ?m"
      by (cases "merkle_height ?m") auto
    then show ?thesis using False by (subst (1 2) merkle_height.simps) simp
  qed
qed

lemma merkle_half_less: "1 < n \<Longrightarrow> 2 ^ (merkle_height n - 1) < n"
  using merkle_height_bounds [of n] merkle_height.simps [of n] by (cases "merkle_height n") auto

lemma merkle_level_take: "merkle_level combine (take (2 * m) hs) = take m (merkle_level combine hs)"
proof (induction combine hs arbitrary: m rule: merkle_level.induct)
  case (3 combine x y hs)
  then show ?case by (cases m) auto
qed (auto simp: take_Cons split: nat.splits)

lemma merkle_level_drop: "merkle_level combine (drop (2 * m) hs) = drop m (merkle_level combine hs)"
proof (induction combine hs arbitrary: m rule: merkle_level.induct)
  case (3 combine x y hs)
  then show ?case by (cases m) auto
qed (auto simp: drop_Cons split: nat.splits)

lemma merkle_tree_level:
  "0 < length hs \<Longrightarrow> length hs \<le> 2 ^ Suc k \<Longrightarrow>
   merkle_tree combine (Suc k) hs = merkle_tree combine k (merkle_level combine hs)"
proof (induction k arbitrary: hs)
  case 0
  then consider x where "hs = [x]" | x y where "hs = [x, y]"
    by (cases "(combine, hs)" rule: merkle_level.cases) fastforce+
  then show ?case by cases auto
next
  case (Suc k)
  let ?l = "merkle_level combine hs"
  let ?t = "merkle_tree combine"
  show ?case
  proof (cases "length hs \<le> 2 ^ Suc k")
    case True
    then have "?t (Suc k) hs = ?t k ?l" using Suc by blast
    moreover have "length ?l \<le> 2 ^ k" using True by auto
    ultimately show ?thesis using True
      by (simp only: merkle_tree.simps(2) [of combine "Suc k"] merkle_tree.simps(2) [of combine k ?l] if_True)
  next
    case False
    have t: "?t (Suc k) (take (2 ^ Suc k) hs) = ?t k (take (2 ^ k) ?l)"
      using Suc.IH [of "take (2 ^ Suc k) hs"] Suc.prems False
      by (simp add: merkle_level_take [symmetric] del: merkle_tree.simps)
    have d: "?t (Suc k) (drop (2 ^ Suc k) hs) = ?t k (drop (2 ^ k) ?l)"
      using Suc.IH [of "drop (2 ^ Suc k) hs"] Suc.prems False
      by (simp add: merkle_level_drop [symmetric] del: merkle_tree.simps)
    have "\<not> length ?l \<le> 2 ^ k" using False by auto
    then show ?thesis using False t d
      by (simp only: merkle_tree.simps(2) [of combine "Suc k"] merkle_tree.simps(2) [of combine k ?l] if_False)
  qed
qed

lemma merkle_loop_is_tree_at:
  "2 ^ k < 2 * length hs \<Longrightarrow> length hs \<le> 2 ^ k \<Longrightarrow> hd (merkle_loop combine hs) = merkle_tree combine k hs"
proof (induction k arbitrary: hs)
  case 0
  then show ?case by (simp add: merkle_loop.simps)
next
  case (Suc k)
  have "1 < length hs"
  proof -
    have "1 \<le> (2::nat) ^ k" by simp
    moreover have "2 * 2 ^ k < 2 * length hs" using Suc.prems(1) by simp
    ultimately show ?thesis by linarith
  qed
  then have "hd (merkle_loop combine hs) = hd (merkle_loop combine (merkle_level combine hs))"
    by (subst merkle_loop.simps) simp
  also have "\<dots> = merkle_tree combine k (merkle_level combine hs)"
    using Suc.prems by (intro Suc.IH) auto
  also have "\<dots> = merkle_tree combine (Suc k) hs"
    using Suc.prems by (intro merkle_tree_level [symmetric]) auto
  finally show ?case .
qed

text \<open>The loop computes the reference tree.\<close>

lemma merkle_loop_is_tree:
  "hs \<noteq> [] \<Longrightarrow> hd (merkle_loop combine hs) = merkle_tree combine (merkle_height (length hs)) hs"
  using merkle_height_bounds [of "length hs"] by (intro merkle_loop_is_tree_at) auto

lemma merkle_loop_not_Nil: "hs \<noteq> [] \<Longrightarrow> merkle_loop combine hs \<noteq> []"
proof (induction combine hs rule: merkle_loop.induct)
  case (1 combine hs)
  show ?case
  proof (cases "1 < length hs")
    case True
    then have "0 < length (merkle_level combine hs)" by simp
    then have "merkle_level combine hs \<noteq> []" by (metis length_greater_0_conv)
    then show ?thesis using True 1(1) by (subst merkle_loop.simps) simp
  next
    case False
    then show ?thesis using 1(2) by (subst merkle_loop.simps) simp
  qed
qed

lemma merkle_loop_single: "length hs = 1 \<Longrightarrow> merkle_loop combine hs = hs"
  by (simp add: merkle_loop.simps)

text \<open>Repeating the last of an odd number of leaves does not change the first level.\<close>

lemma merkle_level_repeat_last:
  "odd (length hs) \<Longrightarrow> merkle_level combine (hs @ [last hs]) = merkle_level combine hs"
proof (induction combine hs rule: merkle_level.induct)
  case (3 combine x y hs)
  then have "hs \<noteq> []" by auto
  with 3 show ?case by simp
qed auto

lemma merkle_loop_repeat_last:
  assumes "odd (length hs)" and "1 < length hs"
  shows "merkle_loop combine (hs @ [last hs]) = merkle_loop combine hs"
proof -
  have "merkle_loop combine (hs @ [last hs]) = merkle_loop combine (merkle_level combine (hs @ [last hs]))"
    using assms(2) by (subst merkle_loop.simps) (auto simp del: length_0_conv)
  also have "\<dots> = merkle_loop combine hs"
    using assms by (simp add: merkle_level_repeat_last merkle_loop.simps [of combine hs])
  finally show ?thesis .
qed

subsection \<open>Contracts on the combining function\<close>

text \<open>A combining function that keeps the format of its arguments.\<close>

locale merkle_combine =
  fixes combine :: "'h \<Rightarrow> 'h \<Rightarrow> 'h" and valid :: "'h \<Rightarrow> bool"
  assumes combine_valid: "valid l \<Longrightarrow> valid r \<Longrightarrow> valid (combine l r)"
begin

lemma merkle_tree_valid:
  "\<forall>h \<in> set hs. valid h \<Longrightarrow> hs \<noteq> [] \<Longrightarrow> valid (merkle_tree combine k hs)"
proof (induction k arbitrary: hs)
  case (Suc k)
  then show ?case
    by (auto simp: Let_def intro!: combine_valid Suc.IH dest: in_set_takeD in_set_dropD)
qed simp

lemma merkle_root_valid:
  "\<forall>h \<in> set hs. valid h \<Longrightarrow> hs \<noteq> [] \<Longrightarrow> valid (hd (merkle_loop combine hs))"
  by (simp add: merkle_loop_is_tree merkle_tree_valid)

end

text \<open>A combining function that shows a part of its left argument unchanged.\<close>

locale prefix_combine = merkle_combine combine valid
  for combine :: "'h \<Rightarrow> 'h \<Rightarrow> 'h" and valid :: "'h \<Rightarrow> bool" +
  fixes part :: "'h \<Rightarrow> 'p"
  assumes combine_part: "valid l \<Longrightarrow> valid r \<Longrightarrow> part (combine l r) = part l"
begin

lemma merkle_tree_part:
  "\<forall>h \<in> set hs. valid h \<Longrightarrow> hs \<noteq> [] \<Longrightarrow> part (merkle_tree combine k hs) = part (hd hs)"
proof (induction k arbitrary: hs)
  case (Suc k)
  then have v: "valid (merkle_tree combine k (take (2 ^ k) hs))" "valid (merkle_tree combine k hs)"
    by (auto intro!: merkle_tree_valid dest: in_set_takeD)
  show ?case
  proof (cases "length hs \<le> 2 ^ k")
    case True
    then show ?thesis using Suc v by (simp add: Let_def combine_part)
  next
    case False
    then have "valid (merkle_tree combine k (drop (2 ^ k) hs))"
      using Suc.prems by (auto intro!: merkle_tree_valid dest: in_set_dropD)
    then have "part (merkle_tree combine (Suc k) hs) = part (merkle_tree combine k (take (2 ^ k) hs))"
      using False v by (simp add: combine_part)
    also have "\<dots> = part (hd hs)"
      using Suc.IH [of "take (2 ^ k) hs"] Suc.prems by (auto dest: in_set_takeD)
    finally show ?thesis .
  qed
qed simp

text \<open>The two arguments of the last combination: the leftmost leaf and the leaf that starts the right half.\<close>

lemma merkle_root_parts:
  assumes "\<forall>h \<in> set hs. valid h" and "1 < length hs"
  shows "\<exists>l r. hd (merkle_loop combine hs) = combine l r \<and> valid l \<and> valid r
    \<and> part l = part (hd hs) \<and> part r = part (hs ! (2 ^ (merkle_height (length hs) - 1)))"
proof -
  let ?n = "length hs"
  obtain k where k: "merkle_height ?n = Suc k"
    using assms(2) by (simp add: merkle_height.simps [of ?n])
  have b: "2 ^ k < ?n" using merkle_height_bounds [of ?n] assms(2) k by fastforce
  have ne: "take (2 ^ k) hs \<noteq> []" "drop (2 ^ k) hs \<noteq> []" "hs \<noteq> []" using b by auto
  have vl: "\<forall>h \<in> set (take (2 ^ k) hs). valid h" and vr: "\<forall>h \<in> set (drop (2 ^ k) hs). valid h"
    using assms(1) by (auto dest: in_set_takeD in_set_dropD)
  let ?l = "merkle_tree combine k (take (2 ^ k) hs)" and ?r = "merkle_tree combine k (drop (2 ^ k) hs)"
  have "hd (merkle_loop combine hs) = combine ?l ?r"
    using b ne by (simp add: merkle_loop_is_tree k)
  moreover have "part ?l = part (hd hs)"
    using merkle_tree_part [OF vl ne(1)] by simp
  moreover have "part ?r = part (hs ! (2 ^ (merkle_height ?n - 1)))"
    using merkle_tree_part [OF vr ne(2)] b k by (simp add: hd_drop_conv_nth)
  ultimately show ?thesis
    using merkle_tree_valid [OF vl ne(1)] merkle_tree_valid [OF vr ne(2)] by blast
qed

end

end
