(* ===== verification/Core_Block.thy ===== *)
theory Core_Block
  imports Core_Transaction Core_Timestamp Merkle
begin

text \<open>
  \<open>core::Block\<close> (modules/core/src/block.cpp) over the struct \<open>BlockHeader\<close> (types.hpp). Hashing
  fills the \<open>mutable\<close> caches of the block and of its transactions, so \<open>calculate_hash\<close> and
  \<open>calculate_merkle_root\<close> return the updated block too. \<open>reachable_block\<close> collects the blocks
  a client can build through the constructors and methods whose root and hashes are up to date; \<open>block_use\<close> also
  follows writes through the references that \<open>header()\<close> and \<open>transactions()\<close> hand out.
\<close>

subsection \<open>Data\<close>

record BlockHeader =
  bh_height :: u64
  bh_parent_hash :: byte_vector
  bh_merkle_root :: byte_vector
  bh_timestamp :: u64
  bh_nonce :: u64
  bh_gas_limit :: u64
  bh_gas_price :: u64
  bh_chain_id :: u32

record Block =
  blk_header :: BlockHeader
  blk_transactions :: "Transaction list"
  blk_cached_hash :: "Hash option"

abbreviation MAX_BLOCK_SIZE :: nat where "MAX_BLOCK_SIZE \<equiv> 1024 * 1024"

text \<open>Six 8-byte integers, two 32-byte arrays and a 4-byte integer, padded to 8 bytes.\<close>

abbreviation sizeof_BlockHeader :: nat where "sizeof_BlockHeader \<equiv> 112"

subsection \<open>Hashes\<close>

definition block_invalidate_cache :: "Block \<Rightarrow> Block" where
  "block_invalidate_cache b = b\<lparr>blk_cached_hash := None\<rparr>"

definition block_hash_input :: "BlockHeader \<Rightarrow> byte_vector" where
  "block_hash_input h =
     be_bytes (bh_height h) 8 @ bh_parent_hash h @ bh_merkle_root h @ be_bytes (bh_timestamp h) 8 @
     be_bytes (bh_nonce h) 8 @ be_bytes (bh_gas_limit h) 8 @ be_bytes (bh_gas_price h) 8 @
     be_bytes (bh_chain_id h) 4"

definition block_calculate_hash :: "Block \<Rightarrow> Hash \<times> Block" where
  "block_calculate_hash b =
     (case blk_cached_hash b of
        Some h \<Rightarrow> (h, b)
      | None \<Rightarrow> (let h = hash_sha256 (block_hash_input (blk_header b))
                 in (h, b\<lparr>blk_cached_hash := Some h\<rparr>)))"

abbreviation block_hash :: "Block \<Rightarrow> Hash" where
  "block_hash b \<equiv> fst (block_calculate_hash b)"

definition calculate_merkle_root :: "Block \<Rightarrow> Hash \<times> Block" where
  "calculate_merkle_root b =
     (case blk_transactions b of
        [] \<Rightarrow> (hash_zero, b)
      | [tx] \<Rightarrow> (let (h, tx') = tx_calculate_hash tx in (h, b\<lparr>blk_transactions := [tx']\<rparr>))
      | txs \<Rightarrow> (let rs = map tx_calculate_hash txs
                in (hd (merkle_loop combine_hashes (map fst rs)),
                    b\<lparr>blk_transactions := map snd rs\<rparr>)))"

definition update_merkle_root :: "Block \<Rightarrow> Block" where
  "update_merkle_root b =
     (let (h, b') = calculate_merkle_root b
      in b'\<lparr>blk_header := (blk_header b')\<lparr>bh_merkle_root := hash_data h\<rparr>\<rparr>)"

subsection \<open>Constructors, setters and transaction management\<close>

definition make_block :: "u64 \<Rightarrow> Hash \<Rightarrow> Timestamp \<Rightarrow> Block" where
  "make_block height parent_hash timestamp =
     \<lparr> blk_header = \<lparr> bh_height = height, bh_parent_hash = hash_data parent_hash,
         bh_merkle_root = hash_data hash_zero, bh_timestamp = seconds timestamp, bh_nonce = 0,
         bh_gas_limit = 8000000, bh_gas_price = 1, bh_chain_id = 1 \<rparr>,
       blk_transactions = [], blk_cached_hash = None \<rparr>"

definition block_of_header :: "BlockHeader \<Rightarrow> Transaction list \<Rightarrow> Block" where
  "block_of_header header txs =
     update_merkle_root \<lparr> blk_header = header, blk_transactions = txs, blk_cached_hash = None \<rparr>"

definition set_height :: "u64 \<Rightarrow> Block \<Rightarrow> Block" where
  "set_height h b = block_invalidate_cache (b\<lparr>blk_header := (blk_header b)\<lparr>bh_height := h\<rparr>\<rparr>)"

definition set_parent_hash :: "Hash \<Rightarrow> Block \<Rightarrow> Block" where
  "set_parent_hash p b =
     block_invalidate_cache (b\<lparr>blk_header := (blk_header b)\<lparr>bh_parent_hash := hash_data p\<rparr>\<rparr>)"

definition set_timestamp :: "Timestamp \<Rightarrow> Block \<Rightarrow> Block" where
  "set_timestamp ts b =
     block_invalidate_cache (b\<lparr>blk_header := (blk_header b)\<lparr>bh_timestamp := seconds ts\<rparr>\<rparr>)"

definition set_nonce :: "u64 \<Rightarrow> Block \<Rightarrow> Block" where
  "set_nonce n b = block_invalidate_cache (b\<lparr>blk_header := (blk_header b)\<lparr>bh_nonce := n\<rparr>\<rparr>)"

text \<open>The next three setters do not reset the cached hash.\<close>

definition set_gas_limit :: "u64 \<Rightarrow> Block \<Rightarrow> Block" where
  "set_gas_limit g b = b\<lparr>blk_header := (blk_header b)\<lparr>bh_gas_limit := g\<rparr>\<rparr>"

definition set_gas_price :: "u64 \<Rightarrow> Block \<Rightarrow> Block" where
  "set_gas_price p b = b\<lparr>blk_header := (blk_header b)\<lparr>bh_gas_price := p\<rparr>\<rparr>"

definition set_chain_id :: "u32 \<Rightarrow> Block \<Rightarrow> Block" where
  "set_chain_id c b = b\<lparr>blk_header := (blk_header b)\<lparr>bh_chain_id := c\<rparr>\<rparr>"

definition add_transaction :: "Transaction \<Rightarrow> Block \<Rightarrow> Block" where
  "add_transaction tx b =
     block_invalidate_cache (update_merkle_root (b\<lparr>blk_transactions := blk_transactions b @ [tx]\<rparr>))"

definition remove_transaction :: "nat \<Rightarrow> Block \<Rightarrow> Block" where
  "remove_transaction index b =
     (if index < length (blk_transactions b)
      then block_invalidate_cache (update_merkle_root
             (b\<lparr>blk_transactions := take index (blk_transactions b) @ drop (Suc index) (blk_transactions b)\<rparr>))
      else b)"

definition clear_transactions :: "Block \<Rightarrow> Block" where
  "clear_transactions b =
     block_invalidate_cache
       (b\<lparr>blk_transactions := [], blk_header := (blk_header b)\<lparr>bh_merkle_root := hash_data hash_zero\<rparr>\<rparr>)"

text \<open>Assignments through the references that \<open>header()\<close> and \<open>transactions()\<close> return; they reset nothing.\<close>

definition write_header :: "BlockHeader \<Rightarrow> Block \<Rightarrow> Block" where
  "write_header h b = b\<lparr>blk_header := h\<rparr>"

definition write_transactions :: "Transaction list \<Rightarrow> Block \<Rightarrow> Block" where
  "write_transactions txs b = b\<lparr>blk_transactions := txs\<rparr>"

subsection \<open>Validation and the rest of the interface\<close>

definition block_size :: "Block \<Rightarrow> nat" where
  "block_size b = foldl (\<lambda>n tx. n + tx_size tx) sizeof_BlockHeader (blk_transactions b)"

definition is_genesis :: "Block \<Rightarrow> bool" where
  "is_genesis b = (bh_height (blk_header b) = 0)"

definition is_full :: "Block \<Rightarrow> bool" where
  "is_full b = (MAX_BLOCK_SIZE \<le> block_size b)"

definition is_valid_block_header :: "BlockHeader \<Rightarrow> bool" where
  "is_valid_block_header header =
     (timestamp_is_valid (Timestamp (bh_timestamp header)) \<and> 0 < bh_gas_limit header \<and> 0 < bh_chain_id header)"

definition validate_header :: "Block \<Rightarrow> bool" where
  "validate_header b =
     (timestamp_is_valid (Timestamp (bh_timestamp (blk_header b)))
      \<and> 0 < bh_gas_limit (blk_header b) \<and> 0 < bh_chain_id (blk_header b))"

fun gas_within :: "u64 \<Rightarrow> u64 \<Rightarrow> Transaction list \<Rightarrow> bool" where
  "gas_within limit used [] = True"
| "gas_within limit used (tx # txs) =
     (let used' = used + tx_gas_limit tx
      in if limit < used' then False else gas_within limit used' txs)"

definition validate_gas_limits :: "Block \<Rightarrow> bool" where
  "validate_gas_limits b = gas_within (bh_gas_limit (blk_header b)) 0 (blk_transactions b)"

definition validate_transactions :: "Block \<Rightarrow> bool" where
  "validate_transactions b =
     (if list_all tx_is_valid (blk_transactions b) then validate_gas_limits b else False)"

definition validate_size :: "Block \<Rightarrow> bool" where
  "validate_size b = (block_size b \<le> MAX_BLOCK_SIZE)"

definition block_is_valid :: "Block \<Rightarrow> bool" where
  "block_is_valid b = (validate_header b \<and> validate_transactions b \<and> validate_size b)"

definition block_equal :: "Block \<Rightarrow> Block \<Rightarrow> bool" where
  "block_equal lhs rhs = (block_hash lhs = block_hash rhs)"

definition block_to_string :: "Block \<Rightarrow> string" where
  "block_to_string b =
     ''Block{'' @ ''height: '' @ dec_string (unat (bh_height (blk_header b)))
     @ '', hash: '' @ take 16 (hash_to_hex (block_hash b)) @ ''...''
     @ '', parent: '' @ take 16 (hash_to_hex (Hash (bh_parent_hash (blk_header b)))) @ ''...''
     @ '', transactions: '' @ dec_string (length (blk_transactions b))
     @ '', timestamp: '' @ dec_string (unat (bh_timestamp (blk_header b)))
     @ '', gas_limit: '' @ dec_string (unat (bh_gas_limit (blk_header b)))
     @ ''}''"

definition create_genesis_block :: "u32 \<Rightarrow> Block" where
  "create_genesis_block chain_id =
     set_nonce 0x12345678 (set_chain_id chain_id (make_block 0 hash_zero (Timestamp 1609459200)))"

subsection \<open>The Merkle root\<close>

interpretation core_merkle: prefix_combine combine_hashes wf_hash "\<lambda>h. take 16 (hash_data h)"
  by unfold_locales
    (simp_all add: wf_hash_combine, simp add: combine_hashes_def wf_hash_def core_size_defs)

definition merkle_root_spec :: "Hash list \<Rightarrow> Hash" where
  "merkle_root_spec hs =
     (if hs = [] then hash_zero else merkle_tree combine_hashes (merkle_height (length hs)) hs)"

lemma merkle_root_spec_loop: "hs \<noteq> [] \<Longrightarrow> hd (merkle_loop combine_hashes hs) = merkle_root_spec hs"
  by (simp add: merkle_root_spec_def merkle_loop_is_tree)

lemma merkle_root_spec_single [simp]: "merkle_root_spec [h] = h"
  by (simp add: merkle_root_spec_def merkle_height.simps)

lemma calculate_merkle_root_alt:
  "calculate_merkle_root b =
     (merkle_root_spec (map tx_hash (blk_transactions b)),
      b\<lparr>blk_transactions := map (snd \<circ> tx_calculate_hash) (blk_transactions b)\<rparr>)"
proof (cases "(\<lambda>(x :: Transaction) (y :: Transaction). x, blk_transactions b)" rule: merkle_level.cases)
  case (1 c)
  then show ?thesis by (simp add: calculate_merkle_root_def merkle_root_spec_def)
next
  case (2 c x)
  then show ?thesis by (simp add: calculate_merkle_root_def split_beta)
next
  case (3 c x y txs)
  then show ?thesis
    by (simp add: calculate_merkle_root_def Let_def merkle_root_spec_loop [symmetric] comp_def)
qed

text \<open>
  C7. \<open>calculate_merkle_root\<close> returns, for every list of transactions, the root of the reference
  tree over the transaction hashes: zero for no transaction, the hash itself for one, otherwise the
  combination of the roots of the two halves cut at the largest power of two below the count.
\<close>

theorem calculate_merkle_root_is_tree:
  "fst (calculate_merkle_root b) =
     (let hs = map tx_hash (blk_transactions b)
      in if hs = [] then hash_zero else merkle_tree combine_hashes (merkle_height (length hs)) hs)"
  by (simp add: calculate_merkle_root_alt merkle_root_spec_def Let_def)

lemma merkle_root_two_leaves:
  assumes "\<forall>h \<in> set hs. wf_hash h" and "1 < length hs"
  shows "merkle_root_spec hs = Hash (take 16 (hash_data (hd hs)) @
           take 16 (hash_data (hs ! (2 ^ (merkle_height (length hs) - 1)))))"
proof -
  obtain l r where "hd (merkle_loop combine_hashes hs) = combine_hashes l r" "wf_hash l" "wf_hash r"
    "take 16 (hash_data l) = take 16 (hash_data (hd hs))"
    "take 16 (hash_data r) = take 16 (hash_data (hs ! (2 ^ (merkle_height (length hs) - 1))))"
    using core_merkle.merkle_root_parts [OF assms] by blast
  moreover have "hs \<noteq> []" using assms(2) by auto
  ultimately show ?thesis
    by (simp add: merkle_root_spec_loop [symmetric] combine_hashes_def HASH_SIZE_def)
qed

lemma tx_hash_wf: "tx_coherent t \<Longrightarrow> wf_hash (tx_hash t)"
  by (simp add: tx_hash_coherent)

lemma tx_hash_sender:
  assumes "tx_coherent t" and "wf_txdata (tx_data t)"
  shows "take 16 (hash_data (tx_hash t)) = take 16 (td_from (tx_data t))"
  using assms
  by (simp add: tx_hash_coherent hash_sha256_def tx_hash_input_def wf_txdata_def core_size_defs
      copy_into_zeros_long)

text \<open>
  The root of two or more transactions depends on two of them only: \<open>combine_hashes\<close> keeps the
  first half of each argument, and that half of a transaction hash is the sender. The root is the
  first 16 bytes of the sender of the first transaction followed by those of the sender of the
  transaction that opens the right subtree.
\<close>

theorem block_root_two_senders:
  assumes "\<forall>t \<in> set (blk_transactions b). tx_coherent t \<and> wf_txdata (tx_data t)"
    and "1 < length (blk_transactions b)"
  shows "fst (calculate_merkle_root b) =
    Hash (take 16 (td_from (tx_data (hd (blk_transactions b)))) @
          take 16 (td_from (tx_data (blk_transactions b !
            (2 ^ (merkle_height (length (blk_transactions b)) - 1))))))"
proof -
  let ?txs = "blk_transactions b"
  let ?i = "2 ^ (merkle_height (length ?txs) - 1) :: nat"
  have ne: "?txs \<noteq> []" using assms(2) by auto
  then have hd: "hd ?txs \<in> set ?txs" by (rule hd_in_set)
  have i: "?i < length ?txs" using assms(2) by (rule merkle_half_less)
  have "fst (calculate_merkle_root b) =
      Hash (take 16 (hash_data (tx_hash (hd ?txs))) @ take 16 (hash_data (tx_hash (?txs ! ?i))))"
    using merkle_root_two_leaves [of "map tx_hash ?txs"] assms i hd_map [OF ne, of tx_hash]
    by (simp add: calculate_merkle_root_alt tx_hash_wf)
  then show ?thesis
    using assms(1) i hd by (simp add: tx_hash_sender)
qed

definition demo_tx :: "u8 \<Rightarrow> Transaction" where
  "demo_tx n = make_transaction (Address (replicate 20 n)) (Address (replicate 20 0xee)) (Amount 1)"

lemma demo_tx_wf [simp]: "tx_coherent (demo_tx n)" "wf_txdata (tx_data (demo_tx n))"
  "td_from (tx_data (demo_tx n)) = replicate 20 n"
  by (simp_all add: demo_tx_def) (simp_all add: make_transaction_def wf_txdata_def core_size_defs)

theorem block_root_two_senders_witness:
  "fst (calculate_merkle_root
     ((make_block 1 hash_zero (Timestamp 0))\<lparr>blk_transactions := [demo_tx 1, demo_tx 2, demo_tx 3]\<rparr>))
   = Hash (replicate 16 1 @ replicate 16 3)"
proof -
  have "merkle_height 3 = 2" by (simp add: merkle_height.simps)
  then show ?thesis
    using block_root_two_senders [of
      "(make_block 1 hash_zero (Timestamp 0))\<lparr>blk_transactions := [demo_tx 1, demo_tx 2, demo_tx 3]\<rparr>"]
    by (simp add: numeral_3_eq_3 take_replicate)
qed

text \<open>
  The root does not fix the list of transactions: repeating the last one of an odd number
  (at least three) of transactions gives a block with the same root.
\<close>

theorem block_root_repeat_last:
  assumes "odd (length txs)" and "1 < length txs"
  shows "fst (calculate_merkle_root (b\<lparr>blk_transactions := txs @ [last txs]\<rparr>))
       = fst (calculate_merkle_root (b\<lparr>blk_transactions := txs\<rparr>))"
proof -
  have ne: "txs \<noteq> []" using assms(2) by auto
  have "merkle_loop combine_hashes (map tx_hash txs @ [last (map tx_hash txs)])
      = merkle_loop combine_hashes (map tx_hash txs)"
    using assms by (intro merkle_loop_repeat_last) auto
  then have "merkle_root_spec (map tx_hash txs @ [last (map tx_hash txs)])
      = merkle_root_spec (map tx_hash txs)"
    using ne by (simp add: merkle_root_spec_loop [symmetric])
  then show ?thesis
    using ne by (simp add: calculate_merkle_root_alt last_map)
qed

theorem block_root_repeat_last_witness:
  "fst (calculate_merkle_root
     ((make_block 1 hash_zero (Timestamp 0))\<lparr>blk_transactions := [demo_tx 1, demo_tx 2, demo_tx 3, demo_tx 3]\<rparr>))
   = fst (calculate_merkle_root
     ((make_block 1 hash_zero (Timestamp 0))\<lparr>blk_transactions := [demo_tx 1, demo_tx 2, demo_tx 3]\<rparr>))"
  using block_root_repeat_last [of "[demo_tx 1, demo_tx 2, demo_tx 3]" "make_block 1 hash_zero (Timestamp 0)"]
  by simp

subsection \<open>Reachable blocks\<close>

definition wf_header :: "BlockHeader \<Rightarrow> bool" where
  "wf_header h \<longleftrightarrow> length (bh_parent_hash h) = HASH_SIZE"

text \<open>
  The ways to build and change a block. The flags say whether all transactions have current hashes, whether the stored
  root is current and whether a cached hash is. Assigning through \<open>transactions()\<close> leaves the old root, assigning through
  \<open>header()\<close> stores any root and keeps the cached hash; the methods that recompute the root and reset the cache
  repair both. A transaction is not current when its data was changed through \<open>Transaction::data()\<close>.
\<close>

inductive block_use :: "bool \<Rightarrow> bool \<Rightarrow> bool \<Rightarrow> Block \<Rightarrow> bool" where
  new: "wf_hash p \<Longrightarrow> block_use True True True (make_block h p ts)"
| of_header: "wf_header h \<Longrightarrow> block_use (list_all tx_coherent txs) True True (block_of_header h txs)"
| height: "block_use txc rc hc b \<Longrightarrow> block_use txc rc True (set_height h b)"
| parent: "block_use txc rc hc b \<Longrightarrow> wf_hash p \<Longrightarrow> block_use txc rc True (set_parent_hash p b)"
| timestamp: "block_use txc rc hc b \<Longrightarrow> block_use txc rc True (set_timestamp ts b)"
| nonce: "block_use txc rc hc b \<Longrightarrow> block_use txc rc True (set_nonce n b)"
| gas_limit: "block_use txc rc hc b \<Longrightarrow> block_use txc rc hc (set_gas_limit g b)"
| gas_price: "block_use txc rc hc b \<Longrightarrow> block_use txc rc hc (set_gas_price g b)"
| chain_id: "block_use txc rc hc b \<Longrightarrow> block_use txc rc hc (set_chain_id c b)"
| add: "block_use txc rc hc b \<Longrightarrow> block_use (txc \<and> tx_coherent tx) True True (add_transaction tx b)"
| remove: "block_use txc rc hc b \<Longrightarrow>
    block_use txc (rc \<or> i < length (blk_transactions b)) (hc \<or> i < length (blk_transactions b)) (remove_transaction i b)"
| clear: "block_use txc rc hc b \<Longrightarrow> block_use True True True (clear_transactions b)"
| hash: "block_use txc rc hc b \<Longrightarrow> block_use txc rc hc (snd (block_calculate_hash b))"
| root: "block_use txc rc hc b \<Longrightarrow> block_use txc rc hc (snd (calculate_merkle_root b))"
| write_header: "block_use txc rc hc b \<Longrightarrow> wf_header h \<Longrightarrow>
    block_use txc (rc \<and> bh_merkle_root h = bh_merkle_root (blk_header b))
      (hc \<and> bh_height h = bh_height (blk_header b) \<and> bh_parent_hash h = bh_parent_hash (blk_header b)) (write_header h b)"
| write_transactions: "block_use txc rc hc b \<Longrightarrow>
    block_use (list_all tx_coherent txs) (rc \<and> map tx_hash txs = map tx_hash (blk_transactions b)) hc (write_transactions txs b)"

abbreviation reachable_block :: "Block \<Rightarrow> bool" where
  "reachable_block b \<equiv> block_use True True True b"

lemma reachable_block_new: "wf_hash p \<Longrightarrow> reachable_block (make_block h p ts)"
  and reachable_block_height: "reachable_block b \<Longrightarrow> reachable_block (set_height h b)"
  and reachable_block_parent: "reachable_block b \<Longrightarrow> wf_hash p \<Longrightarrow> reachable_block (set_parent_hash p b)"
  and reachable_block_timestamp: "reachable_block b \<Longrightarrow> reachable_block (set_timestamp ts b)"
  and reachable_block_nonce: "reachable_block b \<Longrightarrow> reachable_block (set_nonce n b)"
  and reachable_block_gas_limit: "reachable_block b \<Longrightarrow> reachable_block (set_gas_limit g b)"
  and reachable_block_gas_price: "reachable_block b \<Longrightarrow> reachable_block (set_gas_price g b)"
  and reachable_block_chain_id: "reachable_block b \<Longrightarrow> reachable_block (set_chain_id c b)"
  by (fact block_use.intros)+

lemma reachable_block_add: "reachable_block b \<Longrightarrow> tx_coherent tx \<Longrightarrow> reachable_block (add_transaction tx b)"
  using block_use.add [of True True True b tx] by simp

lemmas reachable_block_intros = reachable_block_new reachable_block_height reachable_block_parent reachable_block_timestamp
  reachable_block_nonce reachable_block_gas_limit reachable_block_gas_price reachable_block_chain_id reachable_block_add

text \<open>What each flag promises.\<close>

definition root_current :: "Block \<Rightarrow> bool" where
  "root_current b \<longleftrightarrow> bh_merkle_root (blk_header b) = hash_data (merkle_root_spec (map tx_hash (blk_transactions b)))"

definition cache_current :: "Block \<Rightarrow> bool" where
  "cache_current b \<longleftrightarrow> (\<forall>h. blk_cached_hash b = Some h \<longrightarrow>
     h = Hash (be_bytes (bh_height (blk_header b)) 8 @ take 24 (bh_parent_hash (blk_header b))))"

definition block_inv :: "Block \<Rightarrow> bool" where
  "block_inv b \<longleftrightarrow> wf_header (blk_header b)
     \<and> list_all tx_coherent (blk_transactions b)
     \<and> bh_merkle_root (blk_header b) = hash_data (merkle_root_spec (map tx_hash (blk_transactions b)))
     \<and> cache_current b"

lemma block_hash_input_short:
  "wf_header h \<Longrightarrow>
   hash_sha256 (block_hash_input h) = Hash (be_bytes (bh_height h) 8 @ take 24 (bh_parent_hash h))"
  by (simp add: hash_sha256_def block_hash_input_def wf_header_def core_size_defs copy_into_zeros_long)

lemma cache_current_hash:
  "wf_header (blk_header b) \<Longrightarrow> cache_current b \<Longrightarrow> block_hash b = hash_sha256 (block_hash_input (blk_header b))"
  by (auto simp: cache_current_def block_calculate_hash_def Let_def block_hash_input_short split: option.splits)

lemma block_inv_hash: "block_inv b \<Longrightarrow> block_hash b = hash_sha256 (block_hash_input (blk_header b))"
  by (simp add: block_inv_def cache_current_hash)

lemma map_cached_transactions:
  "map (tx_hash \<circ> (snd \<circ> tx_calculate_hash)) txs = map tx_hash txs"
  by (simp add: tx_calculate_hash_keeps(3))

lemma coherent_cached_transactions:
  "list_all tx_coherent txs \<Longrightarrow> list_all tx_coherent (map (snd \<circ> tx_calculate_hash) txs)"
  by (simp add: list_all_iff tx_calculate_hash_keeps(2))

lemma update_merkle_root_alt:
  "update_merkle_root b =
     b\<lparr>blk_transactions := map (snd \<circ> tx_calculate_hash) (blk_transactions b),
       blk_header := (blk_header b)\<lparr>bh_merkle_root :=
         hash_data (merkle_root_spec (map tx_hash (blk_transactions b)))\<rparr>\<rparr>"
  by (simp add: update_merkle_root_def calculate_merkle_root_alt)

lemmas block_setter_defs = set_height_def set_parent_hash_def set_timestamp_def set_nonce_def
  set_gas_limit_def set_gas_price_def set_chain_id_def block_invalidate_cache_def

definition block_facts :: "bool \<Rightarrow> bool \<Rightarrow> bool \<Rightarrow> Block \<Rightarrow> bool" where
  "block_facts txc rc hc b \<longleftrightarrow> wf_header (blk_header b) \<and> (txc \<longrightarrow> list_all tx_coherent (blk_transactions b))
     \<and> (rc \<longrightarrow> root_current b) \<and> (hc \<longrightarrow> cache_current b)"

lemma block_facts_update:
  "wf_header (blk_header b) \<Longrightarrow> (txc \<longrightarrow> list_all tx_coherent (blk_transactions b)) \<Longrightarrow>
   block_facts txc rc hc (block_invalidate_cache (update_merkle_root b))"
  using coherent_cached_transactions [of "blk_transactions b"]
  by (simp add: block_facts_def root_current_def cache_current_def update_merkle_root_alt block_invalidate_cache_def wf_header_def
      map_cached_transactions)

lemma list_all_without:
  "list_all P xs \<Longrightarrow> list_all P (take i xs) \<and> list_all P (drop j xs)"
  by (auto simp: list_all_iff dest: in_set_takeD in_set_dropD)

lemma block_use_facts: "block_use txc rc hc b \<Longrightarrow> block_facts txc rc hc b"
proof (induction rule: block_use.induct)
  case (new p h ts)
  then show ?case
    by (simp add: block_facts_def root_current_def cache_current_def make_block_def wf_header_def wf_hash_def merkle_root_spec_def)
next
  case (of_header h txs)
  let ?b = "\<lparr> blk_header = h, blk_transactions = txs, blk_cached_hash = None \<rparr>"
  have "block_invalidate_cache (update_merkle_root ?b) = update_merkle_root ?b"
    by (simp add: block_invalidate_cache_def update_merkle_root_alt)
  then show ?case
    using block_facts_update [of ?b "list_all tx_coherent txs" True True] of_header by (simp add: block_of_header_def)
next
  case (add txc rc hc b tx)
  then show ?case unfolding add_transaction_def by (intro block_facts_update) (simp_all add: block_facts_def)
next
  case (remove txc rc hc b i)
  show ?case
  proof (cases "i < length (blk_transactions b)")
    case True
    have "wf_header (blk_header b)" "txc \<longrightarrow> list_all tx_coherent (blk_transactions b)"
      using remove.IH by (simp_all add: block_facts_def)
    then show ?thesis
      unfolding remove_transaction_def if_P [OF True] by (intro block_facts_update) (simp_all add: list_all_without)
  next
    case False
    then show ?thesis using remove.IH by (simp add: remove_transaction_def)
  qed
next
  case (hash txc rc hc b)
  then show ?case
    by (auto simp: block_calculate_hash_def block_facts_def root_current_def cache_current_def Let_def block_hash_input_short
        split: option.splits)
next
  case (root txc rc hc b)
  then show ?case
    using coherent_cached_transactions [of "blk_transactions b"]
    by (cases "blk_cached_hash b")
      (simp_all add: calculate_merkle_root_alt block_facts_def root_current_def cache_current_def map_cached_transactions)
qed (simp_all add: block_facts_def root_current_def cache_current_def block_setter_defs clear_transactions_def write_header_def
    write_transactions_def wf_header_def wf_hash_def merkle_root_spec_def)

lemma reachable_block_inv: "reachable_block b \<Longrightarrow> block_inv b"
  using block_use_facts [of True True True b] by (simp add: block_facts_def block_inv_def root_current_def)

text \<open>
  C2. However a block is built and changed, a transaction list whose members were not changed behind their cached
  hash has current hashes; the stored Merkle root is the root of the current transactions, and
  \<open>calculate_hash\<close> returns the hash of the current header, unless a caller assigned another root or another list through
  \<open>header()\<close> and \<open>transactions()\<close>, or another height or parent through \<open>header()\<close>. A later \<open>add_transaction\<close>, removal or
  \<open>clear_transactions\<close> makes root and hash current again, and every setter that resets the cache makes the hash
  current. This holds although \<open>set_gas_limit\<close>, \<open>set_gas_price\<close> and \<open>set_chain_id\<close> keep the cached hash, because the
  placeholder hash does not reach those fields.
\<close>

theorem reachable_block_consistent:
  assumes "block_use txc rc hc b"
  shows "(rc \<longrightarrow> bh_merkle_root (blk_header b) = hash_data (fst (calculate_merkle_root b)))
    \<and> (hc \<longrightarrow> block_hash b = hash_sha256 (block_hash_input (blk_header b)))
    \<and> (txc \<longrightarrow> (\<forall>t \<in> set (blk_transactions b). tx_hash t = hash_sha256 (tx_hash_input (tx_data t))))"
  using block_use_facts [OF assms] cache_current_hash [of b]
  by (simp add: block_facts_def root_current_def calculate_merkle_root_alt list_all_iff tx_hash_coherent)

theorem reachable_block_consistent_witness:
  "bh_merkle_root (blk_header (add_transaction (demo_tx 9) (write_header
     \<lparr> bh_height = 1, bh_parent_hash = replicate 32 0, bh_merkle_root = replicate 32 7, bh_timestamp = 0, bh_nonce = 54321,
       bh_gas_limit = 1, bh_gas_price = 1, bh_chain_id = 1 \<rparr> (make_block 1 hash_zero (Timestamp 0)))))
   = replicate 20 9 @ replicate 12 0xee"
proof -
  let ?h = "\<lparr> bh_height = 1, bh_parent_hash = replicate 32 0, bh_merkle_root = replicate 32 7, bh_timestamp = 0, bh_nonce = 54321,
    bh_gas_limit = 1, bh_gas_price = 1, bh_chain_id = 1 \<rparr>"
  let ?b = "write_header ?h (make_block 1 hash_zero (Timestamp 0))"
  have "wf_header ?h" by (simp add: wf_header_def core_size_defs)
  from block_use.add [OF block_use.write_header [OF block_use.new this, of hash_zero 1 "Timestamp 0"], of "demo_tx 9"]
  have "block_use (True \<and> tx_coherent (demo_tx 9)) True True (add_transaction (demo_tx 9) ?b)" by simp
  from reachable_block_consistent [OF this]
  show ?thesis
    by (simp add: calculate_merkle_root_alt add_transaction_def update_merkle_root_alt write_header_def
        block_invalidate_cache_def make_block_def tx_calculate_hash_keeps(3) tx_hash_coherent)
      (simp add: hash_sha256_def tx_hash_input_def demo_tx_def make_transaction_def core_size_defs
        copy_into_zeros_long take_replicate)
qed

text \<open>Without the repair an assigned root stays wrong, and so does a hash that was cached before.\<close>

lemma written_header_stale:
  "wf_header h \<Longrightarrow> reachable_block b \<Longrightarrow> bh_merkle_root h \<noteq> bh_merkle_root (blk_header b) \<Longrightarrow>
   bh_merkle_root (blk_header (write_header h b)) \<noteq> hash_data (fst (calculate_merkle_root (write_header h b)))"
  "block_hash (write_header h (snd (block_calculate_hash b))) = block_hash b"
  using reachable_block_inv [of b]
  by (simp_all add: write_header_def calculate_merkle_root_alt block_inv_def block_calculate_hash_def Let_def split: option.splits)

text \<open>
  A block's hash covers its height and the first 24 bytes of its parent hash only: two blocks
  built through the interface are equal for \<open>operator==\<close> exactly when these agree, whatever their
  transactions, Merkle root, time, nonce and gas.
\<close>

theorem block_equal_covers_parent_only:
  assumes "reachable_block b" and "reachable_block c"
  shows "block_equal b c \<longleftrightarrow> bh_height (blk_header b) = bh_height (blk_header c)
    \<and> take 24 (bh_parent_hash (blk_header b)) = take 24 (bh_parent_hash (blk_header c))"
proof -
  have *: "block_hash b = Hash (be_bytes (bh_height (blk_header b)) 8 @ take 24 (bh_parent_hash (blk_header b)))"
    if "reachable_block b" for b
    using reachable_block_inv [OF that] block_inv_hash [of b]
    by (simp add: block_hash_input_short block_inv_def)
  show ?thesis
    using be_bytes_inject [of 8 "bh_height (blk_header b)" "bh_height (blk_header c)"]
    by (auto simp: block_equal_def * [OF assms(1)] * [OF assms(2)])
qed

theorem block_equal_covers_parent_only_witness:
  "block_equal (make_block 1 hash_zero (Timestamp 0))
     (add_transaction (demo_tx 9) (make_block 1 hash_zero (Timestamp 77)))"
proof -
  have "reachable_block (make_block 1 hash_zero (Timestamp 0))"
    and "reachable_block (add_transaction (demo_tx 9) (make_block 1 hash_zero (Timestamp 77)))"
    by (intro reachable_block_add reachable_block_new; simp)+
  from block_equal_covers_parent_only [OF this] show ?thesis
    by (simp add: add_transaction_def update_merkle_root_alt block_invalidate_cache_def make_block_def)
qed

subsection \<open>Gas limits\<close>

definition gas_sum :: "Transaction list \<Rightarrow> nat" where
  "gas_sum txs = sum_list (map (\<lambda>t. unat (tx_gas_limit t)) txs)"

lemma gas_within_exact:
  "unat used + gas_sum txs < 2 ^ 64 \<Longrightarrow> used \<le> limit \<Longrightarrow>
   gas_within limit used txs \<longleftrightarrow> unat used + gas_sum txs \<le> unat limit"
proof (induction txs arbitrary: used)
  case Nil
  then show ?case by (simp add: gas_sum_def word_le_nat_alt)
next
  case (Cons tx txs)
  let ?u = "used + tx_gas_limit tx"
  have u: "unat ?u = unat used + unat (tx_gas_limit tx)"
    using Cons.prems by (intro unat_plus_exact) (simp add: gas_sum_def)
  show ?case
  proof (cases "limit < ?u")
    case True
    then show ?thesis by (simp add: gas_sum_def word_less_nat_alt u Let_def)
  next
    case False
    then have "gas_within limit ?u txs \<longleftrightarrow> unat ?u + gas_sum txs \<le> unat limit"
      using Cons.prems by (intro Cons.IH) (simp_all add: u gas_sum_def)
    then show ?thesis using False by (simp add: u gas_sum_def Let_def add.assoc)
  qed
qed

text \<open>
  As long as the gas limits of the transactions add up to less than \<open>2 ^ 64\<close>,
  \<open>validate_gas_limits\<close> accepts exactly the blocks whose transactions' total stays within the block's
  gas limit.
\<close>

theorem validate_gas_limits_exact:
  assumes "gas_sum (blk_transactions b) < 2 ^ 64"
  shows "validate_gas_limits b \<longleftrightarrow> gas_sum (blk_transactions b) \<le> unat (bh_gas_limit (blk_header b))"
  using gas_within_exact [of 0 "blk_transactions b" "bh_gas_limit (blk_header b)"] assms
  by (simp add: validate_gas_limits_def)

theorem validate_gas_limits_exact_witness:
  "validate_gas_limits
     ((make_block 1 hash_zero (Timestamp 0))\<lparr>blk_transactions := [demo_tx 1, demo_tx 2]\<rparr>)"
  using validate_gas_limits_exact [of
      "(make_block 1 hash_zero (Timestamp 0))\<lparr>blk_transactions := [demo_tx 1, demo_tx 2]\<rparr>"]
  by (simp add: gas_sum_def tx_gas_limit_def demo_tx_def make_transaction_def make_block_def)

text \<open>
  Without that bound the accumulator wraps: a second transaction with the gas limit
  \<open>2 ^ 64 - 1\<close> passes in a block that allows 8000000.
\<close>

lemma validate_gas_limits_wraps:
  "validate_gas_limits ((make_block 1 hash_zero (Timestamp 0))
     \<lparr>blk_transactions := [demo_tx 1, tx_set_gas_limit (- 1) (demo_tx 2)]\<rparr>)"
  by (simp add: validate_gas_limits_def tx_gas_limit_def demo_tx_def make_transaction_def
      make_block_def tx_setter_defs)

end
