(* ===== verification/Serialization.thy ===== *)
theory Serialization
  imports Core_Block
begin

text \<open>
  The Protocol Buffers serializer (modules/serialization: serializer.cpp, over the messages of
  proto/types.proto, transaction.proto and block.proto). The messages are records; an absent
  submessage reads as one with default fields. The wire format is the generated code, so the functions
  \<open>SerializeToArray\<close> and \<open>ParseFromArray\<close> of a message type are arguments \<open>enc\<close> and \<open>dec\<close> of the
  operations, \<open>None\<close> being their result \<open>false\<close>; what the code relies on is \<open>codec_ok\<close>: what was encoded
  is decoded again. Exceptions the operations let through are the left summand of \<open>throws\<close>, errors they
  return the left summand inside. \<open>now\<close> is the clock, read once per transaction. The header of the
  module declares its own classes \<open>chainforge::Block\<close> and so on, which nothing defines; the model takes them to
  be the classes of \<open>chainforge::core\<close> whose headers serializer.cpp includes.
\<close>

subsection \<open>Messages\<close>

record ProtoTimestamp =
  pt_seconds :: u64
  pt_nanoseconds :: u32

record ProtoTxInput =
  pi_prev_tx_hash :: byte_vector
  pi_output_index :: u32
  pi_signature :: byte_vector
  pi_pubkey :: byte_vector

record ProtoTxOutput =
  po_amount :: string
  po_recipient :: byte_vector

record ProtoTransaction =
  px_version :: u64
  px_inputs :: "ProtoTxInput list"
  px_outputs :: "ProtoTxOutput list"
  px_gas_limit :: u64
  px_gas_price :: string
  px_data :: byte_vector
  px_nonce :: u64
  px_timestamp :: ProtoTimestamp
  px_tx_hash :: byte_vector

record ProtoBlockHeader =
  ph_version :: u64
  ph_prev_block_hash :: byte_vector
  ph_merkle_root :: byte_vector
  ph_timestamp :: ProtoTimestamp
  ph_difficulty :: u64
  ph_nonce :: u64
  ph_height :: u32
  ph_extra_data :: byte_vector

record ProtoBlock =
  pb_header :: ProtoBlockHeader
  pb_transactions :: "ProtoTransaction list"
  pb_block_hash :: byte_vector
  pb_tx_count :: u32

datatype SerializationError = INVALID_DATA | BUFFER_TOO_SMALL | UNSUPPORTED_VERSION | CORRUPTED_DATA | ENCODING_ERROR

type_synonym 'a SerializationResult = "(SerializationError \<times> string) + 'a"

definition make_serialization_error :: "SerializationError \<Rightarrow> string \<Rightarrow> 'a SerializationResult" where
  "make_serialization_error code msg = Inl (code, msg)"

definition codec_ok :: "('m \<Rightarrow> byte_vector option) \<Rightarrow> (byte_vector \<Rightarrow> 'm option) \<Rightarrow> bool" where
  "codec_ok enc dec \<longleftrightarrow> (\<forall>m bs. enc m = Some bs \<longrightarrow> dec bs = Some m)"

definition serialize_to_bytes :: "('m \<Rightarrow> byte_vector option) \<Rightarrow> 'm \<Rightarrow> byte_vector SerializationResult" where
  "serialize_to_bytes enc m =
     (case enc m of
        None \<Rightarrow> make_serialization_error ENCODING_ERROR ''Failed to serialize protobuf message''
      | Some bs \<Rightarrow> Inr bs)"

subsection \<open>Addresses, amounts, timestamps and hashes\<close>

definition serialize_address :: "(byte_vector \<Rightarrow> byte_vector option) \<Rightarrow> Address \<Rightarrow> byte_vector SerializationResult" where
  "serialize_address enc a = serialize_to_bytes enc (address_to_bytes a)"

definition deserialize_address ::
  "(byte_vector \<Rightarrow> byte_vector option) \<Rightarrow> byte_vector \<Rightarrow> Address SerializationResult throws" where
  "deserialize_address dec bs =
     (case dec bs of
        None \<Rightarrow> Inr (make_serialization_error CORRUPTED_DATA ''Failed to parse address protobuf'')
      | Some m \<Rightarrow>
          if length m \<noteq> ADDRESS_SIZE then Inr (make_serialization_error INVALID_DATA ''Invalid address size'')
          else bind_exn (address_from_vector m) (\<lambda>a. Inr (Inr a)))"

definition serialize_amount :: "(string \<Rightarrow> byte_vector option) \<Rightarrow> Amount \<Rightarrow> byte_vector SerializationResult" where
  "serialize_amount enc a = serialize_to_bytes enc (dec_string (unat (wei a)))"

definition deserialize_amount ::
  "(byte_vector \<Rightarrow> string option) \<Rightarrow> byte_vector \<Rightarrow> Amount SerializationResult" where
  "deserialize_amount dec bs =
     (case dec bs of
        None \<Rightarrow> make_serialization_error CORRUPTED_DATA ''Failed to parse amount protobuf''
      | Some m \<Rightarrow> (case stoull 10 m of
          Inl e \<Rightarrow> make_serialization_error INVALID_DATA (''Failed to parse amount: '' @ exn_what e)
        | Inr v \<Rightarrow> Inr (from_wei v)))"

definition serialize_timestamp ::
  "(ProtoTimestamp \<Rightarrow> byte_vector option) \<Rightarrow> Timestamp \<Rightarrow> byte_vector SerializationResult" where
  "serialize_timestamp enc ts = serialize_to_bytes enc \<lparr>pt_seconds = seconds ts, pt_nanoseconds = 0\<rparr>"

definition deserialize_timestamp ::
  "(byte_vector \<Rightarrow> ProtoTimestamp option) \<Rightarrow> byte_vector \<Rightarrow> Timestamp SerializationResult throws" where
  "deserialize_timestamp dec bs =
     (case dec bs of
        None \<Rightarrow> Inr (make_serialization_error CORRUPTED_DATA ''Failed to parse timestamp protobuf'')
      | Some m \<Rightarrow> bind_exn (from_seconds (pt_seconds m)) (\<lambda>ts. Inr (Inr ts)))"

definition serialize_hash :: "(byte_vector \<Rightarrow> byte_vector option) \<Rightarrow> Hash \<Rightarrow> byte_vector SerializationResult" where
  "serialize_hash enc h = serialize_to_bytes enc (hash_to_bytes h)"

definition deserialize_hash ::
  "(byte_vector \<Rightarrow> byte_vector option) \<Rightarrow> byte_vector \<Rightarrow> Hash SerializationResult throws" where
  "deserialize_hash dec bs =
     (case dec bs of
        None \<Rightarrow> Inr (make_serialization_error CORRUPTED_DATA ''Failed to parse hash protobuf'')
      | Some m \<Rightarrow>
          if length m \<noteq> HASH_SIZE then Inr (make_serialization_error INVALID_DATA ''Invalid hash size'')
          else bind_exn (hash_from_vector m) (\<lambda>h. Inr (Inr h)))"

subsection \<open>Transactions\<close>

definition proto_transaction :: "u64 \<Rightarrow> Transaction \<Rightarrow> ProtoTransaction" where
  "proto_transaction now tx =
     \<lparr> px_version = 1,
       px_inputs = [\<lparr>pi_prev_tx_hash = [], pi_output_index = 0, pi_signature = [],
                     pi_pubkey = address_to_bytes (tx_from tx)\<rparr>],
       px_outputs = [\<lparr>po_amount = dec_string (unat (wei (tx_value tx))), po_recipient = address_to_bytes (tx_to tx)\<rparr>],
       px_gas_limit = tx_gas_limit tx, px_gas_price = dec_string (unat (tx_gas_price tx)), px_data = tx_payload tx,
       px_nonce = tx_nonce tx, px_timestamp = \<lparr>pt_seconds = now, pt_nanoseconds = 0\<rparr>,
       px_tx_hash = hash_to_bytes (tx_hash tx) \<rparr>"

definition serialize_transaction ::
  "(ProtoTransaction \<Rightarrow> byte_vector option) \<Rightarrow> u64 \<Rightarrow> Transaction \<Rightarrow> byte_vector SerializationResult \<times> Transaction" where
  "serialize_transaction enc now tx =
     (serialize_to_bytes enc (proto_transaction now tx), snd (tx_calculate_hash tx))"

definition transaction_of_proto :: "ProtoTransaction \<Rightarrow> Transaction SerializationResult throws" where
  "transaction_of_proto m =
     (case px_inputs m of
        [] \<Rightarrow> Inr (make_serialization_error INVALID_DATA ''Transaction must have at least one input'')
      | inp # _ \<Rightarrow>
        bind_exn (address_from_vector (pi_pubkey inp)) (\<lambda>from.
        case px_outputs m of
          [] \<Rightarrow> Inr (make_serialization_error INVALID_DATA ''Transaction must have at least one output'')
        | out # _ \<Rightarrow>
          bind_exn (address_from_vector (po_recipient out)) (\<lambda>to.
          bind_exn (amount_from_string (po_amount out)) (\<lambda>amount.
          let tx = tx_set_gas_limit (px_gas_limit m) (tx_set_nonce (px_nonce m) (make_transaction from to amount)) in
          bind_exn (stoull 10 (px_gas_price m)) (\<lambda>p.
          let tx' = tx_set_gas_price p tx in
          Inr (Inr (if px_data m \<noteq> [] then tx_set_data (px_data m) tx' else tx')))))))"

definition deserialize_transaction ::
  "(byte_vector \<Rightarrow> ProtoTransaction option) \<Rightarrow> byte_vector \<Rightarrow> Transaction SerializationResult throws" where
  "deserialize_transaction dec bs =
     (case dec bs of
        None \<Rightarrow> Inr (make_serialization_error CORRUPTED_DATA ''Failed to parse transaction protobuf'')
      | Some m \<Rightarrow> transaction_of_proto m)"

subsection \<open>Blocks\<close>

text \<open>The loop of \<open>serialize_block\<close>: each transaction is encoded and parsed back into the message.\<close>

fun proto_transactions ::
  "(ProtoTransaction \<Rightarrow> byte_vector option) \<Rightarrow> (byte_vector \<Rightarrow> ProtoTransaction option) \<Rightarrow> (nat \<Rightarrow> u64) \<Rightarrow>
   Transaction list \<Rightarrow> ProtoTransaction list SerializationResult \<times> Transaction list" where
  "proto_transactions enc dec now [] = (Inr [], [])"
| "proto_transactions enc dec now (tx # txs) =
     (case serialize_transaction enc (now 0) tx of
        (Inl e, tx') \<Rightarrow> (Inl e, tx' # txs)
      | (Inr bs, tx') \<Rightarrow> (case dec bs of
          None \<Rightarrow> (make_serialization_error ENCODING_ERROR ''Failed to parse transaction for block'', tx' # txs)
        | Some m \<Rightarrow> (case proto_transactions enc dec (now \<circ> Suc) txs of
            (Inl e, txs') \<Rightarrow> (Inl e, tx' # txs')
          | (Inr ms, txs') \<Rightarrow> (Inr (m # ms), tx' # txs'))))"

definition serialize_block ::
  "(ProtoTransaction \<Rightarrow> byte_vector option) \<Rightarrow> (byte_vector \<Rightarrow> ProtoTransaction option) \<Rightarrow>
   (ProtoBlock \<Rightarrow> byte_vector option) \<Rightarrow> (nat \<Rightarrow> u64) \<Rightarrow> Block \<Rightarrow> byte_vector SerializationResult \<times> Block" where
  "serialize_block enc_tx dec_tx enc now b =
     (let h = blk_header b;
          header = \<lparr> ph_version = 1, ph_prev_block_hash = bh_parent_hash h, ph_merkle_root = bh_merkle_root h,
            ph_timestamp = \<lparr>pt_seconds = bh_timestamp h, pt_nanoseconds = 0\<rparr>, ph_difficulty = 0,
            ph_nonce = bh_nonce h, ph_height = ucast (bh_height h), ph_extra_data = [] \<rparr>
      in case proto_transactions enc_tx dec_tx now (blk_transactions b) of
           (Inl e, txs') \<Rightarrow> (Inl e, b\<lparr>blk_transactions := txs'\<rparr>)
         | (Inr ms, txs') \<Rightarrow>
             let b1 = b\<lparr>blk_transactions := txs'\<rparr>
             in (serialize_to_bytes enc
                   \<lparr> pb_header = header, pb_transactions = ms, pb_block_hash = hash_to_bytes (block_hash b1),
                     pb_tx_count = of_nat (length (blk_transactions b1)) \<rparr>,
                 snd (block_calculate_hash b1)))"

text \<open>The loop of \<open>deserialize_block\<close>: each message is encoded again, decoded, and added to the block.\<close>

fun add_proto_transactions ::
  "(ProtoTransaction \<Rightarrow> byte_vector option) \<Rightarrow> (byte_vector \<Rightarrow> ProtoTransaction option) \<Rightarrow>
   ProtoTransaction list \<Rightarrow> Block \<Rightarrow> Block SerializationResult throws" where
  "add_proto_transactions enc dec [] b = Inr (Inr b)"
| "add_proto_transactions enc dec (m # ms) b =
     (case enc m of
        None \<Rightarrow> Inr (make_serialization_error ENCODING_ERROR ''Failed to serialize transaction in block'')
      | Some bs \<Rightarrow> bind_exn (deserialize_transaction dec bs) (\<lambda>r.
          case r of
            Inl e \<Rightarrow> Inr (Inl e)
          | Inr tx \<Rightarrow> add_proto_transactions enc dec ms (add_transaction tx b)))"

definition deserialize_block ::
  "(ProtoTransaction \<Rightarrow> byte_vector option) \<Rightarrow> (byte_vector \<Rightarrow> ProtoTransaction option) \<Rightarrow>
   (byte_vector \<Rightarrow> ProtoBlock option) \<Rightarrow> byte_vector \<Rightarrow> Block SerializationResult throws" where
  "deserialize_block enc_tx dec_tx dec bs =
     (case dec bs of
        None \<Rightarrow> Inr (make_serialization_error CORRUPTED_DATA ''Failed to parse block protobuf'')
      | Some m \<Rightarrow>
        let h = pb_header m in
        bind_exn (hash_from_vector (ph_prev_block_hash h)) (\<lambda>parent.
        bind_exn (make_timestamp (pt_seconds (ph_timestamp h))) (\<lambda>ts.
        add_proto_transactions enc_tx dec_tx (pb_transactions m)
          (set_chain_id 1 (set_gas_price 1000000000 (set_gas_limit 21000 (set_nonce (ph_nonce h)
             (make_block (ucast (ph_height h)) parent ts))))))))"

subsection \<open>Round trips\<close>

lemma codec_okD: "codec_ok enc dec \<Longrightarrow> enc m = Some bs \<Longrightarrow> dec bs = Some m"
  by (simp add: codec_ok_def)

lemma serialize_to_bytes_Inr: "serialize_to_bytes enc m = Inr bs \<longleftrightarrow> enc m = Some bs"
  by (simp add: serialize_to_bytes_def make_serialization_error_def split: option.split)

text \<open>
  The values of the core types survive serialization: an address, an amount, a timestamp or a hash that is
  encoded without an error is decoded to itself.
\<close>

theorem core_values_round_trip:
  assumes "codec_ok enc_b dec_b" "codec_ok enc_s dec_s" "codec_ok enc_t dec_t"
  shows "(wf_address a \<and> serialize_address enc_b a = Inr bs \<longrightarrow> deserialize_address dec_b bs = Inr (Inr a))
    \<and> (serialize_amount enc_s v = Inr bs \<longrightarrow> deserialize_amount dec_s bs = Inr v)
    \<and> (serialize_timestamp enc_t ts = Inr bs \<longrightarrow> deserialize_timestamp dec_t bs = Inr (Inr ts))
    \<and> (wf_hash h \<and> serialize_hash enc_b h = Inr bs \<longrightarrow> deserialize_hash dec_b bs = Inr (Inr h))"
  by (intro conjI impI; (elim conjE)?)
    (simp_all add: assms [THEN codec_okD] serialize_address_def deserialize_address_def serialize_amount_def deserialize_amount_def
      serialize_timestamp_def deserialize_timestamp_def serialize_hash_def deserialize_hash_def serialize_to_bytes_Inr
      address_from_vector_def hash_from_vector_def wf_address_def wf_hash_def address_to_bytes_def hash_to_bytes_def
      from_wei_def from_seconds_def)

text \<open>A codec for one message, enough to instantiate the parameters.\<close>

definition enc_only :: "'m \<Rightarrow> 'm \<Rightarrow> byte_vector option" where
  "enc_only m x = (if x = m then Some [1] else None)"

definition dec_only :: "'m \<Rightarrow> byte_vector \<Rightarrow> 'm option" where
  "dec_only m bs = (if bs = [1] then Some m else None)"

lemma codec_ok_only: "codec_ok (enc_only m) (dec_only m)"
  by (simp add: codec_ok_def enc_only_def dec_only_def)

theorem core_values_round_trip_witness:
  "deserialize_amount (dec_only ''250'') [1] = Inr (Amount 250)
   \<and> deserialize_address (dec_only (replicate 20 7)) [1] = Inr (Inr (Address (replicate 20 7)))"
proof -
  let ?t = "\<lparr>pt_seconds = 5, pt_nanoseconds = 0\<rparr>"
  have "dec_string 250 = ''250''"
    by (simp add: dec_string_def show_base.simps digit_char_def)
  then have "serialize_amount (enc_only ''250'') (Amount 250) = Inr [1]"
    by (simp add: serialize_amount_def serialize_to_bytes_def enc_only_def)
  moreover have "serialize_address (enc_only (replicate 20 7)) (Address (replicate 20 7)) = Inr [1]"
    by (simp add: serialize_address_def serialize_to_bytes_def enc_only_def address_to_bytes_def)
  moreover have "wf_address (Address (replicate 20 7))"
    by (simp add: wf_address_def core_size_defs)
  ultimately show ?thesis
    using core_values_round_trip [OF codec_ok_only [of "replicate 20 7"] codec_ok_only [of "''250''"]
        codec_ok_only [of ?t], of "Address (replicate 20 7)" "[1]" "Amount 250"]
    by blast
qed

text \<open>The transaction a receiver gets: its value is read as ether where the sender wrote wei.\<close>

definition received :: "Transaction \<Rightarrow> Transaction" where
  "received t = transaction_of_data ((tx_data t)\<lparr>td_value := td_value (tx_data t) * WEI_PER_ETHER\<rparr>)"

lemma transaction_of_proto_transaction:
  assumes "wf_txdata (tx_data t)"
  shows "transaction_of_proto (proto_transaction now t) = Inr (Inr (received t))"
  using assms dec_string_no_point [of "unat (td_value (tx_data t))"]
  by (simp add: transaction_of_proto_def proto_transaction_def address_from_vector_def wf_txdata_def
      address_to_bytes_def tx_from_def tx_to_def tx_value_def from_wei_def amount_from_string_def tx_gas_limit_def
      tx_gas_price_def tx_payload_def tx_nonce_def received_def transaction_of_data_def make_transaction_def
      tx_setter_defs Let_def)

lemma ether_scaling_zero: "v * WEI_PER_ETHER = v \<longleftrightarrow> v = 0"
proof
  assume "v * WEI_PER_ETHER = v"
  then have "v * (WEI_PER_ETHER - 1) = 0" by (simp add: algebra_simps)
  then have "v * (WEI_PER_ETHER - 1) * 12435470172261449727 = 0" by simp
  moreover have "(WEI_PER_ETHER - 1) * 12435470172261449727 = 1" by (simp add: WEI_PER_ETHER_def)
  ultimately show "v = 0" by (simp only: mult.assoc mult_1_right)
qed simp

text \<open>
  A transaction that is encoded without an error is decoded to the same sender, recipient, gas limit, gas
  price, payload and nonce. Its value is not kept: the sender writes wei, the receiver reads the number as ether
  and multiplies by \<open>10^18\<close>, modulo \<open>2^64\<close>. Only transactions of value zero survive unchanged.
\<close>

theorem transaction_round_trip:
  assumes "codec_ok enc dec" "wf_txdata (tx_data t)" "fst (serialize_transaction enc now t) = Inr bs"
  shows "\<exists>t'. deserialize_transaction dec bs = Inr (Inr t')
    \<and> tx_data t' = (tx_data t)\<lparr>td_value := td_value (tx_data t) * WEI_PER_ETHER\<rparr>
    \<and> (tx_data t' = tx_data t \<longleftrightarrow> td_value (tx_data t) = 0)"
proof -
  have "deserialize_transaction dec bs = Inr (Inr (received t))"
    using assms by (simp add: serialize_transaction_def serialize_to_bytes_Inr deserialize_transaction_def
        codec_okD transaction_of_proto_transaction)
  moreover have "d\<lparr>td_value := td_value d * WEI_PER_ETHER\<rparr> = d \<longleftrightarrow> td_value d = 0" for d :: TransactionData
    using ether_scaling_zero [of "td_value d"] by (cases d) simp
  ultimately show ?thesis by (simp add: received_def transaction_of_data_def)
qed

theorem transaction_round_trip_witness:
  "\<exists>t'. deserialize_transaction (dec_only (proto_transaction 0 (demo_tx 4))) [1] = Inr (Inr t')
    \<and> tx_data t' \<noteq> tx_data (demo_tx 4)"
proof -
  let ?m = "proto_transaction 0 (demo_tx 4)"
  have "fst (serialize_transaction (enc_only ?m) 0 (demo_tx 4)) = Inr [1]"
    by (simp add: serialize_transaction_def serialize_to_bytes_def enc_only_def)
  from transaction_round_trip [OF codec_ok_only demo_tx_wf(2) this]
  obtain t' where "deserialize_transaction (dec_only ?m) [1] = Inr (Inr t')"
    "tx_data t' = tx_data (demo_tx 4) \<longleftrightarrow> td_value (tx_data (demo_tx 4)) = 0" by blast
  then show ?thesis by (simp add: demo_tx_def make_transaction_def)
qed

lemma proto_transactions_Inr:
  "codec_ok enc dec \<Longrightarrow> fst (proto_transactions enc dec now txs) = Inr ms \<Longrightarrow>
    list_all2 (\<lambda>t m. enc m \<noteq> None \<and> (\<exists>n. m = proto_transaction n t)) txs ms"
proof (induction txs arbitrary: now ms)
  case (Cons t txs)
  from Cons.prems(2) obtain bs m ms' where
    s: "enc (proto_transaction (now 0) t) = Some bs" "dec bs = Some m"
    and r: "fst (proto_transactions enc dec (now \<circ> Suc) txs) = Inr ms'" "ms = m # ms'"
    by (auto simp: serialize_transaction_def serialize_to_bytes_Inr make_serialization_error_def
        split: prod.splits sum.splits option.splits)
  from codec_okD [OF Cons.prems(1) s(1)] s have "m = proto_transaction (now 0) t" by simp
  with Cons.IH [OF Cons.prems(1) r(1)] r s show ?case by auto
qed simp

lemma add_proto_transactions_eq:
  "codec_ok enc dec \<Longrightarrow> list_all (wf_txdata \<circ> tx_data) txs \<Longrightarrow>
   list_all2 (\<lambda>t m. enc m \<noteq> None \<and> (\<exists>n. m = proto_transaction n t)) txs ms \<Longrightarrow>
    add_proto_transactions enc dec ms b = Inr (Inr (fold add_transaction (map received txs) b))"
proof (induction txs arbitrary: ms b)
  case (Cons t txs)
  from Cons.prems(3) obtain m ms' n bs where "ms = m # ms'" "enc m = Some bs" "m = proto_transaction n t"
    and r: "list_all2 (\<lambda>t m. enc m \<noteq> None \<and> (\<exists>n. m = proto_transaction n t)) txs ms'"
    by (auto simp: list_all2_Cons1)
  moreover from this(2) have "dec bs = Some m" using Cons.prems(1) by (simp add: codec_okD)
  ultimately show ?case
    using Cons.IH [OF Cons.prems(1) _ r] Cons.prems(2)
    by (simp add: deserialize_transaction_def transaction_of_proto_transaction)
qed simp

lemma add_transactions_fields:
  assumes "list_all tx_coherent txs"
  shows "map tx_data (blk_transactions (fold add_transaction txs b)) = map tx_data (blk_transactions b) @ map tx_data txs
    \<and> (blk_header (fold add_transaction txs b))\<lparr>bh_merkle_root := []\<rparr> = (blk_header b)\<lparr>bh_merkle_root := []\<rparr>
    \<and> (reachable_block b \<longrightarrow> reachable_block (fold add_transaction txs b))"
  using assms
proof (induction txs arbitrary: b)
  case (Cons t txs)
  from Cons.IH [of "add_transaction t b"] Cons.prems reachable_block_add [of b t] show ?case
    by (simp add: add_transaction_def update_merkle_root_alt block_invalidate_cache_def tx_calculate_hash_keeps comp_def)
qed simp

lemma received_facts:
  "tx_coherent (received t)"
  "tx_data (received t) = (tx_data t)\<lparr>td_value := td_value (tx_data t) * WEI_PER_ETHER\<rparr>"
  by (simp_all add: received_def) (simp add: transaction_of_data_def)

lemma tx_hash_ignores_value:
  assumes "tx_coherent s" "tx_coherent t" "wf_txdata (tx_data t)" "tx_data s = (tx_data t)\<lparr>td_value := v\<rparr>"
  shows "tx_hash s = tx_hash t"
  using assms
  by (simp add: tx_hash_coherent hash_sha256_def tx_hash_input_def wf_txdata_def core_size_defs copy_into_zeros_long)

lemma map_tx_hash_received:
  assumes "list_all tx_coherent ss" "list_all tx_coherent ts" "list_all (wf_txdata \<circ> tx_data) ts"
    and "map tx_data ss = map (\<lambda>t. (tx_data t)\<lparr>td_value := f t\<rparr>) ts"
  shows "map tx_hash ss = map tx_hash ts"
proof (rule nth_equalityI)
  show len: "length (map tx_hash ss) = length (map tx_hash ts)"
    using arg_cong [OF assms(4), of length] by simp
  fix i assume "i < length (map tx_hash ss)"
  with len have i: "i < length ss" "i < length ts" by simp_all
  with arg_cong [OF assms(4), of "\<lambda>xs. xs ! i"] have "tx_data (ss ! i) = (tx_data (ts ! i))\<lparr>td_value := f (ts ! i)\<rparr>"
    by simp
  with i assms(1-3) show "map tx_hash ss ! i = map tx_hash ts ! i"
    by (simp add: list_all_length tx_hash_ignores_value [of _ "ts ! i"])
qed

lemma ucast_u32_small: "unat w < 2 ^ 32 \<Longrightarrow> ucast (ucast w :: u32) = w" for w :: u64
  by (simp add: word_unat_eq_iff unsigned_ucast_eq unsigned_take_bit_eq take_bit_nat_eq_self)

text \<open>The block a receiver gets.\<close>

definition received_block :: "Block \<Rightarrow> Block" where
  "received_block b = fold add_transaction (map received (blk_transactions b))
     (set_chain_id 1 (set_gas_price 1000000000 (set_gas_limit 21000 (set_nonce (bh_nonce (blk_header b))
        (make_block (ucast (ucast (bh_height (blk_header b)) :: u32)) (Hash (bh_parent_hash (blk_header b)))
           (Timestamp (bh_timestamp (blk_header b))))))))"

lemma received_block_fields:
  assumes "block_inv b"
  shows "block_inv (received_block b)"
    "map tx_data (blk_transactions (received_block b))
      = map (\<lambda>t. (tx_data t)\<lparr>td_value := td_value (tx_data t) * WEI_PER_ETHER\<rparr>) (blk_transactions b)"
    "(blk_header (received_block b))\<lparr>bh_merkle_root := []\<rparr>
      = (blk_header b)\<lparr>bh_merkle_root := [], bh_height := ucast (ucast (bh_height (blk_header b)) :: u32),
          bh_gas_limit := 21000, bh_gas_price := 1000000000, bh_chain_id := 1\<rparr>"
proof -
  let ?b0 = "set_chain_id 1 (set_gas_price 1000000000 (set_gas_limit 21000 (set_nonce (bh_nonce (blk_header b))
        (make_block (ucast (ucast (bh_height (blk_header b)) :: u32)) (Hash (bh_parent_hash (blk_header b)))
           (Timestamp (bh_timestamp (blk_header b)))))))"
  have "reachable_block ?b0"
    using assms by (intro reachable_block_intros) (simp add: block_inv_def wf_header_def wf_hash_def)
  moreover have "list_all tx_coherent (map received (blk_transactions b))" by (simp add: list_all_iff received_facts)
  note f = add_transactions_fields [OF this, of ?b0, folded received_block_def]
  ultimately show "block_inv (received_block b)" by (simp add: reachable_block_inv)
  show "map tx_data (blk_transactions (received_block b))
      = map (\<lambda>t. (tx_data t)\<lparr>td_value := td_value (tx_data t) * WEI_PER_ETHER\<rparr>) (blk_transactions b)"
    using f by (simp add: block_setter_defs make_block_def received_facts)
  show "(blk_header (received_block b))\<lparr>bh_merkle_root := []\<rparr>
      = (blk_header b)\<lparr>bh_merkle_root := [], bh_height := ucast (ucast (bh_height (blk_header b)) :: u32),
          bh_gas_limit := 21000, bh_gas_price := 1000000000, bh_chain_id := 1\<rparr>"
    using f by (simp add: block_setter_defs make_block_def)
qed

lemma received_block_root:
  assumes "block_inv b" "list_all (wf_txdata \<circ> tx_data) (blk_transactions b)"
  shows "bh_merkle_root (blk_header (received_block b)) = bh_merkle_root (blk_header b)"
proof -
  have "list_all tx_coherent (blk_transactions (received_block b))" "list_all tx_coherent (blk_transactions b)"
    using assms(1) received_block_fields(1) by (simp_all add: block_inv_def)
  from map_tx_hash_received [OF this assms(2) received_block_fields(2) [OF assms(1)]]
  show ?thesis using assms(1) received_block_fields(1) [OF assms(1)] by (simp add: block_inv_def)
qed

lemma received_block_header:
  assumes "block_inv b" "list_all (wf_txdata \<circ> tx_data) (blk_transactions b)"
  shows "blk_header (received_block b) = (blk_header b)\<lparr>bh_height := ucast (ucast (bh_height (blk_header b)) :: u32),
        bh_gas_limit := 21000, bh_gas_price := 1000000000, bh_chain_id := 1\<rparr>"
  using received_block_fields(3) [OF assms(1)] received_block_root [OF assms]
  by (cases "blk_header (received_block b)", cases "blk_header b") simp

lemma received_block_hash:
  assumes "block_inv b" "list_all (wf_txdata \<circ> tx_data) (blk_transactions b)" "unat (bh_height (blk_header b)) < 2 ^ 32"
  shows "block_hash (received_block b) = block_hash b"
proof -
  have "wf_header (blk_header b)" using assms(1) by (simp add: block_inv_def)
  moreover have "wf_header (blk_header (received_block b))"
    using received_block_fields(1) [OF assms(1)] by (simp add: block_inv_def)
  ultimately show ?thesis
    using block_inv_hash [OF assms(1)] block_inv_hash [OF received_block_fields(1) [OF assms(1)]]
      received_block_header [OF assms(1,2)] ucast_u32_small [OF assms(3)]
    by (simp add: block_hash_input_short)
qed

text \<open>What the receiver makes of the bytes depends on the block alone.\<close>

lemma deserialize_serialize_block:
  assumes "codec_ok enc_tx dec_tx" "codec_ok enc dec"
    and "reachable_block b" "list_all (wf_txdata \<circ> tx_data) (blk_transactions b)"
    and "fst (serialize_block enc_tx dec_tx enc now b) = Inr bs"
  shows "deserialize_block enc_tx dec_tx dec bs = Inr (Inr (received_block b))"
proof -
  let ?h = "blk_header b"
  have inv: "block_inv b" using assms(3) by (rule reachable_block_inv)
  obtain ms hs n where m: "fst (proto_transactions enc_tx dec_tx now (blk_transactions b)) = Inr ms"
    and e: "enc \<lparr> pb_header = \<lparr> ph_version = 1, ph_prev_block_hash = bh_parent_hash ?h, ph_merkle_root = bh_merkle_root ?h,
            ph_timestamp = \<lparr>pt_seconds = bh_timestamp ?h, pt_nanoseconds = 0\<rparr>, ph_difficulty = 0,
            ph_nonce = bh_nonce ?h, ph_height = ucast (bh_height ?h), ph_extra_data = [] \<rparr>,
          pb_transactions = ms, pb_block_hash = hs, pb_tx_count = n \<rparr> = Some bs"
    using assms(5)
    by (auto simp: serialize_block_def serialize_to_bytes_Inr Let_def split: prod.splits sum.splits)
  show ?thesis
    using codec_okD [OF assms(2) e] inv
      add_proto_transactions_eq [OF assms(1,4) proto_transactions_Inr [OF assms(1) m]]
    by (simp add: deserialize_block_def received_block_def Let_def hash_from_vector_def block_inv_def wf_header_def)
qed

text \<open>
  C11. A block that is encoded without an error is decoded to a block with the same parent hash, timestamp,
  nonce, Merkle root and number of transactions, and with the height modulo \<open>2^32\<close>; up to that height it
  has the same block hash. The gas limit, the gas price and the chain id are not transmitted but
  replaced by constants, and the value of every transaction is multiplied by \<open>10^18\<close>: neither hash notices.
\<close>

theorem block_round_trip:
  assumes "codec_ok enc_tx dec_tx" "codec_ok enc dec"
    and "reachable_block b" "list_all (wf_txdata \<circ> tx_data) (blk_transactions b)"
    and "fst (serialize_block enc_tx dec_tx enc now b) = Inr bs"
  shows "\<exists>b'. deserialize_block enc_tx dec_tx dec bs = Inr (Inr b')
    \<and> blk_header b' = (blk_header b)\<lparr>bh_height := ucast (ucast (bh_height (blk_header b)) :: u32),
        bh_gas_limit := 21000, bh_gas_price := 1000000000, bh_chain_id := 1\<rparr>
    \<and> map tx_data (blk_transactions b')
        = map (\<lambda>t. (tx_data t)\<lparr>td_value := td_value (tx_data t) * WEI_PER_ETHER\<rparr>) (blk_transactions b)
    \<and> (unat (bh_height (blk_header b)) < 2 ^ 32 \<longrightarrow> block_hash b' = block_hash b)"
  using deserialize_serialize_block [OF assms] received_block_header [OF _ assms(4)] received_block_fields(2)
    received_block_hash [OF _ assms(4)] reachable_block_inv [OF assms(3)]
  by blast

definition demo_block :: Block where
  "demo_block = add_transaction (demo_tx 9) (set_chain_id 7 (make_block 12 hash_zero (Timestamp 5)))"

definition demo_proto_tx :: ProtoTransaction where
  "demo_proto_tx = proto_transaction 3 (snd (tx_calculate_hash (demo_tx 9)))"

definition demo_proto_block :: ProtoBlock where
  "demo_proto_block =
     \<lparr> pb_header = \<lparr> ph_version = 1, ph_prev_block_hash = replicate 32 0,
         ph_merkle_root = bh_merkle_root (blk_header demo_block),
         ph_timestamp = \<lparr>pt_seconds = 5, pt_nanoseconds = 0\<rparr>, ph_difficulty = 0, ph_nonce = 0, ph_height = 12,
         ph_extra_data = [] \<rparr>,
       pb_transactions = [demo_proto_tx],
       pb_block_hash = hash_to_bytes (block_hash (demo_block
         \<lparr>blk_transactions := [snd (tx_calculate_hash (snd (tx_calculate_hash (demo_tx 9))))]\<rparr>)),
       pb_tx_count = 1 \<rparr>"

lemma demo_block_facts:
  "reachable_block demo_block" "blk_transactions demo_block = [snd (tx_calculate_hash (demo_tx 9))]"
  "fst (serialize_block (enc_only demo_proto_tx) (dec_only demo_proto_tx) (enc_only demo_proto_block) (\<lambda>_. 3) demo_block)
    = Inr [1]"
proof -
  show "reachable_block demo_block"
    unfolding demo_block_def by (intro reachable_block_intros) simp_all
  show txs: "blk_transactions demo_block = [snd (tx_calculate_hash (demo_tx 9))]"
    by (simp add: demo_block_def add_transaction_def update_merkle_root_alt block_setter_defs make_block_def)
  have hdr: "bh_parent_hash (blk_header demo_block) = replicate 32 0" "bh_timestamp (blk_header demo_block) = 5"
    "bh_nonce (blk_header demo_block) = 0" "bh_height (blk_header demo_block) = 12"
    by (simp_all add: demo_block_def add_transaction_def update_merkle_root_alt block_setter_defs make_block_def
        hash_zero_def core_size_defs)
  show "fst (serialize_block (enc_only demo_proto_tx) (dec_only demo_proto_tx) (enc_only demo_proto_block) (\<lambda>_. 3) demo_block)
    = Inr [1]"
    by (simp add: serialize_block_def txs hdr serialize_transaction_def serialize_to_bytes_def enc_only_def dec_only_def
        demo_proto_tx_def [symmetric] Let_def) (simp add: demo_proto_block_def)
qed

theorem block_round_trip_witness:
  "\<exists>b'. deserialize_block (enc_only demo_proto_tx) (dec_only demo_proto_tx) (dec_only demo_proto_block) [1] = Inr (Inr b')
    \<and> bh_chain_id (blk_header demo_block) = 7 \<and> bh_chain_id (blk_header b') = 1 \<and> block_hash b' = block_hash demo_block"
proof -
  have "list_all (wf_txdata \<circ> tx_data) (blk_transactions demo_block)"
    by (simp add: demo_block_facts(2) tx_calculate_hash_keeps(1))
  moreover have "bh_height (blk_header demo_block) = 12" "bh_chain_id (blk_header demo_block) = 7"
    by (simp_all add: demo_block_def add_transaction_def update_merkle_root_alt block_setter_defs make_block_def)
  ultimately show ?thesis
    using block_round_trip [OF codec_ok_only codec_ok_only demo_block_facts(1) _ demo_block_facts(3)] by auto
qed

subsection \<open>Decoded values are well formed\<close>

lemma transaction_of_proto_wf:
  assumes "transaction_of_proto m = Inr (Inr t)"
  shows "wf_txdata (tx_data t) \<and> tx_coherent t"
  using assms
  by (auto simp: transaction_of_proto_def make_serialization_error_def bind_exn_def address_from_vector_def
      wf_txdata_def make_transaction_def tx_setter_defs tx_coherent_def Let_def
      split: list.splits if_splits sum.splits)

lemma add_proto_transactions_wf:
  "add_proto_transactions enc dec ms b = Inr (Inr b') \<Longrightarrow> reachable_block b \<Longrightarrow>
   list_all (wf_txdata \<circ> tx_data) (blk_transactions b) \<Longrightarrow>
    reachable_block b' \<and> list_all (wf_txdata \<circ> tx_data) (blk_transactions b')"
proof (induction ms arbitrary: b)
  case (Cons m ms)
  then obtain bs t where "deserialize_transaction dec bs = Inr (Inr t)"
    and r: "add_proto_transactions enc dec ms (add_transaction t b) = Inr (Inr b')"
    by (auto simp: make_serialization_error_def bind_exn_def split: option.splits sum.splits)
  then have t: "wf_txdata (tx_data t) \<and> tx_coherent t"
    by (auto simp: deserialize_transaction_def make_serialization_error_def transaction_of_proto_wf split: option.splits)
  have "list_all (wf_txdata \<circ> tx_data) (blk_transactions (add_transaction t b))"
    using Cons.prems(3) t
    by (simp add: add_transaction_def update_merkle_root_alt block_invalidate_cache_def list_all_iff tx_calculate_hash_keeps)
  with Cons.IH [OF r reachable_block_add] Cons.prems(2) t show ?case by blast
qed simp

lemma deserialize_block_wf:
  assumes "deserialize_block enc_tx dec_tx dec_b bs = Inr (Inr b)"
  shows "reachable_block b \<and> list_all (wf_txdata \<circ> tx_data) (blk_transactions b)"
proof -
  obtain m :: ProtoBlock and p where "hash_from_vector (ph_prev_block_hash (pb_header m)) = Inr p"
    and r: "add_proto_transactions enc_tx dec_tx (pb_transactions m)
      (set_chain_id 1 (set_gas_price 1000000000 (set_gas_limit 21000 (set_nonce (ph_nonce (pb_header m))
       (make_block (ucast (ph_height (pb_header m))) p (Timestamp (pt_seconds (ph_timestamp (pb_header m)))))))))
      = Inr (Inr b)"
    using assms
    by (auto simp: deserialize_block_def make_serialization_error_def bind_exn_def Let_def split: option.splits sum.splits)
  then have "wf_hash p" by (simp add: wf_hash_from_vector)
  then show ?thesis
    by (intro add_proto_transactions_wf [OF r] reachable_block_intros) (simp_all add: block_setter_defs make_block_def)
qed

lemma transaction_of_proto_iff:
  "transaction_of_proto m = Inr (Inr t) \<longleftrightarrow> (\<exists>inp ins out outs v p. px_inputs m = inp # ins \<and> px_outputs m = out # outs
     \<and> length (pi_pubkey inp) = ADDRESS_SIZE \<and> length (po_recipient out) = ADDRESS_SIZE
     \<and> amount_from_string (po_amount out) = Inr v \<and> stoull 10 (px_gas_price m) = Inr p
     \<and> t = transaction_of_data \<lparr> td_from = pi_pubkey inp, td_to = po_recipient out, td_value = wei v,
         td_gas_limit = px_gas_limit m, td_gas_price = p, td_data = px_data m, td_nonce = px_nonce m \<rparr>)"
  by (auto simp: transaction_of_proto_def make_serialization_error_def bind_exn_def address_from_vector_def
      make_transaction_def transaction_of_data_def tx_setter_defs Let_def split: list.splits if_splits sum.splits)

lemma transaction_of_proto_error:
  "transaction_of_proto m = Inr (Inl e) \<longleftrightarrow>
     px_inputs m = [] \<and> e = (INVALID_DATA, ''Transaction must have at least one input'')
     \<or> (\<exists>inp ins. px_inputs m = inp # ins \<and> length (pi_pubkey inp) = ADDRESS_SIZE \<and> px_outputs m = []
         \<and> e = (INVALID_DATA, ''Transaction must have at least one output''))"
  by (auto simp: transaction_of_proto_def make_serialization_error_def bind_exn_def address_from_vector_def Let_def
      split: list.splits if_splits sum.splits)

lemma add_proto_transactions_decoded:
  "add_proto_transactions enc dec ms b = Inr (Inr b') \<Longrightarrow>
   \<exists>ts. list_all2 (\<lambda>m t. \<exists>bs. enc m = Some bs \<and> deserialize_transaction dec bs = Inr (Inr t)) ms ts
     \<and> list_all tx_coherent ts \<and> b' = fold add_transaction ts b"
proof (induction ms arbitrary: b)
  case (Cons m ms)
  then obtain bs t where t: "enc m = Some bs" "deserialize_transaction dec bs = Inr (Inr t)"
    and r: "add_proto_transactions enc dec ms (add_transaction t b) = Inr (Inr b')"
    by (auto simp: make_serialization_error_def bind_exn_def split: option.splits sum.splits)
  from t(2) have "tx_coherent t"
    by (auto simp: deserialize_transaction_def make_serialization_error_def transaction_of_proto_wf split: option.splits)
  moreover obtain ts where
    "list_all2 (\<lambda>m t. \<exists>bs. enc m = Some bs \<and> deserialize_transaction dec bs = Inr (Inr t)) ms ts"
    "list_all tx_coherent ts" "b' = fold add_transaction ts (add_transaction t b)" using Cons.IH [OF r] by blast
  ultimately show ?case using t by (intro exI [of _ "t # ts"]) auto
qed simp

lemma deserialize_block_fields:
  assumes "deserialize_block enc_tx dec_tx dec_b bs = Inr (Inr b)"
  shows "\<exists>m ts. dec_b bs = Some m \<and> length (ph_prev_block_hash (pb_header m)) = HASH_SIZE
    \<and> list_all2 (\<lambda>m t. \<exists>bs. enc_tx m = Some bs \<and> deserialize_transaction dec_tx bs = Inr (Inr t)) (pb_transactions m) ts
    \<and> map tx_data (blk_transactions b) = map tx_data ts
    \<and> (blk_header b)\<lparr>bh_merkle_root := []\<rparr> =
        \<lparr> bh_height = ucast (ph_height (pb_header m)), bh_parent_hash = ph_prev_block_hash (pb_header m), bh_merkle_root = [],
          bh_timestamp = pt_seconds (ph_timestamp (pb_header m)), bh_nonce = ph_nonce (pb_header m), bh_gas_limit = 21000,
          bh_gas_price = 1000000000, bh_chain_id = 1 \<rparr>"
proof -
  let ?b = "\<lambda>m. set_chain_id 1 (set_gas_price 1000000000 (set_gas_limit 21000 (set_nonce (ph_nonce (pb_header m))
       (make_block (ucast (ph_height (pb_header m))) (Hash (ph_prev_block_hash (pb_header m)))
          (Timestamp (pt_seconds (ph_timestamp (pb_header m))))))))"
  obtain m where m: "dec_b bs = Some m" "length (ph_prev_block_hash (pb_header m)) = HASH_SIZE"
    and r: "add_proto_transactions enc_tx dec_tx (pb_transactions m) (?b m) = Inr (Inr b)"
    using assms
    by (auto simp: deserialize_block_def make_serialization_error_def bind_exn_def Let_def hash_from_vector_def
        split: option.splits sum.splits if_splits)
  from add_proto_transactions_decoded [OF r] obtain ts where
    ts: "list_all2 (\<lambda>m t. \<exists>bs. enc_tx m = Some bs \<and> deserialize_transaction dec_tx bs = Inr (Inr t)) (pb_transactions m) ts"
      "list_all tx_coherent ts" "b = fold add_transaction ts (?b m)" by blast
  have "map tx_data (blk_transactions b) = map tx_data ts"
    "(blk_header b)\<lparr>bh_merkle_root := []\<rparr> = (blk_header (?b m))\<lparr>bh_merkle_root := []\<rparr>"
    using add_transactions_fields [OF ts(2), of "?b m"] by (simp_all add: ts(3) block_setter_defs make_block_def)
  then show ?thesis using m ts(1) by (intro exI [of _ m] exI [of _ ts]) (simp add: block_setter_defs make_block_def)
qed

text \<open>
  C12. What the decoders make of arbitrary bytes, whatever the wire format makes of them. An address or a hash is returned
  exactly when the message can be parsed and has 20 or 32 bytes, and it has these bytes; otherwise the error
  says which failed, and there is no exception. A transaction is returned exactly when its first input and first output
  have 20-byte addresses and amount and gas price are numbers; its fields are those of the message, and the
  other inputs and outputs, the signature and the transmitted hash are ignored. A message without an input, or
  without an output, is an error; every other fault is an exception that escapes. A block that is returned has the
  transmitted height, parent, time and nonce, one decoded transaction for each message, in their order, and is one that
  the interface of \<open>Block\<close> builds, with a current root; the transmitted root and block hash are ignored.
\<close>

theorem decoders_exact:
  "deserialize_address dec_a bs = Inr (case dec_a bs of
       None \<Rightarrow> Inl (CORRUPTED_DATA, ''Failed to parse address protobuf'')
     | Some v \<Rightarrow> if length v = 20 then Inr (Address v) else Inl (INVALID_DATA, ''Invalid address size''))
   \<and> deserialize_hash dec_h bs = Inr (case dec_h bs of
       None \<Rightarrow> Inl (CORRUPTED_DATA, ''Failed to parse hash protobuf'')
     | Some v \<Rightarrow> if length v = 32 then Inr (Hash v) else Inl (INVALID_DATA, ''Invalid hash size''))
   \<and> (deserialize_transaction dec_tx bs = Inr (Inr t) \<longleftrightarrow>
       (\<exists>m inp ins out outs v p. dec_tx bs = Some m \<and> px_inputs m = inp # ins \<and> px_outputs m = out # outs
         \<and> length (pi_pubkey inp) = 20 \<and> length (po_recipient out) = 20
         \<and> amount_from_string (po_amount out) = Inr v \<and> stoull 10 (px_gas_price m) = Inr p
         \<and> t = transaction_of_data \<lparr> td_from = pi_pubkey inp, td_to = po_recipient out, td_value = wei v,
             td_gas_limit = px_gas_limit m, td_gas_price = p, td_data = px_data m, td_nonce = px_nonce m \<rparr>))
   \<and> (deserialize_transaction dec_tx bs = Inr (Inl e) \<longleftrightarrow>
       dec_tx bs = None \<and> e = (CORRUPTED_DATA, ''Failed to parse transaction protobuf'')
       \<or> (\<exists>m. dec_tx bs = Some m \<and> (px_inputs m = [] \<and> e = (INVALID_DATA, ''Transaction must have at least one input'')
           \<or> (\<exists>inp ins. px_inputs m = inp # ins \<and> length (pi_pubkey inp) = 20 \<and> px_outputs m = []
               \<and> e = (INVALID_DATA, ''Transaction must have at least one output'')))))
   \<and> (deserialize_block enc_tx dec_tx dec_b bs = Inr (Inr b) \<longrightarrow>
       reachable_block b \<and> list_all (wf_txdata \<circ> tx_data) (blk_transactions b)
       \<and> (\<exists>m ts. dec_b bs = Some m \<and> length (ph_prev_block_hash (pb_header m)) = 32
           \<and> list_all2 (\<lambda>m t. \<exists>bs. enc_tx m = Some bs \<and> deserialize_transaction dec_tx bs = Inr (Inr t)) (pb_transactions m) ts
           \<and> map tx_data (blk_transactions b) = map tx_data ts
           \<and> (blk_header b)\<lparr>bh_merkle_root := []\<rparr> =
               \<lparr> bh_height = ucast (ph_height (pb_header m)), bh_parent_hash = ph_prev_block_hash (pb_header m),
                 bh_merkle_root = [], bh_timestamp = pt_seconds (ph_timestamp (pb_header m)),
                 bh_nonce = ph_nonce (pb_header m), bh_gas_limit = 21000, bh_gas_price = 1000000000, bh_chain_id = 1 \<rparr>))"
    (is "?address \<and> ?hash \<and> ?tx \<and> ?err \<and> (?block \<longrightarrow> ?reach \<and> ?wf \<and> ?fields)")
proof -
  have ?address
    by (simp add: deserialize_address_def make_serialization_error_def address_from_vector_def core_size_defs split: option.splits)
  moreover have ?hash
    by (simp add: deserialize_hash_def make_serialization_error_def hash_from_vector_def core_size_defs split: option.splits)
  moreover have ?tx
    by (cases "dec_tx bs") (simp_all add: deserialize_transaction_def make_serialization_error_def transaction_of_proto_iff core_size_defs)
  moreover have ?err
    by (cases "dec_tx bs")
      (auto simp: deserialize_transaction_def make_serialization_error_def transaction_of_proto_error core_size_defs)
  moreover have "?block \<longrightarrow> ?reach \<and> ?wf" using deserialize_block_wf by blast
  moreover have "?block \<longrightarrow> ?fields"
  proof
    assume ?block
    from deserialize_block_fields [OF this] show ?fields unfolding HASH_SIZE_def .
  qed
  ultimately show ?thesis by blast
qed

theorem decoders_exact_witness:
  "deserialize_hash (dec_only (replicate 31 1)) [1] = Inr (Inl (INVALID_DATA, ''Invalid hash size''))
   \<and> (\<exists>b. deserialize_block (enc_only demo_proto_tx) (dec_only demo_proto_tx) (dec_only demo_proto_block) [1] = Inr (Inr b)
        \<and> reachable_block b \<and> length (blk_transactions b) = 1 \<and> bh_timestamp (blk_header b) = 5)"
proof -
  have "list_all (wf_txdata \<circ> tx_data) (blk_transactions demo_block)"
    by (simp add: demo_block_facts(2) tx_calculate_hash_keeps(1))
  from deserialize_serialize_block [OF codec_ok_only codec_ok_only demo_block_facts(1) this demo_block_facts(3)]
  obtain b where b: "deserialize_block (enc_only demo_proto_tx) (dec_only demo_proto_tx) (dec_only demo_proto_block) [1] = Inr (Inr b)"
    by blast
  note exact = decoders_exact [of "dec_only (replicate 20 1)" "[1]" "dec_only (replicate 31 1)" "dec_only demo_proto_tx"
      "demo_tx 9" "(INVALID_DATA, [])" "enc_only demo_proto_tx" "dec_only demo_proto_block" b]
  have r: "reachable_block b" using exact b by blast
  from exact [THEN conjunct2, THEN conjunct2, THEN conjunct2, THEN conjunct2, rule_format, OF b, THEN conjunct2, THEN conjunct2]
  obtain ts where ts: "list_all2 (\<lambda>m t. \<exists>bs. enc_only demo_proto_tx m = Some bs \<and> deserialize_transaction (dec_only demo_proto_tx) bs = Inr (Inr t))
        (pb_transactions demo_proto_block) ts" "map tx_data (blk_transactions b) = map tx_data ts"
    and h: "(blk_header b)\<lparr>bh_merkle_root := []\<rparr> =
      \<lparr> bh_height = ucast (ph_height (pb_header demo_proto_block)), bh_parent_hash = ph_prev_block_hash (pb_header demo_proto_block),
        bh_merkle_root = [], bh_timestamp = pt_seconds (ph_timestamp (pb_header demo_proto_block)),
        bh_nonce = ph_nonce (pb_header demo_proto_block), bh_gas_limit = 21000, bh_gas_price = 1000000000, bh_chain_id = 1 \<rparr>"
    by (auto simp: dec_only_def [of demo_proto_block])
  have "length (blk_transactions b) = 1"
    using list_all2_lengthD [OF ts(1)] arg_cong [OF ts(2), of length] by (simp add: demo_proto_block_def)
  moreover have "bh_timestamp (blk_header b) = 5"
    using arg_cong [OF h, of bh_timestamp] by (simp add: demo_proto_block_def)
  moreover have "deserialize_hash (dec_only (replicate 31 1)) [1] = Inr (Inl (INVALID_DATA, ''Invalid hash size''))"
    using exact [THEN conjunct2, THEN conjunct1] by (simp add: dec_only_def)
  ultimately show ?thesis using b r by blast
qed

end
