(* ===== verification/Block_Assembly.thy ===== *)
theory Block_Assembly
  imports Mempool_Runs Serialization
begin

text \<open>
  Mempool and block together: the transactions that \<open>MempoolImpl::get_transactions_for_block\<close> selects, put into
  a new block one by one with \<open>Block::add_transaction\<close>. The lemmas carry the validation of the mempool, which
  looks at one transaction, over to the validation of the block, which looks at all of them.
\<close>

subsection \<open>Pooled transactions are valid\<close>

definition valid_entries :: "(Hash \<times> MempoolEntry) list \<Rightarrow> bool" where
  "valid_entries m \<longleftrightarrow> (\<forall>e \<in> snd ` set m. tx_is_valid (en_transaction e))"

lemma valid_entries_Nil [simp]: "valid_entries []"
  by (simp add: valid_entries_def)

lemma valid_entries_erase: "valid_entries m \<Longrightarrow> valid_entries (um_erase h m)"
  by (auto simp: valid_entries_def um_erase_filter)

lemma valid_entries_fold_erase: "valid_entries m \<Longrightarrow> valid_entries (fold um_erase hs m)"
  by (induction hs arbitrary: m) (simp_all add: valid_entries_erase)

lemma valid_entries_insert: "valid_entries m \<Longrightarrow> tx_is_valid (en_transaction e) \<Longrightarrow> valid_entries (um_insert h e m)"
  by (induction m) (auto simp: valid_entries_def um_insert_def)

lemma mp_add_valid:
  assumes w: "pool_weak s" and v: "valid_entries (mp_transactions s)" and r: "mp_add_transaction True False clk tx s = Done (r, s')"
  shows "valid_entries (mp_transactions s')"
proof (cases "um_lookup (mp_transactions s) (tx_hash tx) \<noteq> None \<or> \<not> tx_accepted s tx")
  case True
  then show ?thesis using v r by (simp add: mp_add_eq split: if_splits)
next
  case new: False
  then obtain s1 where s1: "(if pool_full s then mp_evict_low_fee_transactions True True s else Done s) = Done s1"
    and s': "s' = s1 \<or> s' = pool_added clk tx s1"
    using r by (cases "if pool_full s then mp_evict_low_fee_transactions True True s else Done s") (auto simp: mp_add_eq split: if_splits)
  have "valid_entries (mp_transactions s1)"
    using s1 evict_weak [OF w, of True s1] v valid_entries_fold_erase by (cases "pool_full s") auto
  moreover have "tx_is_valid (en_transaction (entry_of clk tx))"
    using new by (simp add: mp_validate_transaction_def entry_of_def make_entry_def)
  ultimately show ?thesis using s' by (auto simp: valid_entries_insert)
qed

lemma mp_replace_valid:
  assumes "valid_entries (mp_transactions s)" "mp_replace_transaction relock False clk tx s = Done (r, s')"
  shows "valid_entries (mp_transactions s')"
  using assms(2)
proof (cases rule: mp_replace_cases)
  case (replaced h e)
  then have "tx_is_valid (snd (tx_calculate_hash tx))" by (simp add: mp_validate_transaction_def)
  then show ?thesis using replaced assms(1) by (simp add: make_entry_def valid_entries_insert valid_entries_erase)
qed (use assms(1) in \<open>simp_all add: valid_entries_erase\<close>)

lemma reachable_pool_valid: "reachable_pool relock tidy s \<Longrightarrow> valid_entries (mp_transactions s)"
proof (induction rule: reachable_pool.induct)
  case (add tidy s clk tx r s')
  then show ?case using mp_add_valid [OF reachable_pool_weak [OF add(1)] add(3) add_any_mutex [OF add(2)]] by simp
next
  case (remove tidy s h r s')
  then show ?case
    using mp_remove_weak [OF reachable_pool_weak [OF remove(1)] remove_any_mutex [OF remove(2)]] valid_entries_erase by simp
next
  case (replace tidy s clk tx x)
  then show ?case using mp_replace_valid [of s relock clk tx "fst x" "snd x"] by simp
next
  case (expire tidy s now s')
  then show ?case
    using expire_weak [OF reachable_pool_weak [OF expire(1)] expire_any_mutex [OF expire(2)]] valid_entries_fold_erase by auto
next
  case (evict tidy s s')
  then show ?case
    using evict_weak [OF reachable_pool_weak [OF evict(1)] evict_any_mutex [OF evict(2)]] valid_entries_fold_erase by auto
qed (auto simp: mp_set_config_def mp_set_added_callback_def mp_set_removed_callback_def mp_clear_def)

subsection \<open>From the selection to the block\<close>

lemma same_data:
  assumes "tx_data t = tx_data u"
  shows "tx_is_valid t = tx_is_valid u" "tx_gas_limit t = tx_gas_limit u"
    "tx_coherent t \<Longrightarrow> tx_coherent u \<Longrightarrow> tx_hash t = tx_hash u"
  using assms
  by (simp_all add: tx_validity_defs tx_hash_coherent)

lemma same_data_list:
  assumes "map tx_data ts = map tx_data us"
  shows "list_all tx_is_valid ts = list_all tx_is_valid us" "gas_sum ts = gas_sum us"
    "list_all tx_coherent ts \<Longrightarrow> list_all tx_coherent us \<Longrightarrow> map tx_hash ts = map tx_hash us"
proof -
  have eq: "list_all2 (\<lambda>t u. tx_data t = tx_data u) ts us"
    using assms by (simp add: list_all2_map1 list_all2_map2 flip: list.rel_eq)
  then show "list_all tx_is_valid ts = list_all tx_is_valid us"
  proof (induction rule: list_all2_induct)
    case (Cons t ts u us)
    then show ?case using same_data(1) [of t u] by simp
  qed simp
  from eq show "gas_sum ts = gas_sum us"
  proof (induction rule: list_all2_induct)
    case (Cons t ts u us)
    then show ?case using same_data(2) [of t u] by (simp add: gas_sum_def)
  qed simp
  from eq show "map tx_hash ts = map tx_hash us" if "list_all tx_coherent ts" "list_all tx_coherent us"
    using that
  proof (induction rule: list_all2_induct)
    case (Cons t ts u us)
    then show ?case using same_data(3) [of t u] by simp
  qed simp
qed

definition assemble_block :: "u64 \<Rightarrow> Hash \<Rightarrow> Timestamp \<Rightarrow> u64 \<Rightarrow> Transaction list \<Rightarrow> Block" where
  "assemble_block height parent ts g txs = fold add_transaction txs (set_gas_limit g (make_block height parent ts))"

lemma assemble_block_facts:
  assumes "wf_hash parent" "list_all tx_coherent txs" "b = assemble_block height parent ts g txs"
  shows "map tx_data (blk_transactions b) = map tx_data txs" "bh_gas_limit (blk_header b) = g"
    "bh_merkle_root (blk_header b) = hash_data (merkle_root_spec (map tx_hash txs))" "reachable_block b"
proof -
  let ?b = "set_gas_limit g (make_block height parent ts)"
  have r: "reachable_block ?b" using assms(1) by (intro reachable_block_gas_limit reachable_block_new)
  note f = add_transactions_fields [OF assms(2), of ?b]
  show d: "map tx_data (blk_transactions b) = map tx_data txs"
    using f by (simp add: assms(3) assemble_block_def block_setter_defs make_block_def)
  have "(blk_header b)\<lparr>bh_merkle_root := []\<rparr> = (blk_header ?b)\<lparr>bh_merkle_root := []\<rparr>"
    using f by (simp add: assms(3) assemble_block_def)
  from arg_cong [OF this, of bh_gas_limit] show "bh_gas_limit (blk_header b) = g" by (simp add: block_setter_defs)
  show "reachable_block b" using f r by (simp add: assms(3) assemble_block_def)
  then have "block_inv b" by (rule reachable_block_inv)
  then show "bh_merkle_root (blk_header b) = hash_data (merkle_root_spec (map tx_hash txs))"
    using same_data_list(3) [OF d] assms(2) by (simp add: block_inv_def)
qed

text \<open>What the selection of a pool gives and what the block assembled from it is.\<close>

lemma pool_selection:
  assumes "reachable_pool relock tidy s"
    and "\<forall>(h, e) \<in> set (mp_transactions s).
      tx_coherent (en_transaction e) \<and> unat (tx_gas_limit (en_transaction e)) + unat g < 2 ^ 64"
  shows "\<exists>txs. mp_get_transactions_for_block relock False max_count g s = Done txs \<and> length txs \<le> max_count
    \<and> set txs \<subseteq> en_transaction ` snd ` set (mp_transactions s)
    \<and> list_all tx_coherent txs \<and> list_all tx_is_valid txs \<and> gas_sum txs \<le> unat g"
proof -
  have w: "pool_weak s" using assms(1) by (rule reachable_pool_weak)
  have g: "\<forall>(h, e) \<in> set (mp_transactions s). unat (tx_gas_limit (en_transaction e)) + unat g < 2 ^ 64" using assms(2) by auto
  from block_selection [OF w, of relock max_count g] obtain txs where
    txs: "mp_get_transactions_for_block relock False max_count g s = Done txs" "length txs \<le> max_count"
    and pooled: "set txs \<subseteq> en_transaction ` snd ` set (mp_transactions s)"
    and gas: "gas_sum txs \<le> unat g" unfolding gas_sum_def using g by blast
  have "list_all tx_coherent txs" using pooled assms(2) by (fastforce simp: list_all_iff)
  moreover have "list_all tx_is_valid txs"
    using pooled reachable_pool_valid [OF assms(1)] by (fastforce simp: list_all_iff valid_entries_def)
  ultimately show ?thesis using txs gas pooled by blast
qed

lemma assembled_checks:
  assumes "wf_hash parent" "list_all tx_coherent txs" "list_all tx_is_valid txs" "gas_sum txs \<le> unat g"
    and "b = assemble_block height parent ts g txs"
  shows "list_all tx_is_valid (blk_transactions b)" "gas_sum (blk_transactions b) \<le> unat g" "validate_transactions b"
proof -
  note facts = assemble_block_facts [OF assms(1,2,5)]
  show valid: "list_all tx_is_valid (blk_transactions b)" using assms(3) same_data_list(1) [OF facts(1)] by simp
  show sum: "gas_sum (blk_transactions b) \<le> unat g" using assms(4) same_data_list(2) [OF facts(1)] by simp
  then have "gas_within g 0 (blk_transactions b)"
    using gas_within_exact [of 0 "blk_transactions b" g] order.strict_trans1 [OF sum unsigned_less] by simp
  then show "validate_transactions b"
    using valid by (simp add: validate_transactions_def validate_gas_limits_def facts(2))
qed

text \<open>
  A block assembled from the mempool passes the transaction checks of the block: on a reachable pool whose
  transactions were not changed behind their cached hash, the selection for a gas limit returns, and the
  block with that gas limit to which its transactions are added has exactly these transactions, at most
  \<open>max_count\<close> of them, all valid and together within the gas limit, and the Merkle root over their hashes.
\<close>

theorem assembled_block_valid:
  assumes "reachable_pool relock tidy s" "wf_hash parent"
    and "\<forall>(h, e) \<in> set (mp_transactions s).
      tx_coherent (en_transaction e) \<and> unat (tx_gas_limit (en_transaction e)) + unat g < 2 ^ 64"
  shows "\<exists>txs b. mp_get_transactions_for_block relock False max_count g s = Done txs
    \<and> b = assemble_block height parent ts g txs
    \<and> map tx_data (blk_transactions b) = map tx_data txs \<and> length txs \<le> max_count
    \<and> validate_transactions b
    \<and> bh_merkle_root (blk_header b) = hash_data (merkle_root_spec (map tx_hash txs))"
proof -
  obtain txs where txs: "mp_get_transactions_for_block relock False max_count g s = Done txs" "length txs \<le> max_count"
    and ok: "list_all tx_coherent txs" "list_all tx_is_valid txs" "gas_sum txs \<le> unat g"
    using pool_selection [OF assms(1,3), of max_count] by blast
  let ?b = "assemble_block height parent ts g txs"
  note facts = assemble_block_facts(1,3) [OF assms(2) ok(1) refl, of height ts g]
    and check = assembled_checks(3) [OF assms(2) ok refl, of height ts]
  show ?thesis by (rule exI [of _ txs], rule exI [of _ ?b]) (simp add: txs facts check)
qed

theorem assembled_block_valid_witness:
  "\<exists>s txs b. mp_add_transaction True False (\<lambda>i. 7) pool_tx (make_mempool default_config) = Done (SUCCESS, s)
    \<and> mp_get_transactions_for_block True False 10 30000 s = Done txs
    \<and> b = assemble_block 1 hash_zero (Timestamp 0) 30000 txs \<and> validate_transactions b"
proof -
  obtain s where s: "mp_add_transaction True False (\<lambda>i. 7) pool_tx (make_mempool default_config) = Done (SUCCESS, s)"
    "mp_transactions s = [(tx_hash pool_tx, make_entry 7 7 (snd (tx_calculate_hash pool_tx)))]"
    using pool_tx_added by blast
  have "reachable_pool True True s" using reachable_pool.add [OF reachable_pool.new s(1)] .
  moreover have "tx_gas_limit (snd (tx_calculate_hash pool_tx)) = 21000" "tx_coherent (snd (tx_calculate_hash pool_tx))"
    by (simp_all add: tx_gas_limit_def tx_calculate_hash_keeps pool_tx_def make_transaction_def tx_coherent_def
        tx_setter_defs tx_calculate_hash_def Let_def)
  moreover have "wf_hash hash_zero" by simp
  ultimately show ?thesis
    using assembled_block_valid [of True True s hash_zero 30000 10 1 "Timestamp 0"] s by (auto simp: make_entry_def)
qed

end
