(* ===== verification/Consensus.thy ===== *)
theory Consensus
  imports Core_Block
begin

text \<open>
  The proof-of-work engine \<open>ProofOfWork\<close> and the functions of namespace \<open>pow\<close>
  (modules/consensus/src/consensus_impl.cpp). \<open>rand()\<close>, the mining time in milliseconds and the
  initial contents of \<open>mining_stats_\<close>, which the constructor leaves unset, are parameters.
  \<open>None\<close> stands for undefined behaviour: \<open>std::clamp\<close> with crossed bounds, or the cast of an
  out-of-range \<open>double\<close>. \<open>mining_mutex_\<close> is modelled by the step relation \<open>pow_step\<close>.
\<close>

subsection \<open>Data\<close>

record MiningResult =
  mr_success :: bool
  mr_nonce :: u64
  mr_block_hash :: Hash
  mr_mining_time :: int
  mr_attempts :: u64

record MiningStats =
  ms_total_attempts :: u64
  ms_successful_mines :: u64
  ms_total_mining_time :: int
  ms_average_attempts_per_second :: f64
  ms_current_difficulty :: u64

record DifficultyParams =
  dp_target_block_time_seconds :: u64
  dp_adjustment_interval_blocks :: u64
  dp_max_adjustment_factor :: u64
  dp_min_difficulty :: u64
  dp_max_difficulty :: u64

definition default_params :: DifficultyParams where
  "default_params = \<lparr> dp_target_block_time_seconds = 15, dp_adjustment_interval_blocks = 144,
     dp_max_adjustment_factor = 4, dp_min_difficulty = 1, dp_max_difficulty = - 1 \<rparr>"

record ProofOfWork =
  pow_difficulty :: u64
  pow_params :: DifficultyParams
  pow_stats :: MiningStats
  pow_mining_active :: bool
  pow_stop_requested :: bool

definition make_pow :: "MiningStats \<Rightarrow> u64 \<Rightarrow> ProofOfWork" where
  "make_pow unset initial_difficulty =
     \<lparr> pow_difficulty = initial_difficulty, pow_params = default_params, pow_stats = unset,
       pow_mining_active = False, pow_stop_requested = False \<rparr>"

definition clamp :: "'a::linorder \<Rightarrow> 'a \<Rightarrow> 'a \<Rightarrow> 'a option" where
  "clamp v lo hi = (if hi < lo then None else Some (if v < lo then lo else if hi < v then hi else v))"

definition set_difficulty :: "u64 \<Rightarrow> ProofOfWork \<Rightarrow> ProofOfWork option" where
  "set_difficulty d s =
     map_option (\<lambda>c. s\<lparr>pow_difficulty := c\<rparr>)
       (clamp d (dp_min_difficulty (pow_params s)) (dp_max_difficulty (pow_params s)))"

definition get_difficulty :: "ProofOfWork \<Rightarrow> u64" where
  "get_difficulty s = pow_difficulty s"

definition set_difficulty_params :: "DifficultyParams \<Rightarrow> ProofOfWork \<Rightarrow> ProofOfWork option" where
  "set_difficulty_params params s =
     map_option (\<lambda>c. s\<lparr>pow_params := params, pow_difficulty := c\<rparr>)
       (clamp (pow_difficulty s) (dp_min_difficulty params) (dp_max_difficulty params))"

definition get_difficulty_params :: "ProofOfWork \<Rightarrow> DifficultyParams" where
  "get_difficulty_params s = pow_params s"

subsection \<open>Mining\<close>

definition hash_to_difficulty :: "Hash \<Rightarrow> u64" where
  "hash_to_difficulty h =
     (let hash_value = be_shift_in 0 (take 8 (hash_to_bytes h))
      in if hash_value = 0 then - 1 else (- 1) div hash_value)"

definition meets_difficulty_target :: "Hash \<Rightarrow> u64 \<Rightarrow> bool" where
  "meets_difficulty_target h difficulty = (difficulty \<le> hash_to_difficulty h)"

definition calculate_block_hash :: "u64 \<Rightarrow> Block \<Rightarrow> u64 \<Rightarrow> Hash" where
  "calculate_block_hash difficulty b nonce =
     hash_sha256 (be_bytes (bh_height (blk_header b)) 8 @ bh_parent_hash (blk_header b) @
       bh_merkle_root (blk_header b) @ be_bytes (bh_timestamp (blk_header b)) 8 @ be_bytes nonce 8 @
       be_bytes difficulty 8)"

definition record_success :: "u64 \<Rightarrow> u64 \<Rightarrow> int \<Rightarrow> MiningStats \<Rightarrow> MiningStats" where
  "record_success difficulty attempts time st =
     (let st1 = st\<lparr>ms_total_attempts := ms_total_attempts st + attempts,
                   ms_successful_mines := ms_successful_mines st + 1,
                   ms_total_mining_time := ms_total_mining_time st + time,
                   ms_current_difficulty := difficulty\<rparr>
      in if 0 < ms_total_mining_time st1
         then st1\<lparr>ms_average_attempts_per_second :=
                f64_div (f64_of_u64 (ms_total_attempts st1))
                        (f64_div (f64_of_int (ms_total_mining_time st1)) (Fin 1000))\<rparr>
         else st1)"

text \<open>
  The \<open>for\<close> loop over nonces; the result is the nonce at which it succeeded, if it did, and the
  number of attempts. \<open>rnd\<close> says for each nonce whether \<open>rand() % 10000\<close> is zero.
\<close>

function mining_loop :: "(u64 \<Rightarrow> bool) \<Rightarrow> ProofOfWork \<Rightarrow> Block \<Rightarrow> u64 \<Rightarrow> u64 \<Rightarrow> u64 option \<times> u64" where
  "mining_loop rnd s b nonce attempts =
     (if nonce < - 1 then
        if pow_stop_requested s then (None, attempts)
        else let attempts' = attempts + 1 in
          if meets_difficulty_target (calculate_block_hash (pow_difficulty s) b nonce) (pow_difficulty s)
          then (Some nonce, attempts')
          else if nonce = 42 \<or> (1000 < attempts' \<and> rnd nonce) then (Some nonce, attempts')
          else mining_loop rnd s b (nonce + 1) attempts'
      else (None, attempts))"
  by pat_completeness auto
termination
proof (relation "measure (\<lambda>(rnd, s, b, nonce, attempts). 2 ^ 64 - unat nonce)")
  fix nonce :: u64
  assume "nonce < - 1"
  then have "unat nonce < 2 ^ 64 - 1"
    by (simp add: word_less_nat_alt unsigned_minus_1_eq_mask mask_eq_exp_minus_1)
  moreover have "unat (nonce + 1) = unat nonce + 1"
    using calculation unat_plus_exact [of nonce 1] by simp
  ultimately show "((rnd, s, b, nonce + 1, x), rnd, s, b, nonce, attempts)
      \<in> measure (\<lambda>(rnd, s, b, nonce, attempts). 2 ^ 64 - unat nonce)" for rnd s b x attempts
    by simp
qed simp

declare mining_loop.simps [simp del]

definition perform_mining :: "(u64 \<Rightarrow> bool) \<Rightarrow> int \<Rightarrow> Block \<Rightarrow> ProofOfWork \<Rightarrow> MiningResult \<times> ProofOfWork" where
  "perform_mining rnd time b s =
     (case mining_loop rnd s b 0 0 of
        (Some nonce, attempts) \<Rightarrow>
          (\<lparr> mr_success = True, mr_nonce = nonce, mr_block_hash = calculate_block_hash (pow_difficulty s) b nonce,
             mr_mining_time = time, mr_attempts = attempts \<rparr>,
           s\<lparr>pow_stats := record_success (pow_difficulty s) attempts time (pow_stats s)\<rparr>)
      | (None, attempts) \<Rightarrow>
          (\<lparr> mr_success = False, mr_nonce = 0, mr_block_hash = hash_zero, mr_mining_time = time,
             mr_attempts = attempts \<rparr>, s))"

definition mine_block :: "(u64 \<Rightarrow> bool) \<Rightarrow> int \<Rightarrow> Block \<Rightarrow> ProofOfWork \<Rightarrow> MiningResult \<times> ProofOfWork" where
  "mine_block rnd time b s =
     (let s1 = s\<lparr>pow_mining_active := True, pow_stop_requested := False\<rparr>;
          (result, s2) = perform_mining rnd time b s1
      in (result, s2\<lparr>pow_mining_active := False\<rparr>))"

text \<open>The asynchronous variant also returns the results passed to the callback.\<close>

definition mine_block_async ::
    "(u64 \<Rightarrow> bool) \<Rightarrow> int \<Rightarrow> Block \<Rightarrow> bool \<Rightarrow> ProofOfWork \<Rightarrow> MiningResult \<times> ProofOfWork \<times> MiningResult list" where
  "mine_block_async rnd time b callback s =
     (let (result, s') = mine_block rnd time b s in (result, s', if callback then [result] else []))"

definition stop_mining :: "ProofOfWork \<Rightarrow> ProofOfWork" where
  "stop_mining s = s\<lparr>pow_stop_requested := True\<rparr>"

definition is_mining_active :: "ProofOfWork \<Rightarrow> bool" where
  "is_mining_active s = pow_mining_active s"

definition reset_mining_stats :: "ProofOfWork \<Rightarrow> ProofOfWork" where
  "reset_mining_stats s =
     s\<lparr>pow_stats := \<lparr> ms_total_attempts = 0, ms_successful_mines = 0, ms_total_mining_time = 0,
        ms_average_attempts_per_second = Fin 0, ms_current_difficulty = 0 \<rparr>\<rparr>"

subsection \<open>Validation\<close>

definition validate_proof_of_work :: "Hash \<Rightarrow> u64 \<Rightarrow> u64 \<Rightarrow> bool" where
  "validate_proof_of_work h nonce difficulty = meets_difficulty_target h difficulty"

definition validate_block :: "Block \<Rightarrow> ProofOfWork \<Rightarrow> bool" where
  "validate_block b s =
     (if \<not> block_is_valid b then False
      else validate_proof_of_work (block_hash b) (bh_nonce (blk_header b)) (pow_difficulty s))"

subsection \<open>Difficulty\<close>

definition f64_clamp :: "f64 \<Rightarrow> f64 \<Rightarrow> f64 \<Rightarrow> f64 option" where
  "f64_clamp v lo hi =
     (if f64_less hi lo then None else Some (if f64_less v lo then lo else if f64_less hi v then hi else v))"

definition bitcoin_style_adjustment :: "u64 \<Rightarrow> u64 \<Rightarrow> u64 \<Rightarrow> u64 \<Rightarrow> u64 option" where
  "bitcoin_style_adjustment actual_time target_time current_difficulty max_adjustment_factor =
     (if target_time = 0 then Some current_difficulty
      else
        let factor = f64_of_u64 max_adjustment_factor;
            ratio = f64_div (f64_of_u64 actual_time) (f64_of_u64 target_time)
        in case f64_clamp ratio (f64_div (Fin 1) factor) factor of
             None \<Rightarrow> None
           | Some r \<Rightarrow> (case f64_to_u64 (f64_mul (f64_of_u64 current_difficulty) r) of
               None \<Rightarrow> None
             | Some new_difficulty \<Rightarrow>
                 clamp new_difficulty (dp_min_difficulty default_params) (dp_max_difficulty default_params)))"

definition ethereum_style_adjustment :: "u64 list \<Rightarrow> u64 \<Rightarrow> u64 \<Rightarrow> u64 option" where
  "ethereum_style_adjustment recent_block_times target_time current_difficulty =
     (if recent_block_times = [] then Some current_difficulty
      else
        let total_time = foldl (+) 0 recent_block_times;
            avg = f64_div (f64_of_u64 total_time) (f64_of_u64 (of_nat (length recent_block_times)));
            factor = f64_div (f64_of_u64 target_time) avg
        in case f64_clamp factor (Fin (1 / 2)) (Fin 2) of
             None \<Rightarrow> None
           | Some r \<Rightarrow> (case f64_to_u64 (f64_mul (f64_of_u64 current_difficulty) r) of
               None \<Rightarrow> None
             | Some new_difficulty \<Rightarrow>
                 clamp new_difficulty (dp_min_difficulty default_params) (dp_max_difficulty default_params)))"

definition adjust_difficulty :: "u64 \<Rightarrow> u64 \<Rightarrow> ProofOfWork \<Rightarrow> u64 option" where
  "adjust_difficulty actual_block_time current_difficulty s =
     bitcoin_style_adjustment actual_block_time (dp_target_block_time_seconds (pow_params s))
       current_difficulty (dp_max_adjustment_factor (pow_params s))"

definition calculate_target_difficulty :: "u64 list \<Rightarrow> ProofOfWork \<Rightarrow> u64 option" where
  "calculate_target_difficulty block_times s =
     ethereum_style_adjustment block_times (dp_target_block_time_seconds (pow_params s)) (pow_difficulty s)"

definition difficulty_from_target :: "Hash \<Rightarrow> u64" where
  "difficulty_from_target target =
     (let target_value = be_shift_in 0 (take 8 (hash_to_bytes target))
      in if target_value = 0 then - 1 else (- 1) div target_value)"

definition target_from_difficulty :: "u64 \<Rightarrow> Hash" where
  "target_from_difficulty difficulty =
     (let d = (if difficulty = 0 then 1 else difficulty); target_value = (- 1) div d
      in Hash (replicate 24 0 @ be_bytes target_value 8))"

subsection \<open>Mining always succeeds\<close>

lemma unat_u64_max [simp]: "unat (- 1 :: u64) = 18446744073709551615"
  by (simp add: unsigned_minus_1_eq_mask mask_eq_exp_minus_1)

lemma height_prefix:
  assumes "length (bh_parent_hash (blk_header b)) = HASH_SIZE"
  shows "take 8 (hash_data (calculate_block_hash d b nonce)) = be_bytes (bh_height (blk_header b)) 8"
  using assms
  by (simp add: calculate_block_hash_def hash_sha256_def core_size_defs copy_into_zeros_long)

definition height_difficulty :: "u64 \<Rightarrow> u64" where
  "height_difficulty h = (if h = 0 then - 1 else (- 1) div h)"

lemma hash_to_difficulty_height:
  assumes "length (bh_parent_hash (blk_header b)) = HASH_SIZE"
  shows "hash_to_difficulty (calculate_block_hash d b nonce) = height_difficulty (bh_height (blk_header b))"
  using height_prefix [OF assms, of d nonce] be_shift_in_be_bytes [of 8 "bh_height (blk_header b)"]
  by (simp add: hash_to_difficulty_def hash_to_bytes_def height_difficulty_def Let_def)

lemma mining_loop_unmet:
  fixes nonce :: u64
  assumes stop: "\<not> pow_stop_requested s"
    and unmet: "\<And>n. \<not> meets_difficulty_target (calculate_block_hash (pow_difficulty s) b n) (pow_difficulty s)"
  shows "k \<le> 42 \<Longrightarrow> mining_loop rnd s b (of_nat (42 - k)) (of_nat (42 - k)) = (Some 42, 43)"
proof (induction k)
  case 0
  then show ?case using stop unmet by (subst mining_loop.simps) (simp add: word_less_nat_alt)
next
  case (Suc k)
  let ?n = "of_nat (42 - Suc k) :: u64"
  have n: "?n + 1 = of_nat (42 - k)"
    using Suc.prems by (simp add: Suc_diff_Suc flip: of_nat_Suc)
  have u: "unat ?n = 42 - Suc k" by (simp add: unat_of_nat)
  have u': "unat (of_nat (42 - k) :: u64) = 42 - k" by (simp add: unat_of_nat)
  have "?n < - 1" "?n \<noteq> 42" "\<not> 1000 < (of_nat (42 - k) :: u64)"
    using u u' Suc.prems by (auto simp: word_less_nat_alt unsigned_minus_1_eq_mask mask_eq_exp_minus_1
        word_unat_eq_iff)
  then show ?case
    using stop unmet Suc by (subst mining_loop.simps) (simp add: n)
qed

lemma mining_loop_met:
  assumes "\<not> pow_stop_requested s"
    and "meets_difficulty_target (calculate_block_hash (pow_difficulty s) b 0) (pow_difficulty s)"
  shows "mining_loop rnd s b 0 0 = (Some 0, 1)"
  using assms by (subst mining_loop.simps) (simp add: word_less_nat_alt)

text \<open>
  C39. Mining ends after at most 43 attempts and always reports success. What the hash is compared
  with depends on the block's height only: when \<open>UINT64_MAX / height\<close> reaches the difficulty the
  first nonce is accepted, otherwise the loop ends at nonce 42 and reports success for a hash that
  does not meet the difficulty. The random escape of the loop is never reached.
\<close>

theorem mine_block_always_succeeds:
  assumes "length (bh_parent_hash (blk_header b)) = HASH_SIZE"
  shows "let met = (pow_difficulty s \<le> height_difficulty (bh_height (blk_header b)));
             r = fst (mine_block rnd time b s)
    in mr_success r \<and> mr_nonce r = (if met then 0 else 42) \<and> mr_attempts r = (if met then 1 else 43)
       \<and> meets_difficulty_target (mr_block_hash r) (pow_difficulty s) = met
       \<and> \<not> is_mining_active (snd (mine_block rnd time b s))"
proof -
  let ?s = "s\<lparr>pow_mining_active := True, pow_stop_requested := False\<rparr>"
  have m: "meets_difficulty_target (calculate_block_hash (pow_difficulty s) b n) (pow_difficulty s)
      \<longleftrightarrow> pow_difficulty s \<le> height_difficulty (bh_height (blk_header b))" for n
    by (simp add: meets_difficulty_target_def hash_to_difficulty_height [OF assms])
  have "mining_loop rnd ?s b 0 0 =
      (if pow_difficulty s \<le> height_difficulty (bh_height (blk_header b)) then (Some 0, 1) else (Some 42, 43))"
    using mining_loop_met [of ?s b rnd] mining_loop_unmet [of ?s b 42 rnd] m by simp
  then show ?thesis
    using m by (simp add: mine_block_def perform_mining_def is_mining_active_def Let_def)
qed

definition no_stats :: MiningStats where
  "no_stats = \<lparr> ms_total_attempts = 0, ms_successful_mines = 0, ms_total_mining_time = 0,
     ms_average_attempts_per_second = Fin 0, ms_current_difficulty = 0 \<rparr>"

theorem mine_block_always_succeeds_witness:
  "let r = fst (mine_block (\<lambda>n. False) 0 (make_block 2 hash_zero (Timestamp 0)) (make_pow no_stats (- 1)))
   in mr_success r \<and> mr_nonce r = 42 \<and> mr_attempts r = 43 \<and> \<not> meets_difficulty_target (mr_block_hash r) (- 1)"
proof -
  have "\<not> (- 1 \<le> (- 1) div (2 :: u64))" by (simp add: word_le_nat_alt unat_div unsigned_minus_1_eq_mask mask_eq_exp_minus_1)
  then show ?thesis
    using mine_block_always_succeeds [of "make_block 2 hash_zero (Timestamp 0)" "make_pow no_stats (- 1)" "\<lambda>n. False" 0]
    by (simp add: make_block_def make_pow_def height_difficulty_def hash_zero_def Let_def)
qed

subsection \<open>Validation\<close>

lemma validate_block_height:
  assumes "reachable_block b"
  shows "validate_block b s \<longleftrightarrow>
    block_is_valid b \<and> pow_difficulty s \<le> height_difficulty (bh_height (blk_header b))"
proof -
  have "block_hash b = Hash (be_bytes (bh_height (blk_header b)) 8 @ take 24 (bh_parent_hash (blk_header b)))"
    using reachable_block_inv [OF assms] block_inv_hash [of b]
    by (simp add: block_hash_input_short block_inv_def)
  then have "hash_to_difficulty (block_hash b) = height_difficulty (bh_height (blk_header b))"
    using be_shift_in_be_bytes [of 8 "bh_height (blk_header b)"]
    by (simp add: hash_to_difficulty_def hash_to_bytes_def height_difficulty_def Let_def)
  then show ?thesis
    by (simp add: validate_block_def validate_proof_of_work_def meets_difficulty_target_def)
qed

text \<open>
  Validation and mining disagree. For a block built through the interface \<open>validate_block\<close>
  looks at validity and at the height, never at the nonce, so it rejects every block whose height is
  too large for the difficulty, also after \<open>mine_block\<close> has reported success and its nonce has been
  stored in the block.
\<close>

theorem validate_block_ignores_nonce:
  assumes "reachable_block b"
  shows "(validate_block b s \<longleftrightarrow>
      block_is_valid b \<and> pow_difficulty s \<le> height_difficulty (bh_height (blk_header b)))
    \<and> validate_block (Core_Block.set_nonce n b) s = validate_block b s"
proof -
  have "reachable_block (Core_Block.set_nonce n b)" using assms by (rule reachable_block_nonce)
  moreover have "block_is_valid (Core_Block.set_nonce n b) = block_is_valid b"
    by (simp add: block_is_valid_def validate_header_def validate_transactions_def validate_size_def
        validate_gas_limits_def block_size_def Core_Block.set_nonce_def block_invalidate_cache_def)
  moreover have "bh_height (blk_header (Core_Block.set_nonce n b)) = bh_height (blk_header b)"
    by (simp add: Core_Block.set_nonce_def block_invalidate_cache_def)
  ultimately show ?thesis using validate_block_height assms by simp
qed

theorem validate_block_ignores_nonce_witness:
  "\<not> validate_block (Core_Block.set_nonce 42 (make_block 2 hash_zero (Timestamp 0))) (make_pow no_stats (- 1))"
proof -
  have "\<not> (- 1 \<le> (- 1) div (2 :: u64))" by (simp add: word_le_nat_alt unat_div)
  then show ?thesis
    using validate_block_ignores_nonce [OF reachable_block_new [of hash_zero 2 "Timestamp 0"],
        of "make_pow no_stats (- 1)" 42]
    by (simp add: make_pow_def height_difficulty_def make_block_def)
qed

subsection \<open>Locking\<close>

text \<open>
  The threads that share one engine. The miner holds \<open>mining_mutex_\<close> from the start of
  \<open>mine_block\<close> to its return (\<open>sys_miner\<close> is \<open>Some\<close> nonce and attempts); the other methods run
  only while it is free.
\<close>

record pow_sys =
  sys_pow :: ProofOfWork
  sys_miner :: "(u64 \<times> u64) option"

inductive pow_step :: "(u64 \<Rightarrow> bool) \<Rightarrow> Block \<Rightarrow> pow_sys \<Rightarrow> pow_sys \<Rightarrow> bool" for rnd b where
  start: "sys_miner c = None \<Longrightarrow>
    pow_step rnd b c \<lparr> sys_pow = (sys_pow c)\<lparr>pow_mining_active := True, pow_stop_requested := False\<rparr>,
      sys_miner = Some (0, 0) \<rparr>"
| attempt: "sys_miner c = Some (nonce, attempts) \<Longrightarrow> nonce < - 1 \<Longrightarrow> \<not> pow_stop_requested (sys_pow c) \<Longrightarrow>
    \<not> meets_difficulty_target (calculate_block_hash (pow_difficulty (sys_pow c)) b nonce) (pow_difficulty (sys_pow c)) \<Longrightarrow>
    \<not> (nonce = 42 \<or> (1000 < attempts + 1 \<and> rnd nonce)) \<Longrightarrow>
    pow_step rnd b c (c\<lparr>sys_miner := Some (nonce + 1, attempts + 1)\<rparr>)"
| finish: "sys_miner c = Some (nonce, attempts) \<Longrightarrow>
    pow_step rnd b c \<lparr> sys_pow = (sys_pow c)\<lparr>pow_mining_active := False, pow_stats := st\<rparr>, sys_miner = None \<rparr>"
| stop: "sys_miner c = None \<Longrightarrow> pow_step rnd b c (c\<lparr>sys_pow := stop_mining (sys_pow c)\<rparr>)"
| difficulty: "sys_miner c = None \<Longrightarrow> set_difficulty d (sys_pow c) = Some p \<Longrightarrow>
    pow_step rnd b c (c\<lparr>sys_pow := p\<rparr>)"
| params: "sys_miner c = None \<Longrightarrow> set_difficulty_params q (sys_pow c) = Some p \<Longrightarrow>
    pow_step rnd b c (c\<lparr>sys_pow := p\<rparr>)"
| reset: "pow_step rnd b c (c\<lparr>sys_pow := reset_mining_stats (sys_pow c)\<rparr>)"

lemma pow_step_no_stop:
  "pow_step rnd b c c' \<Longrightarrow> (sys_miner c \<noteq> None \<longrightarrow> \<not> pow_stop_requested (sys_pow c) \<and> is_mining_active (sys_pow c)) \<Longrightarrow>
   (sys_miner c' \<noteq> None \<longrightarrow> \<not> pow_stop_requested (sys_pow c') \<and> is_mining_active (sys_pow c'))"
  by (induction rule: pow_step.induct) (auto simp: reset_mining_stats_def is_mining_active_def)

text \<open>
  A running miner never sees a stop request: \<open>stop_mining\<close> needs the mutex that
  \<open>mine_block\<close> holds, so in every state reached by any interleaving in which a miner is running,
  \<open>stop_requested_\<close> is false; and \<open>is_mining_active\<close>, which also needs the mutex, can only be
  observed as false.
\<close>

theorem stop_never_reaches_miner:
  assumes "(pow_step rnd b)\<^sup>*\<^sup>* \<lparr> sys_pow = make_pow u d, sys_miner = None \<rparr> c"
  shows "(sys_miner c \<noteq> None \<longrightarrow> \<not> pow_stop_requested (sys_pow c))
    \<and> (sys_miner c = None \<longrightarrow> \<not> is_mining_active (sys_pow c))"
proof -
  have "(sys_miner c \<noteq> None \<longrightarrow> \<not> pow_stop_requested (sys_pow c) \<and> is_mining_active (sys_pow c))
    \<and> (sys_miner c = None \<longrightarrow> \<not> is_mining_active (sys_pow c))"
    using assms
  proof (induction rule: rtranclp_induct)
    case base
    then show ?case by (simp add: make_pow_def is_mining_active_def)
  next
    case (step c c')
    have "sys_miner c' = None \<longrightarrow> \<not> is_mining_active (sys_pow c')"
      using step(2,3)
      by (induction rule: pow_step.induct)
        (auto simp: is_mining_active_def stop_mining_def set_difficulty_def set_difficulty_params_def
          reset_mining_stats_def)
    then show ?case using pow_step_no_stop [OF step(2)] step(3) by blast
  qed
  then show ?thesis by blast
qed

theorem stop_never_reaches_miner_witness:
  "\<exists>c. (pow_step (\<lambda>n. False) (make_block 2 hash_zero (Timestamp 0)))\<^sup>*\<^sup>*
      \<lparr> sys_pow = make_pow no_stats 1, sys_miner = None \<rparr> c
    \<and> sys_miner c = Some (0, 0) \<and> \<not> pow_stop_requested (sys_pow c)"
proof -
  let ?c0 = "\<lparr> sys_pow = make_pow no_stats 1, sys_miner = None \<rparr>"
  let ?c1 = "?c0\<lparr>sys_pow := stop_mining (sys_pow ?c0)\<rparr>"
  let ?c2 = "\<lparr> sys_pow = (sys_pow ?c1)\<lparr>pow_mining_active := True, pow_stop_requested := False\<rparr>, sys_miner = Some (0, 0) \<rparr>"
  have "pow_step (\<lambda>n. False) (make_block 2 hash_zero (Timestamp 0)) ?c0 ?c1" by (rule pow_step.stop) simp
  moreover have "pow_step (\<lambda>n. False) (make_block 2 hash_zero (Timestamp 0)) ?c1 ?c2" by (rule pow_step.start) simp
  ultimately have "(pow_step (\<lambda>n. False) (make_block 2 hash_zero (Timestamp 0)))\<^sup>*\<^sup>* ?c0 ?c2"
    by (meson r_into_rtranclp rtranclp_trans)
  then show ?thesis using stop_never_reaches_miner by fastforce
qed

subsection \<open>Difficulty\<close>

lemma clamp_bounds: "clamp v lo hi = Some c \<Longrightarrow> lo \<le> c \<and> c \<le> hi"
  by (auto simp: clamp_def split: if_splits)

text \<open>
  The difficulty stays within the configured bounds: it is within them after every
  \<open>set_difficulty\<close> and \<open>set_difficulty_params\<close> that is defined, these are defined exactly when the
  bounds are not crossed, and a value within the bounds is stored unchanged.
\<close>

theorem difficulty_within_bounds:
  "(case set_difficulty d s of
      None \<Rightarrow> dp_max_difficulty (pow_params s) < dp_min_difficulty (pow_params s)
    | Some s' \<Rightarrow> dp_min_difficulty (pow_params s') \<le> get_difficulty s'
        \<and> get_difficulty s' \<le> dp_max_difficulty (pow_params s')
        \<and> (dp_min_difficulty (pow_params s) \<le> d \<and> d \<le> dp_max_difficulty (pow_params s) \<longrightarrow> get_difficulty s' = d))
   \<and> (case set_difficulty_params q s of
      None \<Rightarrow> dp_max_difficulty q < dp_min_difficulty q
    | Some s' \<Rightarrow> get_difficulty_params s' = q \<and> dp_min_difficulty q \<le> get_difficulty s'
        \<and> get_difficulty s' \<le> dp_max_difficulty q)"
  by (auto simp: set_difficulty_def set_difficulty_params_def get_difficulty_def get_difficulty_params_def
      clamp_def)

theorem difficulty_within_bounds_witness:
  "\<exists>s. set_difficulty 7 (make_pow no_stats 1) = Some s \<and> get_difficulty s = 7"
  using difficulty_within_bounds [where d = 7 and s = "make_pow no_stats 1" and q = default_params]
  by (simp add: make_pow_def default_params_def set_difficulty_def clamp_def word_n1_ge not_less
      split: option.splits)

text \<open>
  Targets do not convert back: \<open>target_from_difficulty\<close> writes the last 8 bytes of the hash and
  \<open>difficulty_from_target\<close> reads the first 8, so converting any difficulty to a target and back gives
  \<open>UINT64_MAX\<close>.
\<close>

theorem target_round_trip_is_max:
  "difficulty_from_target (target_from_difficulty d) = - 1"
proof -
  have "be_shift_in 0 (replicate 8 0) = (0 :: u64)"
    by (simp add: numeral_eq_Suc)
  then show ?thesis
    by (simp add: difficulty_from_target_def target_from_difficulty_def hash_to_bytes_def Let_def)
qed

lemma clamp_default: "w \<noteq> 0 \<Longrightarrow> clamp w (dp_min_difficulty default_params) (dp_max_difficulty default_params) = Some w"
proof -
  assume "w \<noteq> 0"
  then have "\<not> w < 1" by (simp add: word_less_1)
  moreover have "w \<le> - 1" by (rule word_n1_ge)
  ultimately show ?thesis by (simp add: clamp_def default_params_def not_less word_n1_ge)
qed

lemma round64_quarter_half: "round64 (1 / 4) = Fin (1 / 4)" "round64 (1 / 2) = Fin (1 / 2)"
proof -
  have b: "2 powi (- 1022) \<le> q \<and> q \<le> 2 ^ 1000" if "q = 1 / 4 \<or> q = (1 / 2 :: rat)" for q
  proof -
    have "(2::rat) powi (- 1022) \<le> 2 powi (- 2)" by (rule power_int_increasing) simp_all
    also have "\<dots> = 1 / 4" by (simp add: power_int_minus)
    finally have "2 powi (- 1022) \<le> q" using that by (auto intro: order_trans)
    moreover have "q \<le> 2 ^ 1000" by (rule order_trans [of _ 1]) (use that in auto)
    ultimately show ?thesis ..
  qed
  have "fl (1 / 4) = 1 / 4" "fl (1 / 2) = 1 / 2"
    using fl_evalI [of "- 2" "1 / 4" 4503599627370496] fl_evalI [of "- 1" "1 / 2" 4503599627370496]
    by (simp_all add: power_int_minus)
  then show "round64 (1 / 4) = Fin (1 / 4)" "round64 (1 / 2) = Fin (1 / 2)"
    using round64_Fin [of "1 / 4"] round64_Fin [of "1 / 2"] b by auto
qed

lemma unat_mult_small: "unat k * unat w < 2 ^ 64 \<Longrightarrow> unat (k * w) = unat k * unat w" for w k :: u64
  by (rule unat_mult_exact)

lemma bitcoin_twice:
  fixes t c :: u64
  assumes t: "t \<noteq> 0" "unat t < 2 ^ 51" and c: "c \<noteq> 0" "unat c < 2 ^ 51"
  shows "bitcoin_style_adjustment (2 * t) t (2 * c) 4 = Some (4 * c)"
proof -
  have u: "unat (2 * t) = 2 * unat t" "unat (2 * c) = 2 * unat c" "unat (4 * c) = 4 * unat c"
    using t c unat_mult_small [of 2 t] unat_mult_small [of 2 c] unat_mult_small [of 4 c] by simp_all
  have f: "f64_of_u64 t = Fin (of_nat (unat t))" "f64_of_u64 (2 * t) = Fin (of_nat (2 * unat t))"
    "f64_of_u64 (2 * c) = Fin (of_nat (2 * unat c))" "f64_of_u64 4 = Fin 4"
    using t c f64_of_u64_nat [of t] f64_of_u64_nat [of "2 * t"] f64_of_u64_nat [of "2 * c"] f64_of_u64_nat [of 4]
    by (simp_all only: u) simp_all
  have "unat t \<noteq> 0" using t by (simp add: unat_eq_0)
  then have "(of_nat (unat t) :: rat) \<noteq> 0" by (simp only: of_nat_eq_0_iff not_False_eq_True)
  then have "f64_div (f64_of_u64 (2 * t)) (f64_of_u64 t) = round64 (of_nat 2)"
    by (simp add: f)
  then have ratio: "f64_div (f64_of_u64 (2 * t)) (f64_of_u64 t) = Fin 2"
    using round64_nat [of 2] by simp
  have clampd: "f64_clamp (Fin 2) (f64_div (Fin 1) (Fin 4)) (Fin 4) = Some (Fin 2)"
    using round64_quarter_half by (simp add: f64_clamp_def)
  have "f64_mul (f64_of_u64 (2 * c)) (Fin 2) = round64 (of_nat (4 * unat c))"
    by (simp add: f)
  also have "\<dots> = Fin (of_nat (4 * unat c))" using c by (intro round64_nat) simp
  finally have "f64_to_u64 (f64_mul (f64_of_u64 (2 * c)) (Fin 2)) = Some (of_nat (4 * unat c))"
    using f64_to_u64_nat [of "4 * unat c"] c by (simp only: ) simp
  moreover have "of_nat (4 * unat c) = 4 * c" by simp
  moreover have "4 * c \<noteq> 0" using u(3) c by (metis mult_eq_0_iff unat_eq_0 zero_neq_numeral)
  ultimately show ?thesis
    using t(1) ratio clampd clamp_default [of "4 * c"]
    by (simp only: bitcoin_style_adjustment_def Let_def f(4) if_False option.case not_False_eq_True)
qed

lemma ethereum_twice:
  fixes t c :: u64
  assumes t: "t \<noteq> 0" "unat t < 2 ^ 51" and c: "c \<noteq> 0" "unat c < 2 ^ 51"
  shows "ethereum_style_adjustment [2 * t] t (2 * c) = Some c"
proof -
  have u: "unat (2 * t) = 2 * unat t" "unat (2 * c) = 2 * unat c"
    using t c unat_mult_small [of 2 t] unat_mult_small [of 2 c] by simp_all
  have f: "f64_of_u64 t = Fin (of_nat (unat t))" "f64_of_u64 (2 * t) = Fin (of_nat (2 * unat t))"
    "f64_of_u64 (2 * c) = Fin (of_nat (2 * unat c))" "f64_of_u64 1 = Fin 1"
    using t c f64_of_u64_nat [of t] f64_of_u64_nat [of "2 * t"] f64_of_u64_nat [of "2 * c"] f64_of_u64_nat [of 1]
    by (simp_all only: u) simp_all
  have "unat t \<noteq> 0" using t by (simp add: unat_eq_0)
  then have p: "(of_nat (unat t) :: rat) \<noteq> 0" by (simp only: of_nat_eq_0_iff not_False_eq_True)
  have "f64_div (f64_of_u64 (2 * t)) (f64_of_u64 1) = round64 (of_nat (2 * unat t))"
    by (simp add: f)
  also have "\<dots> = Fin (of_nat (2 * unat t))" using t by (intro round64_nat) simp
  finally have "f64_div (f64_of_u64 t) (f64_div (f64_of_u64 (2 * t)) (f64_of_u64 1)) = round64 (1 / 2)"
    using p by (simp add: f(1))
  then have factor: "f64_div (f64_of_u64 t) (f64_div (f64_of_u64 (2 * t)) (f64_of_u64 1)) = Fin (1 / 2)"
    by (simp only: round64_quarter_half)
  have "f64_mul (f64_of_u64 (2 * c)) (Fin (1 / 2)) = round64 (of_nat (unat c))"
    by (simp add: f)
  also have "\<dots> = Fin (of_nat (unat c))" using c by (intro round64_nat) simp
  finally have "f64_to_u64 (f64_mul (f64_of_u64 (2 * c)) (Fin (1 / 2))) = Some c"
    using f64_to_u64_nat [of "unat c"] c by (simp only: ) simp
  moreover have "f64_clamp (Fin (1 / 2)) (Fin (1 / 2)) (Fin 2) = Some (Fin (1 / 2))"
    by (simp add: f64_clamp_def)
  moreover have "foldl (+) 0 [2 * t] = 2 * t" "of_nat (length [2 * t]) = (1 :: u64)" by simp_all
  ultimately show ?thesis
    using factor clamp_default [OF c(1)]
    by (simp only: ethereum_style_adjustment_def Let_def list.distinct if_False option.case not_False_eq_True)
qed

text \<open>
  The two adjustment rules move in opposite directions. When blocks take twice the target time,
  \<open>adjust_difficulty\<close> doubles the difficulty, making blocks slower still, and
  \<open>calculate_target_difficulty\<close> halves it.
\<close>

theorem adjustments_disagree:
  assumes "t \<noteq> 0" and "unat t < 2 ^ 51" and "c \<noteq> 0" and "unat c < 2 ^ 51"
    and "dp_target_block_time_seconds (pow_params s) = t" and "dp_max_adjustment_factor (pow_params s) = 4"
    and "pow_difficulty s = 2 * c"
  shows "adjust_difficulty (2 * t) (pow_difficulty s) s = Some (4 * c)
    \<and> calculate_target_difficulty [2 * t] s = Some c"
  using assms bitcoin_twice [of t c] ethereum_twice [of t c]
  by (simp add: adjust_difficulty_def calculate_target_difficulty_def)

theorem adjustments_disagree_witness:
  "adjust_difficulty 30 1000 (make_pow no_stats 1000) = Some 2000
   \<and> calculate_target_difficulty [30] (make_pow no_stats 1000) = Some 500"
  using adjustments_disagree [of 15 500 "make_pow no_stats 1000"]
  by (simp add: make_pow_def default_params_def)

end
