(* ===== verification/Validator.thy ===== *)
theory Validator
  imports Serialization
begin

text \<open>
  The default validator (modules/serialization: validator.cpp). A result is the error code with its message,
  or success. The checks of addresses, amounts, timestamps and hashes that the source leaves open
  always succeed.
\<close>

datatype ValidationError = V_INVALID_HASH | V_INVALID_SIGNATURE | V_INVALID_AMOUNT | V_INVALID_ADDRESS
  | V_INVALID_TIMESTAMP | V_INVALID_BLOCK | V_INVALID_TRANSACTION | V_DATA_TOO_LARGE | V_MISSING_REQUIRED_FIELD

type_synonym ValidationResult = "(ValidationError \<times> string) + unit"

definition make_validation_error :: "ValidationError \<Rightarrow> string \<Rightarrow> ValidationResult" where
  "make_validation_error code msg = Inl (code, msg)"

text \<open>Go on with the next check unless the previous one failed.\<close>

definition and_check :: "ValidationResult \<Rightarrow> ValidationResult \<Rightarrow> ValidationResult" where
  "and_check r s = (case r of Inl e \<Rightarrow> Inl e | Inr _ \<Rightarrow> s)"

definition validate_address_format :: "Address \<Rightarrow> ValidationResult" where
  "validate_address_format a = Inr ()"

definition validate_amount_range :: "Amount \<Rightarrow> ValidationResult" where
  "validate_amount_range a = Inr ()"

definition validate_timestamp_range :: "Timestamp \<Rightarrow> ValidationResult" where
  "validate_timestamp_range ts = Inr ()"

definition validate_hash_length :: "Hash \<Rightarrow> ValidationResult" where
  "validate_hash_length h = Inr ()"

definition validate_transaction_structure :: "Transaction \<Rightarrow> ValidationResult" where
  "validate_transaction_structure tx =
     (if address_is_zero (tx_from tx)
      then make_validation_error V_INVALID_TRANSACTION ''Transaction from address cannot be zero''
      else if \<not> amount_is_valid (tx_value tx) then make_validation_error V_INVALID_AMOUNT ''Transaction value is invalid''
      else Inr ())"

definition dv_validate_transaction :: "Transaction \<Rightarrow> ValidationResult" where
  "dv_validate_transaction tx =
     and_check (validate_transaction_structure tx)
       (and_check (validate_address_format (tx_from tx))
         (and_check (validate_address_format (tx_to tx))
           (and_check (validate_amount_range (tx_value tx))
             (if tx_gas_limit tx = 0
              then make_validation_error V_INVALID_TRANSACTION ''Transaction gas limit must be greater than zero''
              else Inr ()))))"

definition validate_block_header :: "Block \<Rightarrow> ValidationResult" where
  "validate_block_header b =
     and_check (validate_timestamp_range (Timestamp (bh_timestamp (blk_header b))))
       (if bh_gas_limit (blk_header b) = 0
        then make_validation_error V_INVALID_BLOCK ''Block gas limit must be greater than zero''
        else if 4294967295 < bh_height (blk_header b)
        then make_validation_error V_INVALID_BLOCK ''Block height exceeds maximum allowed value''
        else Inr ())"

fun validate_all :: "Transaction list \<Rightarrow> ValidationResult" where
  "validate_all [] = Inr ()"
| "validate_all (tx # txs) = and_check (dv_validate_transaction tx) (validate_all txs)"

text \<open>\<open>calculate_hash\<close> fills the cache of the block when it is reached.\<close>

definition dv_validate_block :: "Block \<Rightarrow> ValidationResult \<times> Block" where
  "dv_validate_block b =
     (case and_check (validate_block_header b) (validate_all (blk_transactions b)) of
        Inl e \<Rightarrow> (Inl e, b)
      | Inr _ \<Rightarrow> (let (h, b') = block_calculate_hash b in (validate_hash_length h, b')))"

abbreviation MAX_SERIALIZED_SIZE :: nat where "MAX_SERIALIZED_SIZE \<equiv> 10 * 1024 * 1024"

definition validate_serialized_data :: "byte_vector \<Rightarrow> string \<Rightarrow> ValidationResult" where
  "validate_serialized_data bs type_name =
     (if bs = [] then make_validation_error V_MISSING_REQUIRED_FIELD
        (''Serialized data cannot be empty for type: '' @ type_name)
      else if MAX_SERIALIZED_SIZE < length bs then make_validation_error V_DATA_TOO_LARGE
        (''Serialized data too large for type: '' @ type_name)
      else Inr ())"

lemma and_check_Inr [simp]: "and_check r s = Inr u \<longleftrightarrow> r = Inr () \<and> s = Inr ()"
  by (simp add: and_check_def split: sum.split)

lemma and_check_next [simp]: "and_check (Inr u) s = s" "and_check (Inl e) s = Inl e"
  by (simp_all add: and_check_def)

lemma make_validation_error_neq [simp]: "make_validation_error c m \<noteq> Inr u"
  by (simp add: make_validation_error_def)

lemma validate_all_Inr: "validate_all txs = Inr u \<longleftrightarrow> list_all (\<lambda>tx. dv_validate_transaction tx = Inr ()) txs"
  by (induction txs) simp_all

lemma validate_transaction_Inr:
  "dv_validate_transaction tx = Inr u \<longleftrightarrow> \<not> address_is_zero (tx_from tx) \<and> tx_gas_limit tx \<noteq> 0"
  by (simp add: dv_validate_transaction_def validate_transaction_structure_def validate_address_format_def
      validate_amount_range_def amount_is_valid_def)

text \<open>
  The validator accepts a block exactly when its gas limit is positive, its height fits in 32 bits and every
  transaction has a sender and a positive gas limit; then it leaves the fields of the block alone. It does
  not look at the Merkle root, the size, the gas used or the parent.
\<close>

theorem dv_validate_block_exact:
  "(fst (dv_validate_block b) = Inr () \<longleftrightarrow>
      0 < bh_gas_limit (blk_header b) \<and> unat (bh_height (blk_header b)) < 2 ^ 32
      \<and> list_all (\<lambda>tx. \<not> address_is_zero (tx_from tx) \<and> 0 < tx_gas_limit tx) (blk_transactions b))
   \<and> blk_header (snd (dv_validate_block b)) = blk_header b
   \<and> blk_transactions (snd (dv_validate_block b)) = blk_transactions b"
proof -
  have gt: "0 < g \<longleftrightarrow> g \<noteq> 0" for g :: u64 by (simp add: word_neq_0_conv)
  have "4294967295 < h \<longleftrightarrow> \<not> unat h < 2 ^ 32" for h :: u64
    by (simp add: word_less_nat_alt not_less) arith
  then have "and_check (validate_block_header b) (validate_all (blk_transactions b)) = Inr () \<longleftrightarrow>
      0 < bh_gas_limit (blk_header b) \<and> unat (bh_height (blk_header b)) < 2 ^ 32
      \<and> list_all (\<lambda>tx. \<not> address_is_zero (tx_from tx) \<and> 0 < tx_gas_limit tx) (blk_transactions b)"
    by (simp add: validate_block_header_def validate_timestamp_range_def validate_all_Inr validate_transaction_Inr gt)
  then show ?thesis
    by (auto simp: dv_validate_block_def validate_hash_length_def block_calculate_hash_def Let_def
        split: sum.splits option.splits)
qed

text \<open>What the core accepts as a valid block the validator accepts too, up to the height it allows.\<close>

lemma valid_block_validates:
  assumes "block_is_valid b" "unat (bh_height (blk_header b)) < 2 ^ 32"
  shows "and_check (validate_block_header b) (validate_all (blk_transactions b)) = Inr ()"
proof -
  have "list_all (\<lambda>tx. dv_validate_transaction tx = Inr ()) (blk_transactions b)"
    using assms(1)
    by (auto simp: block_is_valid_def validate_transactions_def list_all_iff validate_transaction_Inr tx_validity_defs
        split: if_splits)
  moreover have "validate_block_header b = Inr ()"
    using assms
    by (simp add: validate_block_header_def validate_timestamp_range_def block_is_valid_def validate_header_def
        word_less_nat_alt not_less unat_gt_0)
  ultimately show ?thesis by (simp add: validate_all_Inr)
qed

end
