(* ===== verification/Block_Relay.thy ===== *)
theory Block_Relay
  imports Block_Assembly Consensus Validator
begin

text \<open>
  A block on its way from one node to another: the miner stores the nonce that \<open>mine_block\<close> reports, the
  serializer writes the block, the receiver decodes it and runs the checks of the core, of the consensus engine
  and of the data validator on what it got. The lemmas say what the changes made by the serializer, which
  \<open>Serialization\<close> describes, do to these checks.
\<close>

subsection \<open>The checks on a received block\<close>

lemma list_all_same_data:
  assumes "map tx_data ts = map tx_data us" "\<And>t u. tx_data t = tx_data u \<Longrightarrow> P t = P u"
  shows "list_all P ts = list_all P us"
proof -
  have "list_all2 (\<lambda>t u. tx_data t = tx_data u) ts us"
    using assms(1) by (simp add: list_all2_map1 list_all2_map2 flip: list.rel_eq)
  then show ?thesis
  proof (induction rule: list_all2_induct)
    case (Cons t ts u us)
    then show ?case using assms(2) [of t u] by simp
  qed simp
qed

lemma received_same_data:
  assumes "block_inv b"
  shows "map tx_data (blk_transactions (received_block b)) = map tx_data (map received (blk_transactions b))"
  using received_block_fields(2) [OF assms] by (simp add: received_facts)

lemma received_gas: "tx_gas_limit (received t) = tx_gas_limit t" "tx_size (received t) = tx_size t"
  "tx_from (received t) = tx_from t"
  by (simp_all add: tx_gas_limit_def tx_size_def tx_payload_def tx_from_def received_facts)

lemma received_gas_sum: "block_inv b \<Longrightarrow> gas_sum (blk_transactions (received_block b)) = gas_sum (blk_transactions b)"
  using same_data_list(2) [OF received_same_data] by (simp add: gas_sum_def received_gas comp_def)

lemma block_size_data: "block_size b = sizeof_BlockHeader
    + sum_list (map (\<lambda>d. sizeof_TransactionData + length (td_data d)) (map tx_data (blk_transactions b)))"
proof -
  have "foldl (\<lambda>n tx. n + tx_size tx) k txs
      = k + sum_list (map (\<lambda>d. sizeof_TransactionData + length (td_data d)) (map tx_data txs))" for k txs
    by (induction txs arbitrary: k) (simp_all add: tx_size_def tx_payload_def)
  then show ?thesis by (simp add: block_size_def)
qed

lemma received_block_size:
  assumes "block_inv b"
  shows "block_size (received_block b) = block_size b"
proof -
  have "block_size (received_block b) = sizeof_BlockHeader
      + sum_list (map (\<lambda>d. sizeof_TransactionData + length (td_data d)) (map tx_data (map received (blk_transactions b))))"
    by (simp only: block_size_data received_same_data [OF assms])
  then show ?thesis by (simp add: block_size_data received_facts comp_def)
qed

text \<open>\<open>10^18\<close> has eighteen factors of two: the scaled value vanishes for the multiples of \<open>2^46\<close> wei.\<close>

lemma ether_scaling_vanishes: "v * WEI_PER_ETHER = 0 \<longleftrightarrow> 2 ^ 46 dvd unat v"
proof -
  have "unat WEI_PER_ETHER = 1000000000000000000" by (simp add: WEI_PER_ETHER_def)
  moreover have "v * WEI_PER_ETHER = 0 \<longleftrightarrow> 2 ^ 64 dvd unat v * unat WEI_PER_ETHER"
    by (simp add: word_unat_eq_iff unat_word_ariths dvd_eq_mod_eq_0)
  moreover have "(2 :: nat) ^ 64 dvd unat v * 1000000000000000000 \<longleftrightarrow> 2 ^ 46 dvd unat v"
  proof -
    have "coprime (2 :: nat) 5" by (simp add: coprime_iff_gcd_eq_1 gcd_non_0_nat)
    then have coprime: "coprime ((2 :: nat) ^ 46) (5 ^ 18)" by (simp only: coprime_power_left_iff coprime_power_right_iff simp_thms)
    have "(1000000000000000000 :: nat) = 5 ^ 18 * 2 ^ 18" "(2 :: nat) ^ 64 = 2 ^ 46 * 2 ^ 18" by simp_all
    then have "(2 :: nat) ^ 64 dvd unat v * 1000000000000000000 \<longleftrightarrow> 2 ^ 46 * 2 ^ 18 dvd unat v * 5 ^ 18 * 2 ^ 18"
      by (simp only: mult.assoc)
    also have "\<dots> \<longleftrightarrow> 2 ^ 46 dvd unat v * 5 ^ 18" unfolding dvd_mult_cancel_right by (simp add: mult.commute)
    also have "\<dots> \<longleftrightarrow> 2 ^ 46 dvd unat v"
      by (rule coprime_dvd_mult_left_iff [OF coprime])
    finally show ?thesis .
  qed
  ultimately show ?thesis by simp
qed

lemma received_valid:
  assumes "tx_is_valid t"
  shows "tx_is_valid (received t) \<longleftrightarrow> is_contract_creation t \<or> \<not> 2 ^ 46 dvd unat (td_value (tx_data t))"
  using assms ether_scaling_vanishes [of "td_value (tx_data t)"]
  by (auto simp: tx_validity_defs received_facts)

subsection \<open>Which blocks survive\<close>

definition relayable :: "Transaction list \<Rightarrow> bool" where
  "relayable txs =
     (case txs of
        [] \<Rightarrow> True
      | [t] \<Rightarrow> tx_gas_limit t = 21000 \<and> (is_contract_creation t \<or> \<not> 2 ^ 46 dvd unat (td_value (tx_data t)))
      | _ \<Rightarrow> False)"

lemma relayable_same_data:
  assumes "map tx_data ts = map tx_data us"
  shows "relayable ts = relayable us"
proof -
  have "relayable ts = (case map tx_data ts of
      [] \<Rightarrow> True
    | [d] \<Rightarrow> td_gas_limit d = 21000 \<and> (address_is_zero (Address (td_to d)) \<and> td_data d \<noteq> [] \<or> \<not> 2 ^ 46 dvd unat (td_value d))
    | _ \<Rightarrow> False)" for ts
    by (auto simp: relayable_def tx_gas_limit_def is_contract_creation_def tx_to_def tx_payload_def split: list.splits)
  with assms show ?thesis by simp
qed

lemma valid_gas: "tx_is_valid t \<Longrightarrow> 21000 \<le> unat (tx_gas_limit t)"
  by (simp add: tx_is_valid_def validate_gas_def word_le_nat_alt)

lemma minimal_gas:
  assumes "list_all tx_is_valid txs"
  shows "gas_sum txs \<le> 21000 \<longleftrightarrow> txs = [] \<or> (\<exists>t. txs = [t] \<and> tx_gas_limit t = 21000)"
proof (cases txs)
  case (Cons t us)
  show ?thesis
  proof (cases us)
    case Nil
    then show ?thesis using Cons assms valid_gas [of t] by (auto simp: gas_sum_def word_unat_eq_iff)
  next
    case (Cons u vs)
    then show ?thesis using \<open>txs = t # us\<close> assms valid_gas [of t] valid_gas [of u] by (simp add: gas_sum_def)
  qed
qed (simp add: gas_sum_def)

lemma received_validate_transactions:
  assumes "block_inv b" "list_all (wf_txdata \<circ> tx_data) (blk_transactions b)"
    and "list_all tx_is_valid (blk_transactions b)" "gas_sum (blk_transactions b) < 2 ^ 64"
  shows "validate_transactions (received_block b) \<longleftrightarrow> relayable (blk_transactions b)"
proof -
  let ?b = "received_block b" and ?txs = "blk_transactions b"
  have "bh_gas_limit (blk_header ?b) = 21000" using received_block_header [OF assms(1,2)] by simp
  then have "validate_gas_limits ?b \<longleftrightarrow> gas_sum ?txs \<le> 21000"
    using gas_within_exact [of 0 "blk_transactions ?b" 21000] received_gas_sum [OF assms(1)] assms(4)
    by (simp add: validate_gas_limits_def)
  moreover have "list_all tx_is_valid (blk_transactions ?b) = list_all (tx_is_valid \<circ> received) ?txs"
    using same_data_list(1) [OF received_same_data [OF assms(1)]] by (simp add: list.pred_map)
  ultimately have "validate_transactions ?b \<longleftrightarrow> list_all (tx_is_valid \<circ> received) ?txs \<and> gas_sum ?txs \<le> 21000"
    by (simp add: validate_transactions_def)
  then show ?thesis
    using minimal_gas [OF assms(3)] assms(3)
    by (auto simp: relayable_def received_valid split: list.splits)
qed

lemma received_block_valid:
  assumes "reachable_block b" "list_all (wf_txdata \<circ> tx_data) (blk_transactions b)"
    and "block_is_valid b" "gas_sum (blk_transactions b) < 2 ^ 64"
  shows "block_is_valid (received_block b) \<longleftrightarrow> relayable (blk_transactions b)"
proof -
  have inv: "block_inv b" using assms(1) by (rule reachable_block_inv)
  have "list_all tx_is_valid (blk_transactions b)"
    using assms(3) by (simp add: block_is_valid_def validate_transactions_def split: if_splits)
  from received_validate_transactions [OF inv assms(2) this assms(4)] show ?thesis
    using assms(3) received_block_header [OF inv assms(2)] received_block_size [OF inv]
    by (simp add: block_is_valid_def validate_header_def validate_size_def)
qed

lemma set_nonce_facts:
  assumes "reachable_block b"
  shows "reachable_block (set_nonce n b)" "blk_transactions (set_nonce n b) = blk_transactions b"
    "block_is_valid (set_nonce n b) = block_is_valid b"
    "bh_height (blk_header (set_nonce n b)) = bh_height (blk_header b)"
  using reachable_block_nonce [OF assms, of n]
  by (simp_all add: block_is_valid_def validate_header_def validate_transactions_def validate_size_def
      validate_gas_limits_def block_size_def set_nonce_def block_invalidate_cache_def)

lemma valid_block_dv:
  assumes "block_is_valid b" "reachable_block b" "list_all (wf_txdata \<circ> tx_data) (blk_transactions b)"
  shows "fst (dv_validate_block (received_block b)) = Inr ()"
proof -
  let ?P = "\<lambda>tx. \<not> address_is_zero (tx_from tx) \<and> tx_gas_limit tx \<noteq> 0"
  have inv: "block_inv b" using assms(2) by (rule reachable_block_inv)
  have "list_all ?P (map received (blk_transactions b))"
    using assms(1) by (auto simp: list_all_iff block_is_valid_def validate_transactions_def received_facts tx_validity_defs
        split: if_splits)
  moreover have "list_all ?P (blk_transactions (received_block b)) = list_all ?P (map received (blk_transactions b))"
    by (rule list_all_same_data [OF received_same_data [OF inv]]) (simp add: tx_from_def tx_gas_limit_def)
  ultimately have "validate_all (blk_transactions (received_block b)) = Inr ()"
    by (simp add: validate_all_Inr validate_transaction_Inr)
  moreover have "\<not> 4294967295 < (ucast (ucast h :: u32) :: u64)" for h :: u64
    using take_bit_nat_less_exp [of 32 "unat h"]
    by (simp add: word_less_nat_alt not_less unsigned_ucast_eq unsigned_take_bit_eq)
  then have "validate_block_header (received_block b) = Inr ()"
    using received_block_header [OF inv assms(3)] by (simp add: validate_block_header_def validate_timestamp_range_def)
  ultimately show ?thesis
    by (simp add: dv_validate_block_def validate_hash_length_def split_beta)
qed

text \<open>
  C14. From the miner to the receiver. A valid block of a height below \<open>2^32\<close>, whose gas limits add up to less than \<open>2^64\<close>
  and whose transactions are well formed, is mined, its nonce stored, the block encoded and decoded by
  another node. The receiver finds the same block hash, and its data validator accepts the block. Its
  consensus engine accepts it exactly when the height of the block allows the difficulty and the block is
  empty or has a single transaction, of gas limit 21000, that creates a contract or whose value is no multiple of
  \<open>2^46\<close> wei: the gas limit of the block is lost on the way and replaced by 21000, and the value is scaled by
  \<open>10^18\<close> modulo \<open>2^64\<close>.
\<close>

theorem mined_block_relay:
  assumes "codec_ok enc_tx dec_tx" "codec_ok enc dec"
    and "reachable_block b" "list_all (wf_txdata \<circ> tx_data) (blk_transactions b)"
    and "block_is_valid b" "gas_sum (blk_transactions b) < 2 ^ 64" "unat (bh_height (blk_header b)) < 2 ^ 32"
    and "m = set_nonce (mr_nonce (fst (mine_block rnd time b miner))) b"
    and "fst (serialize_block enc_tx dec_tx enc now m) = Inr bs"
  shows "\<exists>b'. deserialize_block enc_tx dec_tx dec bs = Inr (Inr b')
    \<and> block_hash b' = block_hash m \<and> fst (dv_validate_block b') = Inr ()
    \<and> (validate_block m receiver \<longleftrightarrow> pow_difficulty receiver \<le> height_difficulty (bh_height (blk_header b)))
    \<and> (validate_block b' receiver \<longleftrightarrow> validate_block m receiver \<and> relayable (blk_transactions b))"
proof -
  let ?n = "mr_nonce (fst (mine_block rnd time b miner))" and ?b' = "received_block m"
  note m = set_nonce_facts [OF assms(3), of ?n, folded assms(8)]
  note inv = reachable_block_inv [OF m(1)]
  have wf: "list_all (wf_txdata \<circ> tx_data) (blk_transactions m)" using assms(4) m(2) by simp
  have h: "unat (bh_height (blk_header m)) < 2 ^ 32" using assms(7) m(4) by simp
  note hash = received_block_hash [OF inv wf h]
  have v: "block_is_valid m" using assms(5) m(3) by simp
  have "block_is_valid ?b' \<longleftrightarrow> relayable (blk_transactions b)"
    using received_block_valid [OF m(1) wf v] assms(6) m(2) by simp
  then have "validate_block ?b' receiver \<longleftrightarrow> validate_block m receiver \<and> relayable (blk_transactions b)"
    using v by (simp add: validate_block_def validate_proof_of_work_def hash conj_commute)
  moreover have "validate_block m receiver \<longleftrightarrow> pow_difficulty receiver \<le> height_difficulty (bh_height (blk_header b))"
    using validate_block_height [OF m(1)] v m(4) by simp
  ultimately show ?thesis
    using deserialize_serialize_block [OF assms(1,2) m(1) wf assms(9)] hash valid_block_dv [OF v m(1) wf] by blast
qed

text \<open>A wire format for the messages of one block with one transaction.\<close>

lemma single_codec:
  assumes "blk_transactions b = [t]"
  shows "\<exists>mt mb. fst (serialize_block (enc_only mt) (dec_only mt) (enc_only mb) now b) = Inr [1]"
  by (rule exI [of _ "proto_transaction (now 0) t"])
    (simp add: assms serialize_block_def serialize_transaction_def serialize_to_bytes_def enc_only_def dec_only_def Let_def)

definition relay_block :: "u64 \<Rightarrow> Block" where
  "relay_block g = add_transaction (tx_set_gas_limit g (demo_tx 9)) (set_gas_limit 30000 (make_block 12 hash_zero (Timestamp 5)))"

lemma relay_block_facts:
  "reachable_block (relay_block g)"
  "blk_transactions (relay_block g) = [snd (tx_calculate_hash (tx_set_gas_limit g (demo_tx 9)))]"
  "bh_height (blk_header (relay_block g)) = 12"
proof -
  show "reachable_block (relay_block g)"
    unfolding relay_block_def by (intro reachable_block_intros) (simp_all add: tx_coherent_def tx_setter_defs)
  show "blk_transactions (relay_block g) = [snd (tx_calculate_hash (tx_set_gas_limit g (demo_tx 9)))]"
    "bh_height (blk_header (relay_block g)) = 12"
    by (simp_all add: relay_block_def add_transaction_def update_merkle_root_alt block_setter_defs make_block_def
        block_invalidate_cache_def)
qed

lemma relay_block_valid: "block_is_valid (relay_block 25000)"
  by (simp add: block_is_valid_def validate_header_def validate_transactions_def validate_size_def
      validate_gas_limits_def block_size_def relay_block_facts tx_validity_defs tx_calculate_hash_keeps tx_size_def)
    (simp add: relay_block_def demo_tx_def make_transaction_def tx_setter_defs add_transaction_def update_merkle_root_alt
      block_setter_defs make_block_def block_invalidate_cache_def address_is_zero_def timestamp_is_valid_def
      is_valid_timestamp_def list_all_iff)

theorem mined_block_relay_witness:
  "\<exists>enc_tx dec_tx enc dec bs b'. deserialize_block enc_tx dec_tx dec bs = Inr (Inr b')
    \<and> validate_block (set_nonce 0 (relay_block 25000)) (make_pow no_stats 1) \<and> \<not> validate_block b' (make_pow no_stats 1)"
proof -
  let ?b = "relay_block 25000" and ?s = "make_pow no_stats 1"
  let ?m = "set_nonce (mr_nonce (fst (mine_block (\<lambda>n. False) 0 ?b ?s))) ?b"
  note m = set_nonce_facts [OF relay_block_facts(1) [of 25000]]
  have txs: "list_all (wf_txdata \<circ> tx_data) (blk_transactions ?b)" "gas_sum (blk_transactions ?b) = 25000"
    "\<not> relayable (blk_transactions ?b)"
    by (simp_all add: relay_block_facts tx_calculate_hash_keeps gas_sum_def tx_gas_limit_def relayable_def tx_setter_defs)
      (simp add: demo_tx_def make_transaction_def wf_txdata_def core_size_defs)
  have "(1 :: u64) \<le> height_difficulty 12" by (simp add: height_difficulty_def word_le_nat_alt unat_div)
  then have loc: "validate_block (set_nonce n ?b) ?s" for n
    using validate_block_height [OF m(1) [of n], of ?s] relay_block_valid m(3,4) [of n] relay_block_facts(3) [of 25000]
    by (simp add: make_pow_def)
  have "blk_transactions ?m = [snd (tx_calculate_hash (tx_set_gas_limit 25000 (demo_tx 9)))]"
    by (simp add: m(2) relay_block_facts(2))
  from single_codec [OF this, of "\<lambda>_. 3"] obtain mt mb where
    ser: "fst (serialize_block (enc_only mt) (dec_only mt) (enc_only mb) (\<lambda>_. 3) ?m) = Inr [1]" by blast
  have h: "unat (bh_height (blk_header ?b)) < 2 ^ 32" by (simp add: relay_block_facts(3))
  have g: "gas_sum (blk_transactions ?b) < 2 ^ 64" by (simp add: txs(2))
  from mined_block_relay [OF codec_ok_only codec_ok_only relay_block_facts(1) txs(1) relay_block_valid g h refl ser, of ?s]
  show ?thesis using txs(3) loc by blast
qed

text \<open>
  C17. From the mempool to the receiver. The block assembled from the transactions that the mempool selects for a gas
  limit passes the transaction checks of its own node, on every pool that public calls reach, with either kind of mutex
  (with \<open>std::shared_mutex\<close> the pool is empty, \<open>shared_mutex_pool_empty\<close>), whose transactions are well formed and not changed
  behind their cached hash, and when no pooled gas limit plus the gas limit of the block exceeds 64 bits. The
  block that a receiver decodes from its encoding passes them exactly when there is at most one transaction, and that
  one has gas limit 21000 and either creates a contract or has a value that is no multiple of \<open>2^46\<close> wei. A block with
  two transactions of the pool is refused by every receiver.
\<close>

theorem pool_block_relay:
  assumes "codec_ok enc_tx dec_tx" "codec_ok enc dec" "reachable_pool relock tidy s" "wf_hash parent"
    and "\<forall>(h, e) \<in> set (mp_transactions s). tx_coherent (en_transaction e)
      \<and> unat (tx_gas_limit (en_transaction e)) + unat g < 2 ^ 64"
    and "\<forall>(h, e) \<in> set (mp_transactions s). wf_txdata (tx_data (en_transaction e))"
    and "mp_get_transactions_for_block relock False max_count g s = Done txs"
    and "b = assemble_block height parent ts g txs"
    and "fst (serialize_block enc_tx dec_tx enc now b) = Inr bs"
  shows "validate_transactions b
    \<and> (\<exists>b'. deserialize_block enc_tx dec_tx dec bs = Inr (Inr b') \<and> bh_merkle_root (blk_header b') = bh_merkle_root (blk_header b)
        \<and> validate_transactions b' = relayable txs)"
proof -
  from pool_selection [OF assms(3,5), of max_count] assms(7)
  have pooled: "set txs \<subseteq> en_transaction ` snd ` set (mp_transactions s)"
    and ok: "list_all tx_coherent txs" "list_all tx_is_valid txs" "gas_sum txs \<le> unat g" by simp_all
  note facts = assemble_block_facts [OF assms(4) ok(1) assms(8)] and checks = assembled_checks [OF assms(4) ok assms(8)]
  note inv = reachable_block_inv [OF facts(4)]
  have "list_all (wf_txdata \<circ> tx_data) txs" using pooled assms(6) by (fastforce simp: list_all_iff)
  then have wf: "list_all (wf_txdata \<circ> tx_data) (blk_transactions b)"
    using list_all_same_data [OF facts(1), of "wf_txdata \<circ> tx_data"] by simp
  have "gas_sum (blk_transactions b) < 2 ^ 64" using order.strict_trans1 [OF checks(2) unsigned_less] by simp
  from received_validate_transactions [OF inv wf checks(1) this] relayable_same_data [OF facts(1)]
  have "validate_transactions (received_block b) = relayable txs" by simp
  then show ?thesis
    using deserialize_serialize_block [OF assms(1,2) facts(4) wf assms(9)] checks(3) received_block_root [OF inv wf] by blast
qed

theorem pool_block_relay_witness:
  "\<exists>s enc_tx dec_tx enc dec bs b' txs. mp_add_transaction True False (\<lambda>i. 7) pool_tx (make_mempool default_config) = Done (SUCCESS, s)
    \<and> mp_get_transactions_for_block True False 10 30000 s = Done txs \<and> length txs = 1
    \<and> deserialize_block enc_tx dec_tx dec bs = Inr (Inr b') \<and> validate_transactions b'"
proof -
  let ?t = "snd (tx_calculate_hash pool_tx)" and ?b = "assemble_block 1 hash_zero (Timestamp 0) 30000"
  obtain s where s: "mp_add_transaction True False (\<lambda>i. 7) pool_tx (make_mempool default_config) = Done (SUCCESS, s)"
    "mp_transactions s = [(tx_hash pool_tx, make_entry 7 7 ?t)]"
    using pool_tx_added by blast
  have r: "reachable_pool True True s" using reachable_pool.add [OF reachable_pool.new s(1)] .
  have t: "tx_gas_limit ?t = 21000" "tx_coherent ?t" "wf_txdata (tx_data ?t)" "td_value (tx_data ?t) = 5"
    by (simp_all add: tx_gas_limit_def tx_calculate_hash_keeps pool_tx_def make_transaction_def tx_coherent_def
        tx_setter_defs tx_calculate_hash_def Let_def wf_txdata_def core_size_defs)
  have "mp_priority_queue s = [(calculate_score (en_priority (make_entry 7 7 ?t)), tx_hash pool_tx)]"
    using pool_invD(5) [OF reachable_pool_inv [OF r]] by (simp add: s(2) queue_entries_def pq_build_def)
  then have sel: "mp_get_transactions_for_block True False 10 30000 s = Done [?t]"
    using s(2) t(1) by (simp add: mp_get_transactions_for_block_def lock_guard_def make_entry_def um_lookup_def Let_def)
  have "relayable [?t]" using t by (simp add: relayable_def)
  moreover obtain u where "blk_transactions (?b [?t]) = [u]"
    using assemble_block_facts(1) [of hash_zero "[?t]" "?b [?t]" 1 "Timestamp 0" 30000] t(2) by (auto simp: map_eq_Cons_conv)
  from single_codec [OF this, of "\<lambda>_. 3"] obtain mt mb where
    ser: "fst (serialize_block (enc_only mt) (dec_only mt) (enc_only mb) (\<lambda>_. 3) (?b [?t])) = Inr [1]" by blast
  ultimately obtain b' where
    "deserialize_block (enc_only mt) (dec_only mt) (dec_only mb) [1] = Inr (Inr b')" "validate_transactions b'"
    using pool_block_relay [OF codec_ok_only codec_ok_only r _ _ _ sel refl ser] s(2) t(1-3)
    by (auto simp: make_entry_def)
  moreover have "length [?t] = 1" by simp
  ultimately show ?thesis using s(1) sel by blast
qed

end
