(* ===== verification/Block_Store.thy ===== *)
theory Block_Store
  imports Storage Block_Relay
begin

text \<open>
  Blocks in the key-value store: the encoding of a block is put under the bytes of its hash, other calls of the
  database follow, and the value is read and decoded again. The database and the serializer meet in the bytes only.
\<close>

text \<open>The calls that neither write the key nor close the database.\<close>

definition spares :: "Key \<Rightarrow> db_call \<Rightarrow> bool" where
  "spares k c =
     (case c of
        Close \<Rightarrow> False
      | Put k' _ \<Rightarrow> k' \<noteq> k
      | Remove k' \<Rightarrow> k' \<noteq> k
      | Write (Some ops) \<Rightarrow> list_all (\<lambda>op. case op of PUT k' _ \<Rightarrow> k' \<noteq> k | REMOVE k' \<Rightarrow> k' \<noteq> k) ops
      | _ \<Rightarrow> True)"

lemma abs_operations_spare:
  "list_all (\<lambda>op. case op of PUT k' _ \<Rightarrow> k' \<noteq> k | REMOVE k' \<Rightarrow> k' \<noteq> k) ops \<Longrightarrow> fold abs_operation ops m k = m k"
proof (induction ops arbitrary: m)
  case (Cons op ops)
  then show ?case by (cases op) auto
qed simp

lemma abs_run_spares:
  assumes "m k = Some v" "spares k c"
  shows "\<exists>m'. snd (abs_run c (Some m)) = Some m' \<and> m' k = Some v"
proof (cases c)
  case (Write b)
  then show ?thesis using assms abs_operations_spare [of k] by (cases b) (auto simp: spares_def)
qed (use assms in \<open>auto simp: spares_def\<close>)

lemma db_run_spares:
  assumes "db_inv s" "md_is_open s" "um_lookup (md_data s) k = Some v" "list_all (spares k) calls"
  shows "db_get k (snd (run_all db_run calls s)) = (v, StorageError.SUCCESS)"
  using assms
proof (induction calls arbitrary: s)
  case (Cons c calls)
  let ?s = "snd (db_run c s)"
  obtain m' where "snd (abs_run c (db_abs s)) = Some m'" "m' k = Some v"
    using abs_run_spares [of "um_lookup (md_data s)" k v c] Cons.prems by (auto simp: db_abs_def)
  then have "db_abs ?s = Some m'" using db_run_refines [OF Cons.prems(1), of c] by simp
  then have "md_is_open ?s" "um_lookup (md_data ?s) k = Some v"
    using \<open>m' k = Some v\<close> by (auto simp: db_abs_def split: if_splits)
  then show ?case
    using Cons.IH [OF db_run_inv [OF Cons.prems(1)]] Cons.prems(4) by (simp add: case_prod_unfold Let_def)
qed (simp add: db_get_def)

text \<open>
  C18. A block that was encoded and put under its hash is found again: after any calls that neither write that key nor
  close the database, reading the key gives the bytes, and they decode to a block with the same Merkle
  root and, up to the height \<open>2^32\<close>, the same hash. The key is shared by all blocks of the same height and parent.
\<close>

theorem stored_block_found:
  assumes "codec_ok enc_tx dec_tx" "codec_ok enc dec"
    and "reachable_block b" "list_all (wf_txdata \<circ> tx_data) (blk_transactions b)"
    and "fst (serialize_block enc_tx dec_tx enc now b) = Inr bs"
    and "db_inv s" "md_is_open s" "k = hash_to_bytes (block_hash b)" "list_all (spares k) calls"
  shows "db_get k (snd (run_all db_run calls (snd (db_put k bs s)))) = (bs, StorageError.SUCCESS)
    \<and> (\<exists>b'. deserialize_block enc_tx dec_tx dec bs = Inr (Inr b')
        \<and> bh_merkle_root (blk_header b') = bh_merkle_root (blk_header b)
        \<and> (unat (bh_height (blk_header b)) < 2 ^ 32 \<longrightarrow> hash_to_bytes (block_hash b') = k))
    \<and> (\<forall>c. reachable_block c \<and> bh_height (blk_header c) = bh_height (blk_header b)
        \<and> bh_parent_hash (blk_header c) = bh_parent_hash (blk_header b) \<longrightarrow> hash_to_bytes (block_hash c) = k)"
proof -
  note inv = reachable_block_inv [OF assms(3)]
  have "db_inv (snd (db_put k bs s))" "md_is_open (snd (db_put k bs s))"
    "um_lookup (md_data (snd (db_put k bs s))) k = Some bs"
    using assms(6,7) by (simp_all add: db_put_def db_inv_def um.invar_insert um.lookup_insert)
  from db_run_spares [OF this assms(9)]
  have "db_get k (snd (run_all db_run calls (snd (db_put k bs s)))) = (bs, StorageError.SUCCESS)" .
  moreover have "\<exists>b'. deserialize_block enc_tx dec_tx dec bs = Inr (Inr b')
        \<and> bh_merkle_root (blk_header b') = bh_merkle_root (blk_header b)
        \<and> (unat (bh_height (blk_header b)) < 2 ^ 32 \<longrightarrow> hash_to_bytes (block_hash b') = k)"
    using deserialize_serialize_block [OF assms(1-5)] received_block_root [OF inv assms(4)]
      received_block_hash [OF inv assms(4)] assms(8) by simp
  moreover have "hash_to_bytes (block_hash c) = k"
    if "reachable_block c" "bh_height (blk_header c) = bh_height (blk_header b)"
      "bh_parent_hash (blk_header c) = bh_parent_hash (blk_header b)" for c
    using block_inv_hash [OF inv] block_inv_hash [OF reachable_block_inv [OF that(1)]] inv
      reachable_block_inv [OF that(1)] that(2,3) assms(8)
    by (simp add: block_hash_input_short block_inv_def)
  ultimately show ?thesis by blast
qed

definition open_database :: MemoryDatabase where
  "open_database = snd (db_open default_database_config make_database)"

theorem stored_block_found_witness:
  "\<exists>k. k = hash_to_bytes (block_hash demo_block)
    \<and> db_get k (snd (run_all db_run [Put [9] [1], Get k, Remove [9]] (snd (db_put k [1] open_database)))) = ([1], StorageError.SUCCESS)"
proof -
  let ?k = "hash_to_bytes (block_hash demo_block)"
  have wf: "list_all (wf_txdata \<circ> tx_data) (blk_transactions demo_block)"
    by (simp add: demo_block_facts(2) tx_calculate_hash_keeps(1))
  have db: "db_inv open_database" "md_is_open open_database"
    by (simp_all add: open_database_def db_open_def db_inv_def make_database_def)
  have "length ?k = 32"
    using reachable_block_inv [OF demo_block_facts(1)] block_inv_hash [of demo_block]
    by (simp add: hash_to_bytes_def hash_sha256_def core_size_defs)
  then have "?k \<noteq> [9]" by auto
  then have "list_all (spares ?k) [Put [9] [1], Get ?k, Remove [9]]" by (simp add: spares_def)
  from stored_block_found [OF codec_ok_only codec_ok_only demo_block_facts(1) wf demo_block_facts(3) db refl this]
  show ?thesis by blast
qed

end
