(* ===== verification/Json.thy ===== *)
theory Json
  imports Containers Float64
begin

text \<open>
  Values of the package nlohmann::json as far as the code looks into them. An object is the list of its
  members under distinct keys. An access to a value of the wrong type throws; what the exception says is
  the argument \<open>type_error\<close> of the functions that need it.
\<close>

datatype json = Jnull | Jbool bool | Jint int | Jfloat f64 | Jstring string | Jarray "json list"
  | Jobject "(string \<times> json) list"

definition json_empty :: "json \<Rightarrow> bool" where
  "json_empty v = (case v of Jnull \<Rightarrow> True | Jarray vs \<Rightarrow> vs = [] | Jobject obj \<Rightarrow> obj = [] | _ \<Rightarrow> False)"

text \<open>Sequencing of steps that may throw; the error is the message of the exception.\<close>

definition on_value :: "('e + 'a) \<Rightarrow> ('a \<Rightarrow> 'e + 'b) \<Rightarrow> 'e + 'b" where
  "on_value m f = (case m of Inl e \<Rightarrow> Inl e | Inr a \<Rightarrow> f a)"

lemma on_value_simps [simp]: "on_value (Inl e) f = Inl e" "on_value (Inr a) f = f a"
  by (simp_all add: on_value_def)

fun run_steps :: "('a \<Rightarrow> 'e + 'a) list \<Rightarrow> 'a \<Rightarrow> 'e + 'a" where
  "run_steps [] a = Inr a"
| "run_steps (f # fs) a = on_value (f a) (run_steps fs)"

text \<open>\<open>v.contains(key)\<close> with \<open>v[key]\<close>: only an object contains anything.\<close>

definition json_member :: "json \<Rightarrow> string \<Rightarrow> json option" where
  "json_member v key = (case v of Jobject obj \<Rightarrow> um_lookup obj key | _ \<Rightarrow> None)"

text \<open>\<open>v[key] = x\<close> on an object or on null, which becomes an object.\<close>

definition json_put :: "string \<Rightarrow> json \<Rightarrow> json \<Rightarrow> json" where
  "json_put key x v = (case v of Jobject obj \<Rightarrow> Jobject (um_insert key x obj) | _ \<Rightarrow> Jobject [(key, x)])"

text \<open>What \<open>v.items()\<close> runs over; a value that is no container counts as one item without a key.\<close>

definition json_items :: "json \<Rightarrow> (string \<times> json) list" where
  "json_items v =
     (case v of
        Jnull \<Rightarrow> []
      | Jobject obj \<Rightarrow> obj
      | Jarray vs \<Rightarrow> zip (map dec_string [0..<length vs]) vs
      | _ \<Rightarrow> [([], v)])"

definition json_get_bool :: "(json \<Rightarrow> string) \<Rightarrow> json \<Rightarrow> string + bool" where
  "json_get_bool type_error v = (case v of Jbool b \<Rightarrow> Inr b | _ \<Rightarrow> Inl (type_error v))"

definition json_get_string :: "(json \<Rightarrow> string) \<Rightarrow> json \<Rightarrow> string + string" where
  "json_get_string type_error v = (case v of Jstring s \<Rightarrow> Inr s | _ \<Rightarrow> Inl (type_error v))"

text \<open>\<open>get<size_t>()\<close>; the conversion of a \<open>double\<close> out of range is undefined and gives \<open>junk\<close>.\<close>

definition json_get_size :: "(json \<Rightarrow> string) \<Rightarrow> u64 \<Rightarrow> json \<Rightarrow> string + u64" where
  "json_get_size type_error junk v =
     (case v of
        Jint n \<Rightarrow> Inr (of_int n)
      | Jfloat x \<Rightarrow> Inr (case f64_to_u64 x of None \<Rightarrow> junk | Some n \<Rightarrow> n)
      | _ \<Rightarrow> Inl (type_error v))"

lemma json_member_put:
  "json_member (json_put k x v) j = (if j = k then Some x else json_member v j)" if "v = Jnull \<or> (\<exists>m. v = Jobject m)"
  using that by (auto simp: json_member_def json_put_def um_defs AList.update_conv')

end
