(* ===== verification/Timestamp_Iso.thy ===== *)
theory Timestamp_Iso
  imports Core_Timestamp
begin

text \<open>
  Calendar times (modules/core/src/timestamp.cpp: to_iso8601, from_iso8601, parse_iso8601 and the comparisons with
  the clock). \<open>gmtime\<close>, \<open>strftime\<close> and \<open>mktime\<close> are the C library's functions over the Gregorian calendar; \<open>mktime\<close>
  takes a broken-down time in the time zone of the process, which is the argument \<open>zone\<close>: the offset from UTC, in
  seconds, that holds at a local time.
\<close>

subsection \<open>The calendar of the C library\<close>

record tm =
  tm_year :: int
  tm_mon :: int
  tm_mday :: int
  tm_hour :: int
  tm_min :: int
  tm_sec :: int

definition leap_year :: "int \<Rightarrow> bool" where
  "leap_year y \<longleftrightarrow> y mod 4 = 0 \<and> (y mod 100 \<noteq> 0 \<or> y mod 400 = 0)"

definition year_length :: "int \<Rightarrow> int" where
  "year_length y = (if leap_year y then 366 else 365)"

text \<open>Days from 1970-01-01 to the first day of a year, and the lengths of the months.\<close>

definition days_before_year :: "int \<Rightarrow> int" where
  "days_before_year y = 365 * (y - 1970) + (y - 1) div 4 - (y - 1) div 100 + (y - 1) div 400 - 477"

definition month_lengths :: "int \<Rightarrow> int list" where
  "month_lengths y = [31, if leap_year y then 29 else 28, 31, 30, 31, 30, 31, 31, 30, 31, 30, 31]"

definition days_before_month :: "int \<Rightarrow> int \<Rightarrow> int" where
  "days_before_month y m = sum_list (take (nat m) (month_lengths y))"

text \<open>The year that contains a day: the guess is at most one year off.\<close>

definition year_of_day :: "int \<Rightarrow> int" where
  "year_of_day n =
     (let y = 1970 + (400 * n) div 146097
      in if days_before_year (y + 1) \<le> n then y + 1 else if days_before_year y \<le> n then y else y - 1)"

fun month_of_day :: "int list \<Rightarrow> int \<Rightarrow> int \<Rightarrow> int \<times> int" where
  "month_of_day [] m d = (m, d)"
| "month_of_day (l # ls) m d = (if d < l then (m, d) else month_of_day ls (m + 1) (d - l))"

definition gmtime :: "int \<Rightarrow> tm" where
  "gmtime t =
     (let n = t div 86400; s = t mod 86400; y = year_of_day n;
          (m, d) = month_of_day (month_lengths y) 0 (n - days_before_year y)
      in \<lparr> tm_year = y - 1900, tm_mon = m, tm_mday = d + 1, tm_hour = s div 3600, tm_min = s mod 3600 div 60,
           tm_sec = s mod 60 \<rparr>)"

text \<open>Members outside their range are carried over, as \<open>mktime\<close> does.\<close>

definition seconds_of_tm :: "tm \<Rightarrow> int" where
  "seconds_of_tm x =
     (let y = tm_year x + 1900 + tm_mon x div 12; m = tm_mon x mod 12
      in (days_before_year y + days_before_month y m + tm_mday x - 1) * 86400
         + tm_hour x * 3600 + tm_min x * 60 + tm_sec x)"

definition mktime :: "(int \<Rightarrow> int) \<Rightarrow> tm \<Rightarrow> int" where
  "mktime zone x = seconds_of_tm x - zone (seconds_of_tm x)"

subsection \<open>ISO 8601\<close>

definition two_digits :: "int \<Rightarrow> string" where
  "two_digits i = pad_front 2 (dec_string (nat i))"

definition put_time :: "tm \<Rightarrow> string" where
  "put_time x =
     int_string (tm_year x + 1900) @ ''-'' @ two_digits (tm_mon x + 1) @ ''-'' @ two_digits (tm_mday x) @ ''T''
     @ two_digits (tm_hour x) @ '':'' @ two_digits (tm_min x) @ '':'' @ two_digits (tm_sec x) @ ''Z''"

definition to_iso8601 :: "int \<Rightarrow> Timestamp \<Rightarrow> string option" where
  "to_iso8601 ticks ts = map_option (\<lambda>tp. put_time (gmtime (ticks_to_seconds ticks tp))) (to_time_point ticks ts)"

text \<open>The pattern \<^verbatim>\<open>(\d{4})-(\d{2})-(\d{2})T(\d{2}):(\d{2}):(\d{2})Z\<close>: a part is a number of digits or a character.\<close>

datatype iso_part = Digits nat | Exactly char

definition iso_pattern :: "iso_part list" where
  "iso_pattern = [Digits 4, Exactly CHR ''-'', Digits 2, Exactly CHR ''-'', Digits 2, Exactly CHR ''T'',
     Digits 2, Exactly CHR '':'', Digits 2, Exactly CHR '':'', Digits 2, Exactly CHR ''Z'']"

fun regex_match :: "iso_part list \<Rightarrow> string \<Rightarrow> string list option" where
  "regex_match [] s = (if s = [] then Some [] else None)"
| "regex_match (Exactly c # ps) s = (if s \<noteq> [] \<and> hd s = c then regex_match ps (tl s) else None)"
| "regex_match (Digits n # ps) s =
     (if length (take n s) = n \<and> list_all (\<lambda>c. digit_value 10 c \<noteq> None) (take n s)
      then map_option ((#) (take n s)) (regex_match ps (drop n s)) else None)"

definition stoi :: "string \<Rightarrow> int" where
  "stoi s = int (scan_digits 10 0 s)"

definition parse_iso8601 :: "(int \<Rightarrow> int) \<Rightarrow> string \<Rightarrow> u64 throws" where
  "parse_iso8601 zone s =
     (case regex_match iso_pattern s of
        Some [y, mo, d, h, mi, sec] \<Rightarrow>
          (let t = mktime zone \<lparr> tm_year = stoi y - 1900, tm_mon = stoi mo - 1, tm_mday = stoi d, tm_hour = stoi h,
             tm_min = stoi mi, tm_sec = stoi sec \<rparr>
           in if t = - 1 then Inl (Invalid_argument ''Invalid date/time in ISO8601 string'') else Inr (of_int t))
      | _ \<Rightarrow> Inl (Invalid_argument ''Invalid ISO8601 format''))"

definition from_iso8601 :: "(int \<Rightarrow> int) \<Rightarrow> string \<Rightarrow> Timestamp throws" where
  "from_iso8601 zone s = bind_exn (parse_iso8601 zone s) make_timestamp"

subsection \<open>Comparisons with the clock and durations\<close>

definition is_future :: "int \<Rightarrow> int \<Rightarrow> Timestamp \<Rightarrow> bool" where
  "is_future ticks now ts \<longleftrightarrow> of_int (ticks_to_seconds ticks now) < seconds ts"

definition is_past :: "int \<Rightarrow> int \<Rightarrow> Timestamp \<Rightarrow> bool" where
  "is_past ticks now ts \<longleftrightarrow> seconds ts < of_int (ticks_to_seconds ticks now)"

definition from_milliseconds :: "u64 \<Rightarrow> Timestamp throws" where
  "from_milliseconds ms = make_timestamp (ms div 1000)"

text \<open>The milliseconds count in a signed integer: the product is read with \<open>sint\<close>.\<close>

definition duration_ms_between :: "Timestamp \<Rightarrow> Timestamp \<Rightarrow> int" where
  "duration_ms_between start finish = sint ((seconds finish - seconds start) * 1000)"

definition read_timestamp :: "string \<Rightarrow> Timestamp throws" where
  "read_timestamp s =
     (case stoull 10 s of
        Inr v \<Rightarrow> make_timestamp v
      | Inl (Out_of_range _) \<Rightarrow> make_timestamp (- 1)
      | Inl _ \<Rightarrow> make_timestamp 0)"

subsection \<open>The calendar is consistent\<close>

lemma div_step: "0 < k \<Longrightarrow> y div k = (y - 1) div k + (if y mod k = 0 then 1 else 0)" for y k :: int
proof -
  assume k: "0 < k"
  show ?thesis
  proof (cases "y mod k = 0")
    case True
    then obtain q where "y = k * q" by (auto simp: mod_eq_0_iff_dvd)
    moreover have "(k * q - 1) div k = q - 1" using k by (simp add: int_div_pos_eq [of _ _ "q - 1" "k - 1"] algebra_simps)
    ultimately show ?thesis using k by simp
  next
    case False
    have "y - 1 = k * (y div k) + (y mod k - 1)" by simp
    moreover have "0 \<le> y mod k - 1" "y mod k - 1 < k" using k False pos_mod_sign [OF k, of y] pos_mod_bound [OF k, of y] by linarith+
    ultimately have "(y - 1) div k = y div k" by (rule int_div_pos_eq)
    then show ?thesis using False by simp
  qed
qed

lemma year_length_split:
  "year_length y = 365 + (if y mod 4 = 0 then 1 else 0) - (if y mod 100 = 0 then 1 else 0) + (if y mod 400 = 0 then 1 else 0)"
proof -
  have "y mod 400 = 0 \<Longrightarrow> y mod 100 = 0" "y mod 100 = 0 \<Longrightarrow> y mod 4 = 0" by presburger+
  then show ?thesis
    by (cases "y mod 4 = 0"; cases "y mod 100 = 0"; cases "y mod 400 = 0") (simp_all add: year_length_def leap_year_def)
qed

lemma days_before_year_step: "days_before_year (y + 1) = days_before_year y + year_length y"
proof -
  have "days_before_year (y + 1) = 365 * (y - 1970) + 365 + y div 4 - y div 100 + y div 400 - 477"
    by (simp add: days_before_year_def)
  also have "\<dots> = days_before_year y + year_length y"
    unfolding days_before_year_def year_length_split div_step [of 4 y, simplified] div_step [of 100 y, simplified]
      div_step [of 400 y, simplified] by (simp only: algebra_simps)
  finally show ?thesis .
qed

lemma days_before_year_error:
  fixes y :: int
  assumes "y - 1 = 4 * a + r" "y - 1 = 100 * b + u" "y - 1 = 400 * c + v" "0 \<le> r" "r < 4" "0 \<le> u" "u < 100" "0 \<le> v" "v < 400"
    and "n = 365 * (y - 1970) + a - b + c - 477"
  shows "146097 * (y - 1970) - 506 \<le> 400 * n" "400 * n \<le> 146097 * (y - 1970) + 589"
proof -
  have "400 * n = 146097 * (y - 1970) + 193 - 100 * r + 4 * u - v" using assms(1-3,10) by algebra
  with assms(4-9) show "146097 * (y - 1970) - 506 \<le> 400 * n" "400 * n \<le> 146097 * (y - 1970) + 589" by simp_all
qed

lemma days_before_year_bounds:
  "146097 * (y - 1970) - 506 \<le> 400 * days_before_year y" "400 * days_before_year y \<le> 146097 * (y - 1970) + 589"
  by (rule days_before_year_error [of y "(y - 1) div 4" "(y - 1) mod 4" "(y - 1) div 100" "(y - 1) mod 100"
      "(y - 1) div 400" "(y - 1) mod 400"]; simp add: days_before_year_def)+

lemma year_of_day_correct:
  "days_before_year (year_of_day n) \<le> n \<and> n < days_before_year (year_of_day n + 1)"
proof -
  define g r where "g = (400 * n) div 146097" and "r = (400 * n) mod 146097"
  have n: "400 * n = 146097 * g + r" "0 \<le> r" "r < 146097" by (simp_all add: g_def r_def)
  have hi: "n < days_before_year (1970 + g + 2)" using days_before_year_bounds(1) [of "1970 + g + 2"] n by simp
  have lo: "days_before_year (1970 + g - 1) \<le> n" using days_before_year_bounds(2) [of "1970 + g - 1"] n by simp
  have y: "year_of_day n = (if days_before_year (1970 + g + 1) \<le> n then 1970 + g + 1
      else if days_before_year (1970 + g) \<le> n then 1970 + g else 1970 + g - 1)"
    by (simp add: year_of_day_def Let_def g_def)
  have e: "1970 + g + 1 + 1 = 1970 + g + 2" "1970 + g - 1 + 1 = 1970 + g" by simp_all
  consider "days_before_year (1970 + g + 1) \<le> n" | "n < days_before_year (1970 + g + 1)" "days_before_year (1970 + g) \<le> n"
    | "n < days_before_year (1970 + g + 1)" "n < days_before_year (1970 + g)" by linarith
  then show ?thesis
  proof cases
    case 1
    then show ?thesis using hi unfolding y e by (simp only: if_True e simp_thms)
  next
    case 2
    then show ?thesis unfolding y by (simp only: not_le [symmetric] if_False if_True simp_thms)
  next
    case 3
    then show ?thesis using lo unfolding y by (simp only: not_le [symmetric] if_False e simp_thms)
  qed
qed

lemma sum_month_lengths: "sum_list (month_lengths y) = year_length y"
  by (simp add: month_lengths_def year_length_def)

lemma month_of_day_correct:
  assumes "month_of_day ls m d = (m', d')" "0 \<le> d" "d < sum_list ls" "\<forall>l \<in> set ls. l \<le> 31"
  shows "m \<le> m' \<and> m' < m + int (length ls) \<and> sum_list (take (nat (m' - m)) ls) + d' = d \<and> 0 \<le> d' \<and> d' < 31"
  using assms
proof (induction ls m d rule: month_of_day.induct)
  case (2 l ls m d)
  show ?case
  proof (cases "d < l")
    case False
    then have "m + 1 \<le> m' \<and> m' < m + 1 + int (length ls) \<and> sum_list (take (nat (m' - (m + 1))) ls) + d' = d - l \<and> 0 \<le> d' \<and> d' < 31"
      using 2 by simp
    moreover from this have "nat (m' - m) = Suc (nat (m' - (m + 1)))" by linarith
    ultimately show ?thesis by simp
  qed (use 2 in auto)
qed simp

lemma gmtime_date:
  assumes "month_of_day (month_lengths y) 0 (n - days_before_year y) = (m, d)" "y = year_of_day n"
  shows "0 \<le> m \<and> m < 12 \<and> days_before_year y + days_before_month y m + d = n \<and> 0 \<le> d \<and> d < 31"
proof -
  have "0 \<le> n - days_before_year y" "n - days_before_year y < sum_list (month_lengths y)"
    using year_of_day_correct [of n] days_before_year_step [of y] by (simp_all add: assms(2) sum_month_lengths)
  moreover have "\<forall>l \<in> set (month_lengths y). l \<le> 31" "length (month_lengths y) = 12"
    by (simp_all add: month_lengths_def)
  ultimately show ?thesis
    using month_of_day_correct [OF assms(1)] by (simp add: days_before_month_def)
qed

lemma gmtime_correct:
  "seconds_of_tm (gmtime t) = t" "0 \<le> tm_mon (gmtime t)" "tm_mon (gmtime t) < 12" "1 \<le> tm_mday (gmtime t)" "tm_mday (gmtime t) \<le> 31"
  "0 \<le> tm_hour (gmtime t)" "tm_hour (gmtime t) < 24" "0 \<le> tm_min (gmtime t)" "tm_min (gmtime t) < 60"
  "0 \<le> tm_sec (gmtime t)" "tm_sec (gmtime t) < 60" "tm_year (gmtime t) + 1900 = year_of_day (t div 86400)"
proof -
  define n s where "n = t div 86400" and "s = t mod 86400"
  obtain m d where md: "month_of_day (month_lengths (year_of_day n)) 0 (n - days_before_year (year_of_day n)) = (m, d)"
    by fastforce
  note date = gmtime_date [OF md refl]
  have g: "gmtime t = \<lparr> tm_year = year_of_day n - 1900, tm_mon = m, tm_mday = d + 1, tm_hour = s div 3600,
      tm_min = s mod 3600 div 60, tm_sec = s mod 60 \<rparr>"
    by (simp add: gmtime_def md n_def [symmetric] s_def [symmetric])
  have s: "0 \<le> s" "s < 86400" by (simp_all add: s_def)
  have "s = s div 3600 * 3600 + s mod 3600" "s mod 3600 = s mod 3600 div 60 * 60 + s mod 3600 mod 60" by simp_all
  moreover have "s mod 3600 mod 60 = s mod 60" by (simp add: mod_mod_cancel)
  ultimately have hms: "s div 3600 * 3600 + s mod 3600 div 60 * 60 + s mod 60 = s" by linarith
  have "s div 3600 \<le> 86399 div 3600" "s mod 3600 div 60 \<le> 3599 div 60" using s by (intro zdiv_mono1; simp)+
  then have hm: "s div 3600 < 24" "s mod 3600 div 60 < 60" by simp_all
  have t: "n * 86400 + s = t" by (simp add: n_def s_def)
  have "seconds_of_tm (gmtime t) = (days_before_year (year_of_day n) + days_before_month (year_of_day n) m + d) * 86400
      + (s div 3600 * 3600 + s mod 3600 div 60 * 60 + s mod 60)"
    using date by (simp add: seconds_of_tm_def g Let_def)
  also have "\<dots> = n * 86400 + s" using date by (simp only: hms)
  finally have "seconds_of_tm (gmtime t) = n * 86400 + s" .
  with t show "seconds_of_tm (gmtime t) = t" by simp
  show "0 \<le> tm_mon (gmtime t)" "tm_mon (gmtime t) < 12" "1 \<le> tm_mday (gmtime t)" "tm_mday (gmtime t) \<le> 31"
    using date by (simp_all add: g)
  show "0 \<le> tm_hour (gmtime t)" "tm_hour (gmtime t) < 24" "0 \<le> tm_min (gmtime t)" "tm_min (gmtime t) < 60"
    "0 \<le> tm_sec (gmtime t)" "tm_sec (gmtime t) < 60" "tm_year (gmtime t) + 1900 = year_of_day (t div 86400)"
    using s hm by (simp_all add: g n_def pos_imp_zdiv_nonneg_iff)
qed

lemma days_before_year_mono: "x \<le> y \<Longrightarrow> days_before_year x \<le> days_before_year y"
proof (induction y rule: int_ge_induct)
  case (step y)
  then show ?case using days_before_year_step [of y] by (simp add: year_length_def)
qed simp

lemma year_range:
  assumes "0 \<le> t" "t < 253402300800"
  shows "1970 \<le> tm_year (gmtime t) + 1900 \<and> tm_year (gmtime t) + 1900 < 10000"
proof -
  let ?n = "t div 86400"
  have n: "0 \<le> ?n" "?n < 2932897" using assms by (simp_all add: div_int_pos_iff)
  have d: "days_before_year 1970 = 0" "days_before_year 10000 = 2932897" by (simp_all add: days_before_year_def)
  have "\<not> year_of_day ?n < 1970"
    using year_of_day_correct [of ?n] days_before_year_mono [of "year_of_day ?n + 1" 1970] n d by force
  moreover have "\<not> 10000 \<le> year_of_day ?n"
    using year_of_day_correct [of ?n] days_before_year_mono [of 10000 "year_of_day ?n"] n d by force
  ultimately show ?thesis by (simp add: gmtime_correct(12))
qed

subsection \<open>Printing and reading back\<close>

lemma regex_match_digits:
  assumes "length s = n" "\<forall>c \<in> set s. \<exists>d<10. c = digit_char d"
  shows "regex_match (Digits n # ps) (s @ t) = map_option ((#) s) (regex_match ps t)"
proof -
  have "list_all (\<lambda>c. digit_value 10 c \<noteq> None) s" using assms(2) by (auto simp: list_all_iff digit_value_10)
  then show ?thesis using assms(1) by simp
qed

lemma dec_digits:
  assumes "length (dec_string n) \<le> k"
  shows "length (pad_front k (dec_string n)) = k" "\<forall>c \<in> set (pad_front k (dec_string n)). \<exists>d<10. c = digit_char d"
    "stoi (pad_front k (dec_string n)) = int n"
proof -
  show "length (pad_front k (dec_string n)) = k" using assms by (simp add: pad_front_def)
  have "\<exists>d<10. CHR ''0'' = digit_char d" by (intro exI [of _ 0]) (simp add: digit_char_def)
  then show "\<forall>c \<in> set (pad_front k (dec_string n)). \<exists>d<10. c = digit_char d"
    using dec_string_digits [of n] by (auto simp: pad_front_def)
  show "stoi (pad_front k (dec_string n)) = int n"
    using scan_show_base [OF digit_value_10, of n] by (simp add: stoi_def pad_front_def scan_digits_zeros dec_string_def)
qed

lemma two_digits_read:
  assumes "0 \<le> i" "i < 100"
  shows "regex_match (Digits 2 # ps) (two_digits i @ t) = map_option ((#) (two_digits i)) (regex_match ps t)"
    "stoi (two_digits i) = i"
proof -
  have "length (dec_string (nat i)) \<le> 2"
    using assms by (simp add: dec_string_def length_show_base [of 10 _ 2])
  note d = dec_digits [OF this]
  show "regex_match (Digits 2 # ps) (two_digits i @ t) = map_option ((#) (two_digits i)) (regex_match ps t)"
    unfolding two_digits_def by (rule regex_match_digits [OF d(1,2)])
  show "stoi (two_digits i) = i" using d(3) assms(1) by (simp add: two_digits_def)
qed

lemma year_read:
  assumes "1000 \<le> y" "y < 10000"
  shows "regex_match (Digits 4 # ps) (int_string y @ t) = map_option ((#) (int_string y)) (regex_match ps t)"
    "stoi (int_string y) = y"
proof -
  have n: "0 < nat y" "1000 \<le> nat y" "nat y < 10 ^ 4" using assms by auto
  have "length (dec_string (nat y)) \<le> 4" using n(3) by (simp add: dec_string_def length_show_base [of 10 _ 4])
  moreover have "(10 :: nat) ^ 3 < 10 ^ length (dec_string (nat y))"
    using le_less_trans [OF n(2) conjunct2 [OF dec_string_bounds [OF n(1)]]] by simp
  then have "3 < length (dec_string (nat y))" by (rule power_less_imp_less_exp [rotated]) simp
  ultimately have l: "length (dec_string (nat y)) = 4" by simp
  then have p: "pad_front 4 (dec_string (nat y)) = dec_string (nat y)" by (simp add: pad_front_def)
  note d = dec_digits [of "nat y" 4, unfolded p]
  show "regex_match (Digits 4 # ps) (int_string y @ t) = map_option ((#) (int_string y)) (regex_match ps t)"
    using assms regex_match_digits [OF d(1,2)] l by (simp add: int_string_def)
  show "stoi (int_string y) = y" using assms d(3) l by (simp add: int_string_def)
qed

lemma parse_put_time:
  assumes "0 \<le> t" "t < 253402300800"
  shows "parse_iso8601 zone (put_time (gmtime t)) =
    (if t - zone t = - 1 then Inl (Invalid_argument ''Invalid date/time in ISO8601 string'') else Inr (of_int (t - zone t)))"
proof -
  note g = gmtime_correct(1-11) [of t] and y = year_range [OF assms]
  have m: "regex_match iso_pattern (put_time (gmtime t)) = Some [int_string (tm_year (gmtime t) + 1900),
      two_digits (tm_mon (gmtime t) + 1), two_digits (tm_mday (gmtime t)), two_digits (tm_hour (gmtime t)),
      two_digits (tm_min (gmtime t)), two_digits (tm_sec (gmtime t))]"
    using g y by (simp add: iso_pattern_def put_time_def year_read two_digits_read del: regex_match.simps(3))
  have x: "\<lparr> tm_year = tm_year (gmtime t), tm_mon = tm_mon (gmtime t), tm_mday = tm_mday (gmtime t),
      tm_hour = tm_hour (gmtime t), tm_min = tm_min (gmtime t), tm_sec = tm_sec (gmtime t) \<rparr> = gmtime t"
    by simp
  show ?thesis
    using g y by (simp add: parse_iso8601_def m year_read two_digits_read x mktime_def Let_def)
qed

text \<open>
  C21. A timestamp that is printed and read back is the same timestamp when the process runs in UTC; in any other zone
  it comes back earlier by the zone's offset, because the text is UTC and the reader takes it as local time. For
  every timestamp before the year 10000 that the clock can represent.
\<close>

theorem iso8601_round_trip:
  assumes "0 < ticks" "to_time_point ticks ts = Some tp" "unat (seconds ts) < 253402300800"
  shows "\<exists>s. to_iso8601 ticks ts = Some s \<and> from_iso8601 (\<lambda>_. 0) s = Inr ts
    \<and> (\<forall>zone. zone (uint (seconds ts)) \<noteq> uint (seconds ts) + 1 \<longrightarrow>
         from_iso8601 zone s = Inr (Timestamp (seconds ts - of_int (zone (uint (seconds ts))))))"
proof -
  let ?t = "uint (seconds ts)"
  have iu: "int (unat (seconds ts)) = ?t" by simp
  have "int (unat (seconds ts)) < int 253402300800" using assms(3) by (simp only: of_nat_less_iff)
  then have t: "0 \<le> ?t" "?t < 253402300800" by (simp_all only: iu of_nat_numeral uint_ge_0)
  have "unat (seconds ts) < 2 ^ 63" using assms(3) by (rule less_trans) simp
  then have "sint (seconds ts) = ?t" using sint_small [of "seconds ts"] by (simp only: iu)
  then have tp: "tp = ?t * ticks" using assms(2) by (simp add: to_time_point_def Let_def split: if_splits)
  have "ticks_to_seconds ticks tp = ?t" using assms(1) t by (simp add: ticks_to_seconds_def tp)
  then have s: "to_iso8601 ticks ts = Some (put_time (gmtime ?t))" by (simp add: to_iso8601_def assms(2))
  have r: "from_iso8601 zone (put_time (gmtime ?t)) = Inr (Timestamp (seconds ts - of_int (zone ?t)))"
    if "zone ?t \<noteq> ?t + 1" for zone
  proof -
    have "?t - zone ?t \<noteq> - 1" using that by linarith
    then show ?thesis by (simp add: from_iso8601_def parse_put_time [OF t] bind_exn_def)
  qed
  have "?t + 1 \<noteq> 0" using t by linarith
  then have "from_iso8601 (\<lambda>_. 0) (put_time (gmtime ?t)) = Inr ts" using r [of "\<lambda>_. 0"] by simp
  with s r show ?thesis by blast
qed

theorem iso8601_round_trip_witness:
  "\<exists>s. to_iso8601 1000 (Timestamp 1700000000) = Some s \<and> from_iso8601 (\<lambda>_. 0) s = Inr (Timestamp 1700000000)
     \<and> from_iso8601 (\<lambda>_. 3600) s = Inr (Timestamp 1699996400)"
proof -
  have tp: "to_time_point 1000 (Timestamp 1700000000) = Some 1700000000000"
    using sint_small [of 1700000000] by (simp add: to_time_point_def)
  have u: "unat (seconds (Timestamp 1700000000)) < 253402300800" by simp
  show ?thesis using iso8601_round_trip [OF _ tp u] by fastforce
qed

text \<open>Days and months that do not exist are carried over into the next month or year, not refused.\<close>

lemma impossible_dates_accepted:
  "from_iso8601 (\<lambda>_. 0) ''2023-02-31T00:00:00Z'' = from_iso8601 (\<lambda>_. 0) ''2023-03-03T00:00:00Z''"
  "from_iso8601 (\<lambda>_. 0) ''2022-13-01T00:00:00Z'' = from_iso8601 (\<lambda>_. 0) ''2023-01-01T00:00:00Z''"
  by code_simp+

text \<open>East of UTC the epoch itself is read as a time close to the largest timestamp.\<close>

lemma epoch_read_east_of_utc: "from_iso8601 (\<lambda>_. 3600) ''1970-01-01T00:00:00Z'' = Inr (Timestamp (- 3600))"
  by code_simp

text \<open>\<open>duration_ms_between\<close> does not refuse an end before the start, unlike \<open>duration_between\<close>.\<close>

lemma duration_ms_unchecked: "duration_ms_between (Timestamp 2) (Timestamp 1) = - 1000"
  by code_simp

end
