(* ===== verification/Core_Program.thy ===== *)
theory Core_Program
  imports Core_Block Json Timestamp_Iso
begin

text \<open>
  The JSON forms of transactions and blocks (\<open>Transaction::to_json\<close>, \<open>Block::to_json\<close>) and the program
  \<open>main\<close> of the core module, which runs through the core types and prints what they give. \<open>dump\<close> and
  \<open>parse\<close> stand for the printer and the reader of nlohmann::json; \<open>parse\<close> gives the message of its exception or the value.
\<close>

subsection \<open>JSON\<close>

definition tx_json :: "Transaction \<Rightarrow> json \<times> Transaction" where
  "tx_json t =
     (let d = tx_data t;
          j1 = json_put ''from'' (Jstring (address_to_hex (Address (td_from d)))) Jnull;
          j2 = json_put ''to'' (Jstring (address_to_hex (Address (td_to d)))) j1;
          j3 = json_put ''value'' (Jstring (amount_to_string (Amount (td_value d)))) j2;
          j4 = json_put ''gasLimit'' (Jint (uint (td_gas_limit d))) j3;
          j5 = json_put ''gasPrice'' (Jint (uint (td_gas_price d))) j4;
          j6 = json_put ''nonce'' (Jint (uint (td_nonce d))) j5;
          j7 = json_put ''data'' (Jstring (''0x'' @ replicate 64 (CHR ''0''))) j6;
          (h, t') = tx_calculate_hash t
      in (json_put ''hash'' (Jstring (hash_to_hex h)) j7, t'))"

definition tx_to_json :: "(json \<Rightarrow> string) \<Rightarrow> Transaction \<Rightarrow> string \<times> Transaction" where
  "tx_to_json dump t = (let (j, t') = tx_json t in (dump j, t'))"

text \<open>The loop over the transactions of a block: each one is printed and read again.\<close>

fun json_transactions ::
    "(json \<Rightarrow> string) \<Rightarrow> (string \<Rightarrow> string + json) \<Rightarrow> Transaction list \<Rightarrow> (string + json list) \<times> Transaction list" where
  "json_transactions dump parse [] = (Inr [], [])"
| "json_transactions dump parse (t # ts) =
     (let (s, t') = tx_to_json dump t
      in case parse s of
           Inl e \<Rightarrow> (Inl e, t' # ts)
         | Inr j \<Rightarrow> (let (r, ts') = json_transactions dump parse ts in (on_value r (\<lambda>js. Inr (j # js)), t' # ts')))"

definition block_to_json ::
    "(json \<Rightarrow> string) \<Rightarrow> (string \<Rightarrow> string + json) \<Rightarrow> Block \<Rightarrow> (string + string) \<times> Block" where
  "block_to_json dump parse b =
     (let h = blk_header b;
          j1 = json_put ''height'' (Jint (uint (bh_height h))) Jnull;
          (hash, b1) = block_calculate_hash b;
          j2 = json_put ''hash'' (Jstring (hash_to_hex hash)) j1;
          j3 = json_put ''parentHash'' (Jstring (hash_to_hex (Hash (bh_parent_hash h)))) j2;
          j4 = json_put ''merkleRoot'' (Jstring (hash_to_hex (Hash (bh_merkle_root h)))) j3;
          j5 = json_put ''timestamp'' (Jint (uint (bh_timestamp h))) j4;
          j6 = json_put ''nonce'' (Jint (uint (bh_nonce h))) j5;
          j7 = json_put ''gasLimit'' (Jint (uint (bh_gas_limit h))) j6;
          j8 = json_put ''gasPrice'' (Jint (uint (bh_gas_price h))) j7;
          j9 = json_put ''chainId'' (Jint (uint (bh_chain_id h))) j8;
          (r, txs) = json_transactions dump parse (blk_transactions b1)
      in (on_value r (\<lambda>js. Inr (dump (json_put ''transactions'' (Jarray js) j9))), b1\<lparr>blk_transactions := txs\<rparr>))"

subsection \<open>The program\<close>

text \<open>
  A part of the program: the lines it has written to the standard output and how it went on. No result
  stands for undefined behaviour, a left value for an exception with this message.
\<close>

type_synonym 'a prog = "string list \<times> (string + 'a) option"

definition prog_say :: "string list \<Rightarrow> unit prog" where
  "prog_say ls = (ls, Some (Inr ()))"

definition prog_run :: "(string + 'a) option \<Rightarrow> 'a prog" where
  "prog_run r = ([], r)"

definition prog_then :: "'a prog \<Rightarrow> ('a \<Rightarrow> 'b prog) \<Rightarrow> 'b prog" where
  "prog_then p f =
     (case snd p of
        None \<Rightarrow> (fst p, None)
      | Some (Inl e) \<Rightarrow> (fst p, Some (Inl e))
      | Some (Inr a) \<Rightarrow> (fst p @ fst (f a), snd (f a)))"

definition thrown :: "'a throws \<Rightarrow> string + 'a" where
  "thrown r = (case r of Inl e \<Rightarrow> Inl (exn_what e) | Inr a \<Rightarrow> Inr a)"

definition yes_no :: "bool \<Rightarrow> string" where
  "yes_no b = (if b then ''yes'' else ''no'')"

text \<open>
  The body of the \<open>try\<close> block; \<open>rnd i\<close> are the random bytes of the \<open>i\<close>-th call of a random constructor, \<open>now\<close> is
  the reading of a clock with \<open>ticks\<close> ticks a second.
\<close>

definition core_main_body ::
    "(nat \<Rightarrow> nat \<Rightarrow> u8) \<Rightarrow> int \<Rightarrow> int \<Rightarrow> (json \<Rightarrow> string) \<Rightarrow> (string \<Rightarrow> string + json) \<Rightarrow> unit prog" where
  "core_main_body rnd ticks now dump parse =
     prog_then (let hash = hash_random (rnd 0) in
       prog_say [[], ''=== Testing Hash ==='', ''Generated hash: '' @ hash_to_hex hash,
            ''Hash size: '' @ dec_string (length (hash_data hash)) @ '' bytes'']) (\<lambda>_.
     prog_then (let addr = address_random (rnd 1) in
       prog_say [[], ''=== Testing Address ==='', ''Generated address: '' @ address_to_hex addr,
            ''Address is valid: '' @ yes_no (address_is_valid addr)]) (\<lambda>_.
     prog_then (prog_say [[], ''=== Testing Amount ===''] ) (\<lambda>_.
     prog_then (prog_run (map_option thrown (from_ether (Fin (3 / 2))))) (\<lambda>amount.
     prog_then (prog_say [''Amount: '' @ amount_to_string amount @ '' ETH'',
            ''Amount in wei: '' @ dec_string (unat (wei amount))]) (\<lambda>_.
     prog_then (prog_say [[], ''=== Testing Timestamp ===''] ) (\<lambda>_.
     prog_then (prog_run (Some (thrown (timestamp_now ticks now)))) (\<lambda>ts.
     prog_then (prog_say [''Current timestamp: '' @ dec_string (unat (seconds ts))]) (\<lambda>_.
     prog_then (prog_run (map_option Inr (to_iso8601 ticks ts))) (\<lambda>iso.
     prog_then (prog_say [''ISO8601: '' @ iso, [], ''=== Testing Transaction ===''] ) (\<lambda>_.
     prog_then (prog_run (map_option thrown (from_ether (round64 (1 / 10))))) (\<lambda>tx_amount.
     let tx = make_transaction (address_random (rnd 2)) (address_random (rnd 3)) tx_amount;
         (h, tx1) = tx_calculate_hash tx;
         genesis = add_transaction tx1 (create_genesis_block 1);
         (bh, genesis1) = block_calculate_hash genesis;
         (s, tx2) = tx_to_json dump tx1
     in prog_then (prog_say [''Transaction: '' @ tx_to_string tx, ''Transaction hash: '' @ hash_to_hex h,
            [], ''=== Testing Block ==='', ''Genesis block: '' @ block_to_string genesis, ''Block hash: '' @ hash_to_hex bh,
            [], ''=== Testing JSON Serialization ==='', ''Transaction JSON: '' @ s]) (\<lambda>_.
     prog_then (prog_run (Some (fst (block_to_json dump parse genesis1)))) (\<lambda>j.
     prog_say [''Block JSON: '' @ j, [],
          [CHR 0xE2, CHR 0x9C, CHR 0x85] @ '' All core tests completed successfully!''])))))))))))))"

text \<open>Standard output, standard error and the exit code.\<close>

definition core_main ::
    "(nat \<Rightarrow> nat \<Rightarrow> u8) \<Rightarrow> int \<Rightarrow> int \<Rightarrow> (json \<Rightarrow> string) \<Rightarrow> (string \<Rightarrow> string + json) \<Rightarrow> string list \<times> string list \<times> int option" where
  "core_main rnd ticks now dump parse =
     (let (out, r) = core_main_body rnd ticks now dump parse
      in case r of
           None \<Rightarrow> (''ChainForge Core Test'' # out, [], None)
         | Some (Inl e) \<Rightarrow> (''ChainForge Core Test'' # out, [[CHR 0xE2, CHR 0x9D, CHR 0x8C] @ '' Error: '' @ e], Some 1)
         | Some (Inr _) \<Rightarrow> (''ChainForge Core Test'' # out, [], Some 0))"

subsection \<open>What the JSON of a transaction tells\<close>

lemma amount_to_string_eq:
  "amount_to_string a = amount_to_string b \<longleftrightarrow> whole a = whole b \<and> fraction a = fraction b"
proof
  assume eq: "amount_to_string a = amount_to_string b"
  obtain t where t: "amount_to_string a = dec_string (unat (whole a)) @ ''.'' @ t" "pad_back DECIMALS t = frac_digits (fraction a)"
    using amount_to_string_frac by blast
  obtain u where u: "amount_to_string b = dec_string (unat (whole b)) @ ''.'' @ u" "pad_back DECIMALS u = frac_digits (fraction b)"
    using amount_to_string_frac by blast
  have no_point: "takeWhile (\<lambda>c. c \<noteq> CHR ''.'') (dec_string n @ ''.'' @ s) = dec_string n"
    "dropWhile (\<lambda>c. c \<noteq> CHR ''.'') (dec_string n @ ''.'' @ s) = CHR ''.'' # s" for n s
    using dec_string_no_point [of n] by (auto simp: takeWhile_append dropWhile_append)
  have "dec_string (unat (whole a)) = dec_string (unat (whole b))" "t = u"
    using eq t(1) u(1) no_point by (metis, metis list.inject)
  moreover from this(1) have "stoull 10 (dec_string (unat (whole a))) = stoull 10 (dec_string (unat (whole b)))" by simp
  then have "whole a = whole b" by simp
  moreover from calculation t(2) u(2) have "stoul 10 (frac_digits (fraction a)) = stoul 10 (frac_digits (fraction b))" by simp
  then have "(ucast (fraction a) :: u64) = ucast (fraction b)" by (simp add: stoul_frac_digits)
  from arg_cong [OF this, of "ucast :: u64 \<Rightarrow> u32"] have "fraction a = fraction b" by simp
  ultimately show "whole a = whole b \<and> fraction a = fraction b" by simp
qed (simp add: amount_to_string_def)

lemma address_to_hex_eq: "wf_address a \<Longrightarrow> wf_address b \<Longrightarrow> address_to_hex a = address_to_hex b \<longleftrightarrow> a = b"
  by (metis address_from_to_hex sum.inject(2))

lemma hash_wf_coherent:
  assumes "tx_coherent t" "wf_txdata (tx_data t)"
  shows "tx_hash t = Hash (td_from (tx_data t) @ take 12 (td_to (tx_data t)))"
  using assms by (simp add: tx_hash_coherent hash_sha256_def tx_hash_input_def wf_txdata_def core_size_defs copy_into_zeros_long)

lemma tx_json_members:
  "fst (tx_json t) = Jobject
     [(''from'', Jstring (address_to_hex (tx_from t))), (''to'', Jstring (address_to_hex (tx_to t))),
      (''value'', Jstring (amount_to_string (tx_value t))), (''gasLimit'', Jint (uint (tx_gas_limit t))),
      (''gasPrice'', Jint (uint (tx_gas_price t))), (''nonce'', Jint (uint (tx_nonce t))),
      (''data'', Jstring (''0x'' @ replicate 64 (CHR ''0''))), (''hash'', Jstring (hash_to_hex (tx_hash t)))]"
  "snd (tx_json t) = snd (tx_calculate_hash t)"
  by (simp_all add: tx_json_def json_put_def um_insert_def tx_from_def tx_to_def tx_value_def tx_gas_limit_def
      tx_gas_price_def tx_nonce_def from_wei_def Let_def split_beta)

text \<open>
  C36. The JSON of a transaction tells apart exactly the transactions that differ in sender, recipient, gas limit, gas
  price, nonce, whole ethers or the low 32 bits of the remaining wei: the payload is replaced by 32 zero bytes and
  the rest of the value is lost.
\<close>

theorem tx_json_exact:
  assumes "tx_coherent t" "wf_txdata (tx_data t)" "tx_coherent u" "wf_txdata (tx_data u)"
  shows "fst (tx_json t) = fst (tx_json u) \<longleftrightarrow>
    (tx_data t)\<lparr>td_data := [], td_value := 0\<rparr> = (tx_data u)\<lparr>td_data := [], td_value := 0\<rparr>
    \<and> unat (td_value (tx_data t)) div 10 ^ 18 = unat (td_value (tx_data u)) div 10 ^ 18
    \<and> unat (td_value (tx_data t)) mod 10 ^ 18 mod 2 ^ 32 = unat (td_value (tx_data u)) mod 10 ^ 18 mod 2 ^ 32"
proof -
  have hex: "address_to_hex (tx_from t) = address_to_hex (tx_from u) \<longleftrightarrow> td_from (tx_data t) = td_from (tx_data u)"
    "address_to_hex (tx_to t) = address_to_hex (tx_to u) \<longleftrightarrow> td_to (tx_data t) = td_to (tx_data u)"
    using assms(2,4) by (simp_all add: address_to_hex_eq tx_from_def tx_to_def wf_address_def wf_txdata_def)
  have val: "whole (Amount v) = whole (Amount w) \<and> fraction (Amount v) = fraction (Amount w) \<longleftrightarrow>
      unat v div 10 ^ 18 = unat w div 10 ^ 18 \<and> unat v mod 10 ^ 18 mod 2 ^ 32 = unat w mod 10 ^ 18 mod 2 ^ 32" for v w
    by (simp add: whole_def fraction_def word_unat_eq_iff unat_div unat_mod unsigned_ucast_eq unsigned_take_bit_eq take_bit_eq_mod)
  have "tx_hash t = tx_hash u" if "td_from (tx_data t) = td_from (tx_data u)" "td_to (tx_data t) = td_to (tx_data u)"
    using that by (simp add: hash_wf_coherent assms)
  then have "fst (tx_json t) = fst (tx_json u) \<longleftrightarrow>
      td_from (tx_data t) = td_from (tx_data u) \<and> td_to (tx_data t) = td_to (tx_data u)
      \<and> (whole (tx_value t) = whole (tx_value u) \<and> fraction (tx_value t) = fraction (tx_value u))
      \<and> tx_gas_limit t = tx_gas_limit u \<and> tx_gas_price t = tx_gas_price u \<and> tx_nonce t = tx_nonce u"
    by (auto simp: tx_json_members hex amount_to_string_eq word_uint_eq_iff [symmetric])
  also have "(whole (tx_value t) = whole (tx_value u) \<and> fraction (tx_value t) = fraction (tx_value u)) \<longleftrightarrow>
      unat (td_value (tx_data t)) div 10 ^ 18 = unat (td_value (tx_data u)) div 10 ^ 18
      \<and> unat (td_value (tx_data t)) mod 10 ^ 18 mod 2 ^ 32 = unat (td_value (tx_data u)) mod 10 ^ 18 mod 2 ^ 32"
    using val [of "td_value (tx_data t)" "td_value (tx_data u)"] by (simp only: tx_value_def from_wei_def)
  finally show ?thesis
    by (cases "tx_data t", cases "tx_data u") (simp add: tx_gas_limit_def tx_gas_price_def tx_nonce_def conj_ac)
qed

theorem tx_json_exact_witness:
  "fst (tx_json (make_transaction (Address (replicate 20 1)) (Address (replicate 20 2)) (Amount 5)))
    = fst (tx_json (tx_set_data [1, 2] (make_transaction (Address (replicate 20 1)) (Address (replicate 20 2)) (Amount 4294967301))))"
  using tx_json_exact [of "make_transaction (Address (replicate 20 1)) (Address (replicate 20 2)) (Amount 5)"
      "tx_set_data [1, 2] (make_transaction (Address (replicate 20 1)) (Address (replicate 20 2)) (Amount 4294967301))"]
  by (simp add: make_transaction_def tx_setter_defs tx_coherent_def wf_txdata_def core_size_defs)

subsection \<open>What the program prints\<close>

lemma prog_then_simps [simp]:
  "prog_then (ls, Some (Inr a)) f = (ls @ fst (f a), snd (f a))" "prog_then (ls, Some (Inl e)) f = (ls, Some (Inl e))"
  "prog_then (ls, None) f = (ls, None)"
  by (simp_all add: prog_then_def)

lemma ether_amounts:
  "from_ether (Fin (3 / 2)) = Some (Inr (Amount 1500000000000000000))"
  "from_ether (round64 (1 / 10)) = Some (Inr (Amount 100000000000000000))"
proof -
  have "fl 1500000000000000000 = 1500000000000000000"
    using fl_evalI [of 60 1500000000000000000 5859375000000000] by (simp add: power_int_minus)
  then have "round64 1500000000000000000 = Fin 1500000000000000000"
    using round64_Fin [of 1500000000000000000] small_range [of 1500000000000000000] by simp
  then show "from_ether (Fin (3 / 2)) = Some (Inr (Amount 1500000000000000000))"
    by (simp add: from_ether_in_range)
  let ?d = "3602879701896397 / 36028797018963968 :: rat"
  have "fl (1 / 10) = ?d"
    using fl_evalI [of "- 4" "1 / 10" 7205759403792794] by (simp add: power_int_minus)
  then have d: "round64 (1 / 10) = Fin ?d"
    using round64_Fin [of "1 / 10"] small_range [of "1 / 10"] by (simp add: round64_def)
  have "fl (?d * 1000000000000000000) = 100000000000000000"
    using fl_evalI [of 56 "?d * 1000000000000000000" 6250000000000000] by (simp add: power_int_minus)
  then have "round64 (?d * 1000000000000000000) = Fin 100000000000000000"
    by (simp add: round64_def)
  then show "from_ether (round64 (1 / 10)) = Some (Inr (Amount 100000000000000000))"
    by (simp add: d from_ether_in_range)
qed

lemma half_ether_string:
  "amount_to_string (Amount 1500000000000000000) = ''1.000000003551657984''"
  "dec_string 1500000000000000000 = ''1500000000000000000''"
proof -
  have "dec_string 1 = ''1''" "dec_string 3551657984 = ''3551657984''" "replicate 8 CHR ''0'' = ''00000000''"
    "whole (Amount 1500000000000000000) = 1" "fraction (Amount 1500000000000000000) = 3551657984"
    by (simp_all add: dec_string_def show_base.simps digit_char_def whole_def fraction_def WEI_PER_ETHER_def)
      (simp add: numeral_eq_Suc)
  then show "amount_to_string (Amount 1500000000000000000) = ''1.000000003551657984''"
    by (simp add: amount_to_string_def strip_zeros_def pad_front_def)
  show "dec_string 1500000000000000000 = ''1500000000000000000''"
    by (simp add: dec_string_def show_base.simps digit_char_def)
qed

lemma now_time_point:
  assumes "0 < ticks" "0 \<le> now" "now < 2 ^ 63"
  shows "\<exists>iso. to_iso8601 ticks (Timestamp (of_int (ticks_to_seconds ticks now))) = Some iso"
proof -
  let ?n = "now div ticks"
  have n: "0 \<le> ?n" "?n * ticks \<le> now"
    using assms(1,2) pos_mod_sign [of ticks now]
    by (simp_all only: pos_imp_zdiv_nonneg_iff minus_mod_eq_div_mult [symmetric]) simp
  moreover have "?n * 1 \<le> ?n * ticks" using n(1) assms(1) by (intro mult_left_mono) simp_all
  ultimately have "?n < 2 ^ 63" "0 \<le> ?n * ticks" "?n * ticks < 2 ^ 63" using assms by simp_all
  then have "sint (of_int ?n :: u64) = ?n" using n(1) by (simp add: signed_of_int signed_take_bit_int_eq_self)
  then show ?thesis
    using \<open>0 \<le> ?n * ticks\<close> \<open>?n * ticks < 2 ^ 63\<close> assms by (simp add: to_iso8601_def to_time_point_def ticks_to_seconds_def Let_def)
qed

text \<open>The transaction that the program makes, after its hash was computed, and the JSON of the block around it.\<close>

definition main_tx :: "(nat \<Rightarrow> nat \<Rightarrow> u8) \<Rightarrow> Transaction" where
  "main_tx rnd = snd (tx_calculate_hash
     (make_transaction (address_random (rnd 2)) (address_random (rnd 3)) (Amount 100000000000000000)))"

definition main_block_json :: "(nat \<Rightarrow> nat \<Rightarrow> u8) \<Rightarrow> json \<Rightarrow> json" where
  "main_block_json rnd v = Jobject
     [(''height'', Jint 0), (''hash'', Jstring (replicate 64 CHR ''0'')), (''parentHash'', Jstring (replicate 64 CHR ''0'')),
      (''merkleRoot'', Jstring (hash_to_hex (tx_hash (main_tx rnd)))), (''timestamp'', Jint 1609459200),
      (''nonce'', Jint 0x12345678), (''gasLimit'', Jint 8000000), (''gasPrice'', Jint 1), (''chainId'', Jint 1),
      (''transactions'', Jarray [v])]"

lemma calculate_hash_again [simp]: "tx_calculate_hash (snd (tx_calculate_hash t)) = (tx_hash t, snd (tx_calculate_hash t))"
  by (simp add: tx_calculate_hash_def Let_def split: option.split)

lemma zero_bytes: "be_bytes (0 :: 'a::len word) n = replicate n 0" "hex_bytes (replicate n 0) = replicate (2 * n) CHR ''0''"
  by (induction n) (simp_all add: byte_at_def hex_bytes_def hex_byte_digits digit_char_def)

lemma main_genesis:
  assumes "g = add_transaction (main_tx rnd) (create_genesis_block 1)"
  shows "blk_transactions g = [main_tx rnd]" "blk_cached_hash g = None"
    "blk_header g = \<lparr> bh_height = 0, bh_parent_hash = replicate 32 0, bh_merkle_root = hash_data (tx_hash (main_tx rnd)),
       bh_timestamp = 1609459200, bh_nonce = 0x12345678, bh_gas_limit = 8000000, bh_gas_price = 1, bh_chain_id = 1 \<rparr>"
    "block_hash g = Hash (replicate 32 0)"
proof -
  show f: "blk_transactions g = [main_tx rnd]" "blk_cached_hash g = None"
    "blk_header g = \<lparr> bh_height = 0, bh_parent_hash = replicate 32 0, bh_merkle_root = hash_data (tx_hash (main_tx rnd)),
       bh_timestamp = 1609459200, bh_nonce = 0x12345678, bh_gas_limit = 8000000, bh_gas_price = 1, bh_chain_id = 1 \<rparr>"
    by (simp_all add: assms add_transaction_def create_genesis_block_def update_merkle_root_def calculate_merkle_root_def
        block_setter_defs make_block_def block_invalidate_cache_def hash_zero_def core_size_defs main_tx_def split_beta)
  then have "wf_header (blk_header g)" by (simp add: wf_header_def core_size_defs)
  then show "block_hash g = Hash (replicate 32 0)"
    by (simp add: f block_calculate_hash_def Let_def block_hash_input_short zero_bytes flip: replicate_add)
qed

lemma main_block_to_json:
  assumes "g = add_transaction (main_tx rnd) (create_genesis_block 1)"
  shows "fst (block_to_json dump parse (snd (block_calculate_hash g))) =
    on_value (parse (dump (fst (tx_json (main_tx rnd))))) (\<lambda>v. Inr (dump (main_block_json rnd v)))"
proof -
  note f = main_genesis [OF assms]
  define c where "c = snd (block_calculate_hash g)"
  have c: "blk_header c = blk_header g" "blk_transactions c = blk_transactions g" "block_hash c = block_hash g"
    "snd (block_calculate_hash c) = c"
    using f(2) by (simp_all add: c_def block_calculate_hash_def Let_def)
  have "hash_to_hex (Hash (replicate 32 0)) = replicate 64 CHR ''0''"
    using zero_bytes(2) [of 32] by (simp add: hash_to_hex_def)
  then show ?thesis
    unfolding c_def [symmetric]
    by (cases "parse (dump (fst (tx_json (main_tx rnd))))")
      (simp_all add: block_to_json_def Let_def split_beta c f tx_to_json_def main_block_json_def json_put_def um_insert_def)
qed

text \<open>
  C37. Whatever the random bytes and for every reading of the clock after the epoch the program ends: with exit code 0 when
  nlohmann::json reads back the JSON of the transaction that it printed, otherwise with its message and exit
  code 1. It prints 1.5 ether as 1.000000003551657984 ETH, and in the end the JSON of the genesis block with the one
  transaction, whose hash is the Merkle root, and with a block hash of zeros only.
\<close>

theorem core_main_outcome:
  assumes "0 < ticks" "0 \<le> now" "now < 2 ^ 63" "core_main rnd ticks now dump parse = (out, err, code)"
  shows "(case parse (dump (fst (tx_json (main_tx rnd)))) of
      Inl e \<Rightarrow> code = Some 1 \<and> err = [[CHR 0xE2, CHR 0x9D, CHR 0x8C] @ '' Error: '' @ e]
    | Inr v \<Rightarrow> code = Some 0 \<and> err = [] \<and> ''Block JSON: '' @ dump (main_block_json rnd v) \<in> set out)
    \<and> ''Amount: 1.000000003551657984 ETH'' \<in> set out \<and> ''Amount in wei: 1500000000000000000'' \<in> set out"
proof -
  obtain iso where iso: "to_iso8601 ticks (Timestamp (of_int (ticks_to_seconds ticks now))) = Some iso"
    using now_time_point [OF assms(1-3)] by blast
  let ?t = "make_transaction (address_random (rnd 2)) (address_random (rnd 3)) (Amount 100000000000000000)"
  have tx: "tx_calculate_hash ?t = (tx_hash (main_tx rnd), main_tx rnd)" by (simp add: main_tx_def)
  show ?thesis
    using assms(4) main_block_to_json [of _ rnd dump parse]
    by (cases "parse (dump (fst (tx_json (main_tx rnd))))")
      (auto simp: core_main_def core_main_body_def ether_amounts half_ether_string iso tx timestamp_now_def prog_say_def prog_run_def
        thrown_def Let_def split_beta)
qed

theorem core_main_outcome_witness:
  "\<exists>out. core_main (\<lambda>i j. 1) 1000000000 1700000000123456789 (\<lambda>j. ''{}'') (\<lambda>s. Inr Jnull) = (out, [], Some 0)"
proof -
  obtain out err code where
    "core_main (\<lambda>i j. 1) 1000000000 1700000000123456789 (\<lambda>j. ''{}'') (\<lambda>s. Inr Jnull) = (out, err, code)"
    by (metis surj_pair)
  with core_main_outcome [OF _ _ _ this] show ?thesis by simp
qed

end
