(* ===== verification/Peer_Address.thy ===== *)
theory Peer_Address
  imports Core_Timestamp
begin

text \<open>
  Peer addresses and peer state (modules/p2p: peer_address.hpp, peer_address.cpp).
  \<open>boost::asio::ip::make_address\<close> is a parameter \<open>mk\<close> from texts to what the code reads of the
  parsed address, \<open>None\<close> when it throws. Time points are tick counts as in \<open>Timestamp\<close>; \<open>ticks\<close> is
  the number of ticks per second and \<open>now\<close> the reading of the system clock.
\<close>

subsection \<open>Data\<close>

record PeerAddress =
  pa_ip :: string
  pa_port :: u16
  pa_last_seen :: int
  pa_services :: u32

record asio_address =
  as_is_v4 :: bool
  as_bytes :: byte_vector
  as_is_loopback :: bool
  as_is_multicast :: bool
  as_is_unspecified :: bool
  as_is_site_local :: bool
  as_is_link_local :: bool

type_synonym asio_parser = "string \<Rightarrow> asio_address option"

record PeerInfo =
  pi_address :: PeerAddress
  pi_version :: string
  pi_height :: u64
  pi_ping_time_ms :: int
  pi_connected :: bool
  pi_connection_attempts :: u32
  pi_last_attempt :: int
  pi_connected_since :: int

abbreviation NODE_NETWORK :: u32 where "NODE_NETWORK \<equiv> push_bit 0 1"

definition peer_address :: "int \<Rightarrow> string \<Rightarrow> u16 \<Rightarrow> PeerAddress" where
  "peer_address now ip port = \<lparr> pa_ip = ip, pa_port = port, pa_last_seen = now, pa_services = 0 \<rparr>"

definition peer_address_services :: "int \<Rightarrow> string \<Rightarrow> u16 \<Rightarrow> u32 \<Rightarrow> PeerAddress" where
  "peer_address_services now ip port services =
     \<lparr> pa_ip = ip, pa_port = port, pa_last_seen = now, pa_services = services \<rparr>"

definition update_last_seen :: "int \<Rightarrow> PeerAddress \<Rightarrow> PeerAddress" where
  "update_last_seen now p = p\<lparr>pa_last_seen := now\<rparr>"

definition age_seconds :: "int \<Rightarrow> int \<Rightarrow> PeerAddress \<Rightarrow> int" where
  "age_seconds ticks now p = ticks_to_seconds ticks (now - pa_last_seen p)"

definition peer_equal :: "PeerAddress \<Rightarrow> PeerAddress \<Rightarrow> bool" where
  "peer_equal a b = (pa_ip a = pa_ip b \<and> pa_port a = pa_port b)"

definition peer_less :: "PeerAddress \<Rightarrow> PeerAddress \<Rightarrow> bool" where
  "peer_less a b = (if pa_ip a \<noteq> pa_ip b then pa_ip a < pa_ip b else pa_port a < pa_port b)"

subsection \<open>Address validation\<close>

definition is_valid_ip :: "asio_parser \<Rightarrow> string \<Rightarrow> bool" where
  "is_valid_ip mk ip = (case mk ip of None \<Rightarrow> False | Some a \<Rightarrow> True)"

definition is_localhost :: "asio_parser \<Rightarrow> string \<Rightarrow> bool" where
  "is_localhost mk ip =
     (if ip = ''127.0.0.1'' \<or> ip = ''::1'' \<or> ip = ''localhost'' then True
      else case mk ip of None \<Rightarrow> False | Some a \<Rightarrow> as_is_loopback a)"

definition is_private_ip :: "asio_parser \<Rightarrow> string \<Rightarrow> bool" where
  "is_private_ip mk ip =
     (case mk ip of
        None \<Rightarrow> False
      | Some a \<Rightarrow>
          if as_is_v4 a then
            let b0 = as_bytes a ! 0; b1 = as_bytes a ! 1 in
            if b0 = 10 then True
            else if b0 = 172 \<and> 16 \<le> b1 \<and> b1 \<le> 31 then True
            else if b0 = 192 \<and> b1 = 168 then True
            else b0 = 169 \<and> b1 = 254
          else as_is_site_local a \<or> as_is_link_local a)"

definition is_routable_ip :: "asio_parser \<Rightarrow> string \<Rightarrow> bool" where
  "is_routable_ip mk ip =
     (case mk ip of
        None \<Rightarrow> False
      | Some a \<Rightarrow>
          if as_is_loopback a \<or> as_is_multicast a \<or> as_is_unspecified a then False
          else if is_private_ip mk ip then False else True)"

definition is_valid_port :: "u16 \<Rightarrow> bool" where
  "is_valid_port port = (0 < port)"

definition is_valid_peer_address :: "asio_parser \<Rightarrow> PeerAddress \<Rightarrow> bool \<Rightarrow> bool" where
  "is_valid_peer_address mk addr allow_private =
     (if \<not> is_valid_ip mk (pa_ip addr) then False
      else if \<not> is_valid_port (pa_port addr) then False
      else if \<not> allow_private \<and> \<not> is_routable_ip mk (pa_ip addr) then False
      else True)"

definition peer_is_valid :: "asio_parser \<Rightarrow> PeerAddress \<Rightarrow> bool" where
  "peer_is_valid mk p = is_valid_peer_address mk p False"

definition peer_is_local :: "asio_parser \<Rightarrow> PeerAddress \<Rightarrow> bool" where
  "peer_is_local mk p = (is_localhost mk (pa_ip p) \<or> is_private_ip mk (pa_ip p))"

subsection \<open>Peer state\<close>

text \<open>A default-constructed \<open>time_point\<close> is the epoch.\<close>

definition peer_info :: "PeerAddress \<Rightarrow> PeerInfo" where
  "peer_info addr = \<lparr> pi_address = addr, pi_version = [], pi_height = 0, pi_ping_time_ms = - 1,
     pi_connected = False, pi_connection_attempts = 0, pi_last_attempt = 0, pi_connected_since = 0 \<rparr>"

definition is_stale :: "int \<Rightarrow> int \<Rightarrow> int \<Rightarrow> PeerInfo \<Rightarrow> bool" where
  "is_stale ticks now max_age i = (max_age < age_seconds ticks now (pi_address i))"

definition should_retry :: "int \<Rightarrow> int \<Rightarrow> int \<Rightarrow> PeerInfo \<Rightarrow> bool" where
  "should_retry ticks now retry_interval i =
     (if pi_connected i then False
      else retry_interval \<le> ticks_to_seconds ticks (now - pi_last_attempt i))"

definition record_attempt :: "int \<Rightarrow> PeerInfo \<Rightarrow> PeerInfo" where
  "record_attempt now i =
     i\<lparr>pi_connection_attempts := pi_connection_attempts i + 1, pi_last_attempt := now\<rparr>"

definition mark_connected :: "int \<Rightarrow> PeerInfo \<Rightarrow> PeerInfo" where
  "mark_connected now i =
     i\<lparr>pi_connected := True, pi_connected_since := now, pi_address := update_last_seen now (pi_address i)\<rparr>"

definition mark_disconnected :: "PeerInfo \<Rightarrow> PeerInfo" where
  "mark_disconnected i = i\<lparr>pi_connected := False\<rparr>"

subsection \<open>Facts\<close>

abbreviation peer_key :: "PeerAddress \<Rightarrow> string \<times> u16" where
  "peer_key p \<equiv> (pa_ip p, pa_port p)"

lemma peer_less_key: "peer_less a b \<longleftrightarrow> peer_key a < peer_key b"
  by (auto simp: peer_less_def less_prod_def)

lemma peer_equal_key: "peer_equal a b \<longleftrightarrow> peer_key a = peer_key b"
  by (simp add: peer_equal_def)

lemma peer_valid_not_local:
  assumes "mk ''127.0.0.1'' = Some a" "as_is_loopback a" "mk ''::1'' = Some b" "as_is_loopback b" "mk ''localhost'' = None"
    and "peer_is_valid mk p"
  shows "\<not> peer_is_local mk p"
  using assms
  by (auto simp: peer_is_valid_def is_valid_peer_address_def is_routable_ip_def peer_is_local_def
      is_localhost_def is_valid_ip_def split: option.splits if_splits)

end
