(* ===== verification/Peer_Exchange.thy ===== *)
theory Peer_Exchange
  imports Peer_Address "HOL-Library.Multiset"
begin

text \<open>
  The peer list format of \<open>PeerExchange\<close> (modules/p2p/src/peer_discovery.cpp): a 4-byte count, then
  for each peer a length byte, the text of the address, the port and the services, big-endian. The
  position in the input is the rest of the list still to read. The constructor of
  \<open>PeerAddress\<close> stamps a received peer with the current time.
\<close>

definition char_byte :: "char \<Rightarrow> u8" where "char_byte c = of_nat (of_char c)"
definition byte_char :: "u8 \<Rightarrow> char" where "byte_char b = char_of (unat b)"

definition serialize_peer :: "PeerAddress \<Rightarrow> byte_vector" where
  "serialize_peer p =
     [of_nat (length (pa_ip p))] @ map char_byte (pa_ip p) @ be_bytes (pa_port p) 2 @ be_bytes (pa_services p) 4"

definition serialize_peers :: "PeerAddress list \<Rightarrow> byte_vector" where
  "serialize_peers peers = be_bytes (of_nat (length peers) :: u32) 4 @ concat (map serialize_peer peers)"

fun deserialize_loop :: "int \<Rightarrow> nat \<Rightarrow> byte_vector \<Rightarrow> PeerAddress list" where
  "deserialize_loop now 0 d = []"
| "deserialize_loop now (Suc n) [] = []"
| "deserialize_loop now (Suc n) (ip_len # d1) =
     (if length d1 < unat ip_len then []
      else let ip = map byte_char (take (unat ip_len) d1); d2 = drop (unat ip_len) d1 in
        if length d2 < 2 then []
        else let port = be_shift_in 0 (take 2 d2); d3 = drop 2 d2 in
          if length d3 < 4 then []
          else let services = be_shift_in 0 (take 4 d3)
               in peer_address_services now ip port services # deserialize_loop now n (drop 4 d3))"

definition deserialize_peers :: "int \<Rightarrow> byte_vector \<Rightarrow> PeerAddress list" where
  "deserialize_peers now d =
     (if length d < 4 then []
      else let cnt = (be_shift_in 0 (take 4 d) :: u32) in deserialize_loop now (unat cnt) (drop 4 d))"

text \<open>\<open>std::sort\<close> may order peers seen at the same time in any way; here it keeps their order.\<close>

definition select_peers_to_share :: "PeerAddress list \<Rightarrow> nat \<Rightarrow> PeerAddress list" where
  "select_peers_to_share all_peers max_count =
     (if length all_peers \<le> max_count then all_peers
      else take max_count (sort_key (\<lambda>p. - pa_last_seen p) all_peers))"

subsection \<open>Round trip\<close>

lemma byte_char_byte [simp]: "byte_char (char_byte c) = c"
proof -
  have "(of_char c :: nat) < 256" by simp
  then show ?thesis by (simp add: byte_char_def char_byte_def unat_of_nat)
qed

lemma deserialize_serialize_peer:
  assumes "length (pa_ip p) < 256"
  shows "deserialize_loop now (Suc n) (serialize_peer p @ d)
    = p\<lparr>pa_last_seen := now\<rparr> # deserialize_loop now n d"
proof -
  have len: "unat (of_nat (length (pa_ip p)) :: u8) = length (pa_ip p)"
    using assms by (simp add: unat_of_nat)
  have port: "be_shift_in 0 (be_bytes (pa_port p) 2) = pa_port p"
    by (rule be_shift_in_be_bytes) simp_all
  have services: "be_shift_in 0 (be_bytes (pa_services p) 4) = pa_services p"
    by (rule be_shift_in_be_bytes) simp_all
  have ip: "map byte_char (map char_byte (pa_ip p)) = pa_ip p"
    by (simp add: comp_def)
  show ?thesis
    by (simp add: serialize_peer_def len port services ip Let_def peer_address_services_def comp_def)
qed

lemma deserialize_serialize_list:
  "\<forall>p \<in> set ps. length (pa_ip p) < 256 \<Longrightarrow>
    deserialize_loop now (length ps) (concat (map serialize_peer ps)) = map (\<lambda>p. p\<lparr>pa_last_seen := now\<rparr>) ps"
  by (induction ps) (simp_all add: deserialize_serialize_peer del: deserialize_loop.simps(3))

text \<open>
  C9. The peer exchange format loses nothing but the time of last contact: reading back a
  serialized list of fewer than 2^32 peers whose addresses are shorter than 256 characters
  gives the same addresses, ports and services in the same order, each stamped with the time of the
  reading.
\<close>

theorem peer_exchange_round_trip:
  assumes "length ps < 2 ^ 32" "\<forall>p \<in> set ps. length (pa_ip p) < 256"
  shows "deserialize_peers now (serialize_peers ps) = map (\<lambda>p. p\<lparr>pa_last_seen := now\<rparr>) ps"
proof -
  have "be_shift_in 0 (be_bytes (of_nat (length ps) :: u32) 4) = (of_nat (length ps) :: u32)"
    by (rule be_shift_in_be_bytes) simp_all
  moreover have "unat (of_nat (length ps) :: u32) = length ps"
    using assms(1) by (simp add: unat_of_nat)
  ultimately show ?thesis
    using deserialize_serialize_list [OF assms(2)] by (simp add: deserialize_peers_def serialize_peers_def)
qed

theorem peer_exchange_round_trip_witness:
  "deserialize_peers 7 (serialize_peers [peer_address_services 3 ''8.8.8.8'' 8333 1])
     = [peer_address_services 7 ''8.8.8.8'' 8333 1]"
  using peer_exchange_round_trip [of "[peer_address_services 3 ''8.8.8.8'' 8333 1]" 7]
  by (simp add: peer_address_services_def)

subsection \<open>Hostile input\<close>

lemma deserialize_loop_length: "7 * length (deserialize_loop now n d) \<le> length d"
proof (induction n arbitrary: d)
  case (Suc n)
  show ?case
  proof (cases d)
    case (Cons ip_len d1)
    have "7 * length (deserialize_loop now n (drop 4 (drop 2 (drop (unat ip_len) d1)))) \<le> length d1 - unat ip_len - 6"
      using Suc.IH [of "drop 4 (drop 2 (drop (unat ip_len) d1))"] by (simp add: add.commute)
    then show ?thesis
      by (auto simp: Cons Let_def)
  qed simp
qed simp

text \<open>
  Whatever count a message announces, reading it is bounded by the message: every peer read
  takes at least seven bytes, so a message of \<open>n\<close> bytes yields at most \<open>(n - 4) / 7\<close> peers.
\<close>

theorem deserialize_peers_bounded:
  "7 * length (deserialize_peers now d) \<le> length d - 4"
  using deserialize_loop_length [of now _ "drop 4 d"] by (simp add: deserialize_peers_def Let_def)

subsection \<open>Selection\<close>

text \<open>
  The peers shared with another node are at most \<open>max_count\<close> of our own, and the ones seen
  last: no peer left out was seen later than one that is shared.
\<close>

theorem select_peers_to_share_most_recent:
  "length (select_peers_to_share ps n) = min n (length ps)
   \<and> set (select_peers_to_share ps n) \<subseteq> set ps
   \<and> (\<exists>rest. mset (select_peers_to_share ps n) + mset rest = mset ps
        \<and> (\<forall>p \<in> set (select_peers_to_share ps n). \<forall>q \<in> set rest. pa_last_seen q \<le> pa_last_seen p))"
proof (cases "length ps \<le> n")
  case True
  then show ?thesis
    by (auto simp: select_peers_to_share_def intro: exI [of _ "[]"])
next
  case False
  define qs where "qs = sort_key (\<lambda>p. - pa_last_seen p) ps"
  have sorted: "sorted (map (\<lambda>p. - pa_last_seen p) (take n qs @ drop n qs))"
    by (simp add: qs_def)
  have "\<forall>p \<in> set (take n qs). \<forall>q \<in> set (drop n qs). pa_last_seen q \<le> pa_last_seen p"
    using sorted unfolding map_append sorted_append by auto
  moreover have "mset (take n qs) + mset (drop n qs) = mset ps"
    by (metis append_take_drop_id mset_append mset_sort qs_def)
  moreover have "set (take n qs) \<subseteq> set ps"
    by (metis qs_def set_sort set_take_subset)
  moreover have "length (take n qs) = min n (length ps)"
    by (simp add: qs_def)
  ultimately show ?thesis
    using False by (auto simp: select_peers_to_share_def qs_def)
qed

theorem select_peers_to_share_most_recent_witness:
  "length (select_peers_to_share [peer_address 3 ''1.1.1.1'' 1, peer_address 5 ''2.2.2.2'' 1] 1) = 1"
  using select_peers_to_share_most_recent [of "[peer_address 3 ''1.1.1.1'' 1, peer_address 5 ''2.2.2.2'' 1]" 1]
  by simp

end
