(* ===== verification/Peer_Discovery.thy ===== *)
theory Peer_Discovery
  imports Peer_Exchange
begin

text \<open>
  Peer discovery (modules/p2p: peer_discovery.hpp, peer_discovery.cpp). The set of known peers, a
  \<open>std::set<PeerAddress>\<close>, is the list of its elements in the order of \<open>operator<\<close>, which
  compares address and port only. Logging and the timer leave no trace in the state; the calls of the
  discovery callback are recorded in \<open>pd_notified\<close>. Parameters stand for what is outside the module:
  \<open>mk\<close> is \<open>boost::asio::ip::make_address\<close>, \<open>dns\<close> the name resolver (\<open>None\<close> when it
  throws), \<open>bind_err\<close> and \<open>bcast_err\<close> the error message of the UDP transport, if any, and
  \<open>shuffle\<close> the permutation \<open>std::shuffle\<close> draws.
\<close>

subsection \<open>Data\<close>

datatype DiscoveryError =
    INVALID_ADDRESS | NO_PEERS_FOUND | DNS_RESOLUTION_FAILED | BROADCAST_FAILED | ALREADY_RUNNING | NOT_RUNNING

type_synonym 'a DiscoveryResult = "(DiscoveryError \<times> string) + 'a"

record BootstrapConfig =
  bc_static_nodes :: "PeerAddress list"
  bc_dns_seeds :: "string list"
  bc_enable_mdns :: bool
  bc_enable_peer_exchange :: bool
  bc_discovery_port :: u16
  bc_discovery_interval :: int
  bc_max_peers :: nat

record PeerDiscovery =
  pd_config :: BootstrapConfig
  pd_peers :: "PeerAddress list"
  pd_running :: bool
  pd_has_callback :: bool
  pd_notified :: "PeerAddress list"

definition default_bootstrap_config :: BootstrapConfig where
  "default_bootstrap_config = \<lparr> bc_static_nodes = [], bc_dns_seeds = [], bc_enable_mdns = True,
     bc_enable_peer_exchange = True, bc_discovery_port = 8333, bc_discovery_interval = 30, bc_max_peers = 125 \<rparr>"

definition make_discovery_error :: "DiscoveryError \<Rightarrow> string \<Rightarrow> 'a DiscoveryResult" where
  "make_discovery_error code msg = Inl (code, msg)"

definition peer_discovery :: "BootstrapConfig \<Rightarrow> PeerDiscovery" where
  "peer_discovery cfg = \<lparr> pd_config = cfg, pd_peers = [], pd_running = False,
     pd_has_callback = False, pd_notified = [] \<rparr>"

subsection \<open>The ordered set\<close>

fun oset_insert :: "PeerAddress \<Rightarrow> PeerAddress list \<Rightarrow> bool \<times> PeerAddress list" where
  "oset_insert x [] = (True, [x])"
| "oset_insert x (y # ys) =
     (if peer_less x y then (True, x # y # ys)
      else if peer_less y x then (let (ins, zs) = oset_insert x ys in (ins, y # zs))
      else (False, y # ys))"

definition oset_erase :: "PeerAddress \<Rightarrow> PeerAddress list \<Rightarrow> PeerAddress list" where
  "oset_erase x ys = filter (\<lambda>y. peer_less x y \<or> peer_less y x) ys"

subsection \<open>Operations on the peer set\<close>

definition get_peers :: "PeerDiscovery \<Rightarrow> PeerAddress list" where
  "get_peers d = pd_peers d"

definition add_peer :: "asio_parser \<Rightarrow> PeerAddress \<Rightarrow> PeerDiscovery \<Rightarrow> bool \<times> PeerDiscovery" where
  "add_peer mk addr d =
     (if \<not> peer_is_valid mk addr then (False, d)
      else if bc_max_peers (pd_config d) \<le> length (pd_peers d) then (False, d)
      else let (inserted, ps) = oset_insert addr (pd_peers d); d1 = d\<lparr>pd_peers := ps\<rparr> in
        if inserted \<and> pd_has_callback d1
        then (inserted, d1\<lparr>pd_notified := pd_notified d1 @ [addr]\<rparr>)
        else (inserted, d1))"

definition remove_peer :: "PeerAddress \<Rightarrow> PeerDiscovery \<Rightarrow> bool \<times> PeerDiscovery" where
  "remove_peer addr d =
     (let ps = oset_erase addr (pd_peers d)
      in (0 < length (pd_peers d) - length ps, d\<lparr>pd_peers := ps\<rparr>))"

definition has_peer :: "PeerAddress \<Rightarrow> PeerDiscovery \<Rightarrow> bool" where
  "has_peer addr d = list_ex (\<lambda>y. \<not> peer_less addr y \<and> \<not> peer_less y addr) (pd_peers d)"

definition get_random_peers ::
  "(PeerAddress list \<Rightarrow> PeerAddress list) \<Rightarrow> nat \<Rightarrow> PeerDiscovery \<Rightarrow> PeerAddress list" where
  "get_random_peers shuffle cnt d =
     (if length (pd_peers d) \<le> cnt then pd_peers d else take cnt (shuffle (pd_peers d)))"

definition set_discovery_callback :: "bool \<Rightarrow> PeerDiscovery \<Rightarrow> PeerDiscovery" where
  "set_discovery_callback present d = d\<lparr>pd_has_callback := present\<rparr>"

definition cleanup_stale_peers :: "int \<Rightarrow> int \<Rightarrow> int \<Rightarrow> PeerDiscovery \<Rightarrow> PeerDiscovery" where
  "cleanup_stale_peers ticks now max_age d =
     d\<lparr>pd_peers := filter (\<lambda>p. \<not> max_age < age_seconds ticks now p) (pd_peers d)\<rparr>"

definition add_peers :: "asio_parser \<Rightarrow> PeerAddress list \<Rightarrow> PeerDiscovery \<Rightarrow> PeerDiscovery" where
  "add_peers mk ps d = fold (\<lambda>p d. snd (add_peer mk p d)) ps d"

definition load_bootstrap_nodes :: "asio_parser \<Rightarrow> PeerDiscovery \<Rightarrow> PeerDiscovery" where
  "load_bootstrap_nodes mk d = add_peers mk (bc_static_nodes (pd_config d)) d"

definition exchange_peers ::
  "asio_parser \<Rightarrow> PeerAddress list \<Rightarrow> PeerDiscovery \<Rightarrow> PeerAddress list \<times> PeerDiscovery" where
  "exchange_peers mk their_peers d =
     (let d1 = add_peers mk their_peers d in (select_peers_to_share (get_peers d1) 10, d1))"

subsection \<open>DNS seeds\<close>

definition dns_resolve :: "(string \<Rightarrow> string list option) \<Rightarrow> int \<Rightarrow> string \<Rightarrow> u16 \<Rightarrow> PeerAddress list" where
  "dns_resolve dns now dns_seed default_port =
     (case dns dns_seed of
        None \<Rightarrow> []
      | Some results \<Rightarrow> map (\<lambda>a. peer_address_services now a default_port NODE_NETWORK) results)"

text \<open>\<open>std::unique\<close> keeps the first element of every run of equal neighbours.\<close>

fun peers_unique :: "PeerAddress list \<Rightarrow> PeerAddress list" where
  "peers_unique [] = []"
| "peers_unique [x] = [x]"
| "peers_unique (x # y # ys) =
     (if peer_equal x y then peers_unique (x # ys) else x # peers_unique (y # ys))"

definition resolve_multiple ::
  "(string \<Rightarrow> string list option) \<Rightarrow> int \<Rightarrow> string list \<Rightarrow> u16 \<Rightarrow> PeerAddress list" where
  "resolve_multiple dns now dns_seeds default_port =
     peers_unique (sort_key peer_key (concat (map (\<lambda>s. dns_resolve dns now s default_port) dns_seeds)))"

fun add_discovered ::
  "asio_parser \<Rightarrow> PeerAddress list \<Rightarrow> PeerAddress list \<times> PeerDiscovery \<Rightarrow> PeerAddress list \<times> PeerDiscovery" where
  "add_discovered mk [] (found, d) = (found, d)"
| "add_discovered mk (p # ps) (found, d) =
     (let (added, d1) = add_peer mk p d
      in add_discovered mk ps (if added then found @ [p] else found, d1))"

definition resolve_dns_seeds ::
  "asio_parser \<Rightarrow> (string \<Rightarrow> string list option) \<Rightarrow> int \<Rightarrow> PeerDiscovery \<Rightarrow>
   PeerAddress list DiscoveryResult \<times> PeerDiscovery" where
  "resolve_dns_seeds mk dns now d =
     (let (found, d1) = fold (\<lambda>s. add_discovered mk (dns_resolve dns now s (bc_discovery_port (pd_config d))))
                          (bc_dns_seeds (pd_config d)) ([], d)
      in if found = [] then (make_discovery_error NO_PEERS_FOUND ''No peers found from DNS seeds'', d1)
         else (Inr found, d1))"

subsection \<open>Broadcast, messages and life cycle\<close>

definition discovery_message :: "u16 \<Rightarrow> byte_vector" where
  "discovery_message port = map char_byte (''DISCOVER:'' @ dec_string (unat port))"

definition broadcast_discovery ::
  "(byte_vector \<Rightarrow> u16 \<Rightarrow> string option) \<Rightarrow> PeerDiscovery \<Rightarrow> unit DiscoveryResult" where
  "broadcast_discovery bcast_err d =
     (if \<not> pd_running d then make_discovery_error NOT_RUNNING ''Discovery not running''
      else case bcast_err (discovery_message (bc_discovery_port (pd_config d))) (bc_discovery_port (pd_config d)) of
        Some msg \<Rightarrow> make_discovery_error BROADCAST_FAILED (''Broadcast failed: '' @ msg)
      | None \<Rightarrow> Inr ())"

definition handle_discovery_message ::
  "asio_parser \<Rightarrow> int \<Rightarrow> byte_vector \<Rightarrow> string \<Rightarrow> PeerDiscovery \<Rightarrow> PeerDiscovery" where
  "handle_discovery_message mk now data sender d =
     (let message = map byte_char data in
      if take 9 message = ''DISCOVER:'' then
        (case stoi 10 (drop 9 message) of
           Inl e \<Rightarrow> d
         | Inr v \<Rightarrow> snd (add_peer mk (peer_address now sender (word_of_int v)) d))
      else if take 9 message = ''PEERLIST:'' then
        add_peers mk (deserialize_peers now (drop 9 data)) d
      else d)"

definition start_discovery ::
  "asio_parser \<Rightarrow> (string \<Rightarrow> string list option) \<Rightarrow> (u16 \<Rightarrow> string option) \<Rightarrow> int \<Rightarrow> PeerDiscovery \<Rightarrow>
   unit DiscoveryResult \<times> PeerDiscovery" where
  "start_discovery mk dns bind_err now d =
     (if pd_running d then (make_discovery_error ALREADY_RUNNING ''Discovery already running'', d)
      else let d1 = load_bootstrap_nodes mk d; cfg = pd_config d in
        case (if bc_enable_mdns cfg then bind_err (bc_discovery_port cfg) else None) of
          Some msg \<Rightarrow> (make_discovery_error BROADCAST_FAILED (''Failed to bind UDP for discovery: '' @ msg), d1)
        | None \<Rightarrow>
            let d2 = (if bc_dns_seeds cfg \<noteq> [] then snd (resolve_dns_seeds mk dns now d1) else d1)
            in (Inr (), d2\<lparr>pd_running := True\<rparr>))"

definition stop_discovery :: "PeerDiscovery \<Rightarrow> PeerDiscovery" where
  "stop_discovery d = d\<lparr>pd_running := False\<rparr>"

subsection \<open>The set\<close>

lemma peer_less_irrefl [simp]: "\<not> peer_less a a"
  by (simp add: peer_less_key)

lemma peer_less_trans: "peer_less a b \<Longrightarrow> peer_less b c \<Longrightarrow> peer_less a c"
  unfolding peer_less_key by (rule less_trans)

lemma peer_incomparable: "\<not> peer_less a b \<Longrightarrow> \<not> peer_less b a \<Longrightarrow> peer_key a = peer_key b"
  unfolding peer_less_key using antisym_conv3 [of "peer_key b" "peer_key a"] by blast

lemma oset_insert_Cons:
  "oset_insert x (y # ys) =
     (if peer_less x y then (True, x # y # ys)
      else if peer_less y x then (fst (oset_insert x ys), y # snd (oset_insert x ys))
      else (False, y # ys))"
  by (simp add: case_prod_unfold Let_def)

lemma oset_insert_snd:
  "set (snd (oset_insert x ys)) = (if fst (oset_insert x ys) then insert x (set ys) else set ys)
   \<and> length (snd (oset_insert x ys)) = (if fst (oset_insert x ys) then Suc (length ys) else length ys)
   \<and> (\<not> fst (oset_insert x ys) \<longrightarrow> snd (oset_insert x ys) = ys)"
proof (induction ys)
  case (Cons y ys)
  then show ?case
    by (simp add: oset_insert_Cons insert_commute del: oset_insert.simps)
qed simp

lemma oset_insert_set:
  "oset_insert x ys = (ins, zs) \<Longrightarrow> set zs = (if ins then insert x (set ys) else set ys)"
  using oset_insert_snd [of x ys] by simp

lemma oset_insert_unchanged: "oset_insert x ys = (False, zs) \<Longrightarrow> zs = ys"
  using oset_insert_snd [of x ys] by simp

lemma oset_insert_length: "oset_insert x ys = (ins, zs) \<Longrightarrow> length zs \<le> Suc (length ys)"
  using oset_insert_snd [of x ys] by simp

lemma oset_insert_sorted:
  "oset_insert x ys = (ins, zs) \<Longrightarrow> sorted_wrt peer_less ys \<Longrightarrow> sorted_wrt peer_less zs"
proof (induction ys arbitrary: ins zs)
  case (Cons y ys)
  have later: "peer_less x y \<Longrightarrow> \<forall>z \<in> set ys. peer_less x z"
    using Cons.prems(2) peer_less_trans [of x y] by simp
  obtain ins' ws where ws: "oset_insert x ys = (ins', ws)" by (cases "oset_insert x ys")
  have "peer_less y x \<Longrightarrow> \<forall>z \<in> set ws. peer_less y z"
    using oset_insert_set [OF ws] Cons.prems(2) by (cases ins') simp_all
  then show ?case
    using Cons.prems later Cons.IH [OF ws] ws
    by (cases "peer_less x y"; cases "peer_less y x") (auto simp add: oset_insert_Cons simp del: oset_insert.simps)
qed simp

lemma oset_insert_new:
  "sorted_wrt peer_less ys \<Longrightarrow> fst (oset_insert x ys) \<longleftrightarrow> peer_key x \<notin> peer_key ` set ys"
proof (induction ys)
  case (Cons y ys)
  consider "peer_less x y" | "peer_less y x" "\<not> peer_less x y" | "\<not> peer_less x y" "\<not> peer_less y x" by blast
  then show ?case
  proof cases
    case 1
    then have "\<forall>z \<in> set (y # ys). peer_less x z" using Cons.prems by (auto intro: peer_less_trans)
    then have "peer_key x \<notin> peer_key ` set (y # ys)" by (fastforce simp: peer_less_key)
    then show ?thesis using 1 by simp
  next
    case 2
    then have "peer_key x \<noteq> peer_key y" unfolding peer_less_key by auto
    then show ?thesis using 2 Cons by (auto split: prod.splits)
  next
    case 3
    then show ?thesis using peer_incomparable [of x y] by simp
  qed
qed simp

lemma has_peer_key: "has_peer a d \<longleftrightarrow> peer_key a \<in> peer_key ` set (pd_peers d)"
proof -
  have "(\<not> peer_less a y \<and> \<not> peer_less y a) \<longleftrightarrow> peer_key a = peer_key y" for y
    using peer_incomparable [of a y] unfolding peer_less_key by auto
  then show ?thesis unfolding has_peer_def list_ex_iff by (auto simp del: prod.inject)
qed

subsection \<open>Invariant\<close>

definition pd_inv :: "asio_parser \<Rightarrow> PeerDiscovery \<Rightarrow> bool" where
  "pd_inv mk d \<longleftrightarrow> sorted_wrt peer_less (pd_peers d)
     \<and> length (pd_peers d) \<le> bc_max_peers (pd_config d) \<and> list_all (peer_is_valid mk) (pd_peers d)"

lemma pd_invI:
  "sorted_wrt peer_less (pd_peers d) \<Longrightarrow> length (pd_peers d) \<le> bc_max_peers (pd_config d) \<Longrightarrow>
    (\<And>p. p \<in> set (pd_peers d) \<Longrightarrow> peer_is_valid mk p) \<Longrightarrow> pd_inv mk d"
  by (simp add: pd_inv_def list_all_iff)

lemma pd_inv_other_fields [simp]:
  "pd_inv mk (d\<lparr>pd_running := r\<rparr>) \<longleftrightarrow> pd_inv mk d"
  "pd_inv mk (d\<lparr>pd_has_callback := r\<rparr>) \<longleftrightarrow> pd_inv mk d"
  "pd_inv mk (d\<lparr>pd_notified := ns\<rparr>) \<longleftrightarrow> pd_inv mk d"
  by (simp_all add: pd_inv_def)

lemma add_peer_inv: "pd_inv mk d \<Longrightarrow> pd_inv mk (snd (add_peer mk p d))"
proof -
  assume inv: "pd_inv mk d"
  obtain ins ps where o: "oset_insert p (pd_peers d) = (ins, ps)" by (cases "oset_insert p (pd_peers d)")
  have "pd_inv mk (d\<lparr>pd_peers := ps\<rparr>)"
    if "peer_is_valid mk p" "\<not> bc_max_peers (pd_config d) \<le> length (pd_peers d)"
    using that inv oset_insert_length [OF o] oset_insert_sorted [OF o] oset_insert_set [OF o]
    by (simp add: pd_inv_def list_all_iff)
  then show ?thesis
    using inv by (simp add: add_peer_def o Let_def)
qed

lemma add_peer_config [simp]: "pd_config (snd (add_peer mk p d)) = pd_config d"
  by (simp add: add_peer_def Let_def split: prod.splits)

lemma add_peers_inv: "pd_inv mk d \<Longrightarrow> pd_inv mk (add_peers mk ps d)"
  unfolding add_peers_def by (induction ps arbitrary: d) (simp_all add: add_peer_inv)

lemma filter_peers_inv: "pd_inv mk d \<Longrightarrow> pd_inv mk (d\<lparr>pd_peers := filter P (pd_peers d)\<rparr>)"
  using length_filter_le [of P "pd_peers d"]
  by (auto simp: pd_inv_def list_all_iff sorted_wrt_filter intro: order_trans simp del: length_filter_le)

lemma add_discovered_inv: "pd_inv mk (snd s) \<Longrightarrow> pd_inv mk (snd (add_discovered mk ps s))"
proof (induction mk ps s rule: add_discovered.induct)
  case (2 mk p ps found d)
  obtain added d1 where a: "add_peer mk p d = (added, d1)" by (cases "add_peer mk p d")
  have "pd_inv mk d1" using add_peer_inv [of mk d p] "2.prems" a by simp
  then show ?case using "2.IH" [of "(added, d1)" added d1] a by simp
qed simp

lemma fold_add_discovered_inv:
  "pd_inv mk (snd s) \<Longrightarrow> pd_inv mk (snd (fold (\<lambda>x. add_discovered mk (f x)) xs s))"
  by (induction xs arbitrary: s) (simp_all add: add_discovered_inv)

lemma resolve_dns_seeds_inv: "pd_inv mk d \<Longrightarrow> pd_inv mk (snd (resolve_dns_seeds mk dns now d))"
  using fold_add_discovered_inv [of mk "([], d)" "\<lambda>s. dns_resolve dns now s (bc_discovery_port (pd_config d))"]
  by (simp add: resolve_dns_seeds_def case_prod_unfold Let_def)

lemmas pd_inv_ops = add_peer_inv add_peers_inv filter_peers_inv resolve_dns_seeds_inv

text \<open>The calls a client, the timer and the network may make, in any order.\<close>

inductive discovery_step :: "asio_parser \<Rightarrow> PeerDiscovery \<Rightarrow> PeerDiscovery \<Rightarrow> bool" for mk where
  Add: "discovery_step mk d (snd (add_peer mk p d))"
| Remove: "discovery_step mk d (snd (remove_peer p d))"
| Exchange: "discovery_step mk d (snd (exchange_peers mk ps d))"
| Resolve: "discovery_step mk d (snd (resolve_dns_seeds mk dns now d))"
| Cleanup: "discovery_step mk d (cleanup_stale_peers ticks now max_age d)"
| Receive: "discovery_step mk d (handle_discovery_message mk now data sender d)"
| Start: "discovery_step mk d (snd (start_discovery mk dns bind_err now d))"
| Stop: "discovery_step mk d (stop_discovery d)"
| Callback: "discovery_step mk d (set_discovery_callback present d)"

inductive reachable_discovery :: "asio_parser \<Rightarrow> BootstrapConfig \<Rightarrow> PeerDiscovery \<Rightarrow> bool" for mk cfg where
  Init: "reachable_discovery mk cfg (peer_discovery cfg)"
| Step: "reachable_discovery mk cfg d \<Longrightarrow> discovery_step mk d d' \<Longrightarrow> reachable_discovery mk cfg d'"

lemma discovery_step_inv: "discovery_step mk d d' \<Longrightarrow> pd_inv mk d \<Longrightarrow> pd_inv mk d'"
proof (induction rule: discovery_step.induct)
  case (Receive d now data sender)
  then show ?case
    by (simp add: handle_discovery_message_def Let_def pd_inv_ops split: sum.split)
next
  case (Start d dns bind_err now)
  then show ?case
    by (simp add: start_discovery_def load_bootstrap_nodes_def Let_def pd_inv_ops split: option.split)
qed (simp_all add: remove_peer_def oset_erase_def exchange_peers_def cleanup_stale_peers_def
      stop_discovery_def set_discovery_callback_def pd_inv_ops Let_def)

lemma peer_is_valid_port: "peer_is_valid mk p \<Longrightarrow> 0 < pa_port p"
  by (simp add: peer_is_valid_def is_valid_peer_address_def is_valid_port_def split: if_splits)

lemma peer_is_valid_address:
  assumes "peer_is_valid mk p"
  shows "\<exists>a. mk (pa_ip p) = Some a \<and> \<not> as_is_loopback a \<and> \<not> as_is_multicast a \<and> \<not> as_is_unspecified a
    \<and> (if as_is_v4 a
        then as_bytes a ! 0 \<noteq> 10 \<and> \<not> (as_bytes a ! 0 = 172 \<and> as_bytes a ! 1 \<in> {16..31})
          \<and> (as_bytes a ! 0, as_bytes a ! 1) \<notin> {(192, 168), (169, 254)}
        else \<not> as_is_site_local a \<and> \<not> as_is_link_local a)"
  using assms
  by (auto simp: peer_is_valid_def is_valid_peer_address_def is_routable_ip_def is_private_ip_def Let_def
      split: if_splits option.splits)

text \<open>
  C6. However the discovery service is used (peers added, removed, exchanged, resolved from seeds,
  received from the network, cleaned up; started and stopped), its peer set never holds two entries with
  the same address and port, never exceeds \<open>max_peers\<close>, and the port of every peer is not zero. The address of
  every peer is one that Asio can parse and that is, by what Asio says of it, neither loopback nor multicast
  nor unspecified; if it is an IPv4 address it is outside 10/8, 172.16/12, 192.168/16 and 169.254/16, and if it is an IPv6
  address it is neither site-local nor link-local. (Unique local addresses, fc00::/7, are none of these and are accepted.)
\<close>

theorem reachable_discovery_inv:
  assumes "reachable_discovery mk cfg d"
  shows "distinct (map peer_key (pd_peers d)) \<and> length (pd_peers d) \<le> bc_max_peers (pd_config d)
    \<and> (\<forall>p \<in> set (pd_peers d). 0 < pa_port p \<and> (\<exists>a. mk (pa_ip p) = Some a
        \<and> \<not> as_is_loopback a \<and> \<not> as_is_multicast a \<and> \<not> as_is_unspecified a
        \<and> (if as_is_v4 a
            then as_bytes a ! 0 \<noteq> 10 \<and> \<not> (as_bytes a ! 0 = 172 \<and> as_bytes a ! 1 \<in> {16..31})
              \<and> (as_bytes a ! 0, as_bytes a ! 1) \<notin> {(192, 168), (169, 254)}
            else \<not> as_is_site_local a \<and> \<not> as_is_link_local a)))"
proof -
  have inv: "pd_inv mk d"
    using assms
  proof (induction rule: reachable_discovery.induct)
    case Init
    then show ?case by (simp add: pd_inv_def peer_discovery_def)
  next
    case (Step d d')
    then show ?case by (blast intro: discovery_step_inv)
  qed
  then have "sorted_wrt (\<lambda>a b. peer_key a < peer_key b) (pd_peers d)"
    unfolding pd_inv_def peer_less_key [symmetric] by simp
  then have "sorted_wrt (<) (map peer_key (pd_peers d))"
    by (simp only: sorted_wrt_map)
  then have "distinct (map peer_key (pd_peers d))"
    by (simp only: strict_sorted_iff)
  moreover have "peer_is_valid mk p" if "p \<in> set (pd_peers d)" for p
    using inv that by (simp add: pd_inv_def list_all_iff)
  moreover have "length (pd_peers d) \<le> bc_max_peers (pd_config d)" using inv by (simp add: pd_inv_def)
  ultimately show ?thesis by (intro conjI ballI peer_is_valid_address peer_is_valid_port)
qed

text \<open>A parser that knows one public and one private address.\<close>

definition demo_parser :: asio_parser where
  "demo_parser ip =
     (if ip = ''8.8.8.8'' then Some \<lparr> as_is_v4 = True, as_bytes = [8, 8, 8, 8], as_is_loopback = False,
        as_is_multicast = False, as_is_unspecified = False, as_is_site_local = False, as_is_link_local = False \<rparr>
      else if ip = ''192.168.1.7'' then Some \<lparr> as_is_v4 = True, as_bytes = [192, 168, 1, 7], as_is_loopback = False,
        as_is_multicast = False, as_is_unspecified = False, as_is_site_local = False, as_is_link_local = False \<rparr>
      else None)"

lemma demo_parser_public: "peer_is_valid demo_parser (peer_address now ''8.8.8.8'' 8333)"
  by (simp add: peer_is_valid_def is_valid_peer_address_def is_valid_ip_def is_valid_port_def is_routable_ip_def
      is_private_ip_def demo_parser_def peer_address_def)

lemma demo_discovery:
  "pd_peers (snd (add_peer demo_parser (peer_address 0 ''8.8.8.8'' 8333) (peer_discovery default_bootstrap_config)))
     = [peer_address 0 ''8.8.8.8'' 8333]"
  by (simp add: add_peer_def demo_parser_public peer_discovery_def default_bootstrap_config_def)

theorem reachable_discovery_inv_witness:
  "\<exists>d. reachable_discovery demo_parser default_bootstrap_config d
     \<and> pd_peers d = [peer_address 0 ''8.8.8.8'' 8333] \<and> demo_parser ''8.8.8.8'' \<noteq> None"
proof -
  let ?d = "snd (add_peer demo_parser (peer_address 0 ''8.8.8.8'' 8333) (peer_discovery default_bootstrap_config))"
  have r: "reachable_discovery demo_parser default_bootstrap_config ?d"
    by (rule Step [OF Init discovery_step.Add])
  have "demo_parser ''8.8.8.8'' \<noteq> None"
    using reachable_discovery_inv [OF r, unfolded demo_discovery] by (auto simp: peer_address_def)
  then show ?thesis using r demo_discovery by blast
qed

subsection \<open>Adding a peer\<close>

text \<open>
  \<open>add_peer\<close> reports success exactly for a valid peer that is not yet known while there is
  room; then that peer joins the set and everything else stays. Otherwise nothing changes, so
  announcing a known peer again does not refresh the time it was last seen.
\<close>

theorem add_peer_correct:
  assumes "pd_inv mk d"
  shows "(fst (add_peer mk p d) \<longleftrightarrow>
           peer_is_valid mk p \<and> length (pd_peers d) < bc_max_peers (pd_config d) \<and> \<not> has_peer p d)
    \<and> (if fst (add_peer mk p d) then set (pd_peers (snd (add_peer mk p d))) = insert p (set (pd_peers d))
       else snd (add_peer mk p d) = d)"
proof -
  obtain ins ps where o: "oset_insert p (pd_peers d) = (ins, ps)" by (cases "oset_insert p (pd_peers d)")
  have "ins \<longleftrightarrow> \<not> has_peer p d"
    using oset_insert_new [of "pd_peers d" p] assms o by (simp add: pd_inv_def has_peer_key)
  moreover have "\<not> ins \<Longrightarrow> ps = pd_peers d"
    using oset_insert_unchanged o by simp
  ultimately show ?thesis
    using oset_insert_set [OF o] by (cases ins) (auto simp: add_peer_def o Let_def)
qed

theorem add_peer_correct_witness:
  "pd_inv demo_parser (peer_discovery default_bootstrap_config)
   \<and> fst (add_peer demo_parser (peer_address 0 ''8.8.8.8'' 8333) (peer_discovery default_bootstrap_config))"
proof -
  have inv: "pd_inv demo_parser (peer_discovery default_bootstrap_config)"
    by (simp add: pd_inv_def peer_discovery_def)
  then show ?thesis
    using add_peer_correct [OF inv, of "peer_address 0 ''8.8.8.8'' 8333"]
    by (simp add: demo_parser_public has_peer_def peer_discovery_def default_bootstrap_config_def)
qed

subsection \<open>Discovery messages\<close>

lemma stoi_port: "stoi 10 (dec_string (unat (port :: u16))) = Inr (int (unat port))"
proof -
  have "unat port < 2 ^ 16" using unsigned_less [of port, where ?'a = nat] by simp
  then show ?thesis
    by (simp add: stoi_def dec_string_def c_strto_show_base digit_value_10)
qed

lemma handle_own_message:
  "handle_discovery_message mk now (discovery_message port) sender d = snd (add_peer mk (peer_address now sender port) d)"
  by (simp add: handle_discovery_message_def discovery_message_def comp_def stoi_port)

lemma private_not_valid: "is_private_ip mk ip \<Longrightarrow> \<not> peer_is_valid mk (peer_address now ip port)"
  by (auto simp: peer_is_valid_def is_valid_peer_address_def is_routable_ip_def peer_address_def split: option.splits)

text \<open>
  The broadcast and its handler agree: a node that receives the message another node broadcasts
  adds exactly the sender's address with the announced port. But a sender on a private network is
  never added, so the broadcast, which only reaches the local network, discovers no peer there.
\<close>

theorem discovery_message_handled:
  "handle_discovery_message mk now (discovery_message port) sender d = snd (add_peer mk (peer_address now sender port) d)
   \<and> (is_private_ip mk sender \<longrightarrow> handle_discovery_message mk now (discovery_message port) sender d = d)"
  by (simp add: handle_own_message private_not_valid add_peer_def)

theorem discovery_message_handled_witness:
  "is_private_ip demo_parser ''192.168.1.7''
   \<and> handle_discovery_message demo_parser 0 (discovery_message 8333) ''192.168.1.7'' (peer_discovery default_bootstrap_config)
       = peer_discovery default_bootstrap_config"
proof -
  have "is_private_ip demo_parser ''192.168.1.7''"
    by (simp add: is_private_ip_def demo_parser_def)
  then show ?thesis
    using discovery_message_handled [of demo_parser 0 8333 "''192.168.1.7''"] by blast
qed

end
