(* ===== verification/Crypto_Hash.thy ===== *)
theory Crypto_Hash
  imports Merkle
begin

text \<open>
  The crypto module's result type and hashing (modules/crypto: types.hpp, hash.cpp, keccak.cpp).
  The digests of OpenSSL are parameters: \<open>sha\<close> stands for the sequence \<open>SHA256_Init\<close>,
  \<open>SHA256_Update\<close>, \<open>SHA256_Final\<close> and \<open>rmd\<close> for the same of \<open>RIPEMD160\<close>, \<open>None\<close> when one of the
  calls does not return 1. Fixed-size arrays are byte lists; a copy of more bytes than the source
  array holds is undefined and has the value \<open>None\<close>. The overloads on pointers, vectors and strings
  hash the same bytes and are one definition.
\<close>

subsection \<open>Types\<close>

datatype CryptoError =
    SUCCESS | INVALID_KEY | INVALID_SIGNATURE | INVALID_MESSAGE | RANDOM_GENERATION_FAILED
  | HASH_FAILED | SIGNATURE_FAILED | VERIFICATION_FAILED | UNSUPPORTED_ALGORITHM | INVALID_LENGTH

record 'a CryptoResult =
  cr_value :: 'a
  cr_error :: CryptoError

definition crypto_result :: "'a \<Rightarrow> CryptoError \<Rightarrow> 'a CryptoResult" where
  "crypto_result v e = \<lparr> cr_value = v, cr_error = e \<rparr>"

definition cr_success :: "'a CryptoResult \<Rightarrow> bool" where
  "cr_success r = (cr_error r = SUCCESS)"

abbreviation HASH256_SIZE :: nat where "HASH256_SIZE \<equiv> 32"
abbreviation RIPEMD160_SIZE :: nat where "RIPEMD160_SIZE \<equiv> 20"

type_synonym digest = "byte_vector \<Rightarrow> byte_vector option"

abbreviation zero_bytes :: "nat \<Rightarrow> byte_vector" where
  "zero_bytes n \<equiv> replicate n 0"

text \<open>\<open>std::copy(src.begin(), src.begin() + n, ...)\<close> from an array.\<close>

definition copy_prefix :: "nat \<Rightarrow> byte_vector \<Rightarrow> byte_vector option" where
  "copy_prefix n src = (if n \<le> length src then Some (take n src) else None)"

subsection \<open>Hash\<close>

definition internal_sha256 :: "digest \<Rightarrow> byte_vector \<Rightarrow> byte_vector CryptoResult" where
  "internal_sha256 sha data =
     (case sha data of
        None \<Rightarrow> crypto_result (zero_bytes HASH256_SIZE) HASH_FAILED
      | Some h \<Rightarrow> crypto_result h SUCCESS)"

definition internal_keccak256 :: "digest \<Rightarrow> byte_vector \<Rightarrow> byte_vector CryptoResult" where
  "internal_keccak256 sha data = internal_sha256 sha data"

definition internal_ripemd160 :: "digest \<Rightarrow> byte_vector \<Rightarrow> byte_vector CryptoResult" where
  "internal_ripemd160 rmd data =
     (case rmd data of
        None \<Rightarrow> crypto_result (zero_bytes RIPEMD160_SIZE) HASH_FAILED
      | Some h \<Rightarrow> crypto_result h SUCCESS)"

definition sha256 :: "digest \<Rightarrow> byte_vector \<Rightarrow> byte_vector CryptoResult" where
  "sha256 sha data = internal_sha256 sha data"

definition crypto_keccak256 :: "digest \<Rightarrow> byte_vector \<Rightarrow> byte_vector CryptoResult" where
  "crypto_keccak256 sha data = internal_keccak256 sha data"

definition ripemd160 :: "digest \<Rightarrow> byte_vector \<Rightarrow> byte_vector CryptoResult" where
  "ripemd160 rmd data = internal_ripemd160 rmd data"

definition double_sha256 :: "digest \<Rightarrow> byte_vector \<Rightarrow> byte_vector CryptoResult" where
  "double_sha256 sha data =
     (let first_hash = internal_sha256 sha data in
      if \<not> cr_success first_hash then crypto_result (zero_bytes HASH256_SIZE) (cr_error first_hash)
      else internal_sha256 sha (cr_value first_hash))"

definition keccak256_ripemd160 :: "digest \<Rightarrow> digest \<Rightarrow> byte_vector \<Rightarrow> byte_vector CryptoResult" where
  "keccak256_ripemd160 sha rmd data =
     (let keccak_result = internal_keccak256 sha data in
      if \<not> cr_success keccak_result then crypto_result (zero_bytes RIPEMD160_SIZE) (cr_error keccak_result)
      else internal_ripemd160 rmd (cr_value keccak_result))"

definition hash_pair :: "digest \<Rightarrow> byte_vector \<Rightarrow> byte_vector \<Rightarrow> byte_vector CryptoResult" where
  "hash_pair sha left right = sha256 sha (left @ right)"

text \<open>One pass of the \<open>for\<close> loop; \<open>Inl\<close> is the early return of an error.\<close>

fun hash_level :: "digest \<Rightarrow> byte_vector list \<Rightarrow> CryptoError + byte_vector list" where
  "hash_level sha [] = Inr []"
| "hash_level sha [x] =
     (let r = hash_pair sha x x in if \<not> cr_success r then Inl (cr_error r) else Inr [cr_value r])"
| "hash_level sha (x # y # hs) =
     (let r = hash_pair sha x y in
      if \<not> cr_success r then Inl (cr_error r)
      else case hash_level sha hs of Inl e \<Rightarrow> Inl e | Inr next_level \<Rightarrow> Inr (cr_value r # next_level))"

lemma hash_level_length: "hash_level sha hs = Inr ls \<Longrightarrow> length ls = (length hs + 1) div 2"
  by (induction sha hs arbitrary: ls rule: hash_level.induct)
    (auto simp: Let_def split: if_splits sum.splits)

function hash_levels :: "digest \<Rightarrow> byte_vector list \<Rightarrow> CryptoError + byte_vector list" where
  "hash_levels sha hs =
     (if 1 < length hs then
        (case hash_level sha hs of Inl e \<Rightarrow> Inl e | Inr next_level \<Rightarrow> hash_levels sha next_level)
      else Inr hs)"
  by pat_completeness auto
termination
  by (relation "measure (length \<circ> snd)") (auto dest: hash_level_length)

declare hash_levels.simps [simp del]

definition hash_many :: "digest \<Rightarrow> byte_vector list \<Rightarrow> byte_vector CryptoResult" where
  "hash_many sha hs =
     (if hs = [] then crypto_result (zero_bytes HASH256_SIZE) SUCCESS
      else if length hs = 1 then crypto_result (hd hs) SUCCESS
      else case hash_levels sha hs of
        Inl e \<Rightarrow> crypto_result (zero_bytes HASH256_SIZE) e
      | Inr level \<Rightarrow> crypto_result (hd level) SUCCESS)"

definition to_hex :: "byte_vector \<Rightarrow> string" where
  "to_hex h = hex_bytes h"

definition isxdigit :: "char \<Rightarrow> bool" where
  "isxdigit c = (let n = (of_char c :: nat) in 48 \<le> n \<and> n \<le> 57 \<or> 65 \<le> n \<and> n \<le> 70 \<or> 97 \<le> n \<and> n \<le> 102)"

definition is_valid_hex_hash :: "string \<Rightarrow> nat \<Rightarrow> bool" where
  "is_valid_hex_hash hs expected_size =
     (if length hs \<noteq> expected_size * 2 then False else list_all isxdigit hs)"

definition crypto_from_hex :: "string \<Rightarrow> byte_vector CryptoResult throws" where
  "crypto_from_hex hs =
     (if \<not> is_valid_hex_hash hs HASH256_SIZE then Inr (crypto_result (zero_bytes HASH256_SIZE) INVALID_LENGTH)
      else bind_exn (parse_hex HASH256_SIZE hs) (\<lambda>bs. Inr (crypto_result bs SUCCESS)))"

subsection \<open>Keccak\<close>

definition internal_keccak :: "digest \<Rightarrow> byte_vector \<Rightarrow> nat \<Rightarrow> byte_vector CryptoResult option" where
  "internal_keccak sha data output_bits =
     (if output_bits = 256 then Some (sha256 sha data)
      else let r = sha256 sha data in
        if \<not> cr_success r then Some r
        else if output_bits < 256 then
          (let bytes_to_copy = (output_bits + 7) div 8 in
           case copy_prefix bytes_to_copy (cr_value r) of
             None \<Rightarrow> None
           | Some bs \<Rightarrow> Some (crypto_result (bs @ zero_bytes (HASH256_SIZE - bytes_to_copy)) SUCCESS))
        else Some r)"

definition keccak256 :: "digest \<Rightarrow> byte_vector \<Rightarrow> byte_vector CryptoResult option" where
  "keccak256 sha data = internal_keccak sha data 256"

text \<open>The body of \<open>keccak160\<close>, \<open>keccak384\<close> and \<open>keccak512\<close>, which differ in the size only.\<close>

definition keccak_sized :: "digest \<Rightarrow> nat \<Rightarrow> byte_vector \<Rightarrow> byte_vector CryptoResult option" where
  "keccak_sized sha n data =
     (case internal_keccak sha data (8 * n) of
        None \<Rightarrow> None
      | Some r \<Rightarrow> (case copy_prefix n (cr_value r) of
          None \<Rightarrow> None
        | Some output \<Rightarrow> Some (crypto_result output (cr_error r))))"

abbreviation keccak160 :: "digest \<Rightarrow> byte_vector \<Rightarrow> byte_vector CryptoResult option" where
  "keccak160 sha data \<equiv> keccak_sized sha 20 data"

abbreviation keccak384 :: "digest \<Rightarrow> byte_vector \<Rightarrow> byte_vector CryptoResult option" where
  "keccak384 sha data \<equiv> keccak_sized sha 48 data"

abbreviation keccak512 :: "digest \<Rightarrow> byte_vector \<Rightarrow> byte_vector CryptoResult option" where
  "keccak512 sha data \<equiv> keccak_sized sha 64 data"

definition ethereum_address_hash :: "digest \<Rightarrow> byte_vector \<Rightarrow> byte_vector CryptoResult option" where
  "ethereum_address_hash sha data =
     (case keccak256 sha data of
        None \<Rightarrow> None
      | Some r \<Rightarrow>
          if \<not> cr_success r then Some r
          else Some (crypto_result (drop 12 (cr_value r) @ zero_bytes 12) SUCCESS))"

definition string_bytes :: "string \<Rightarrow> byte_vector" where
  "string_bytes s = map (\<lambda>c. of_nat (of_char c)) s"

definition ethereum_signature_hash :: "digest \<Rightarrow> byte_vector \<Rightarrow> byte_vector CryptoResult option" where
  "ethereum_signature_hash sha data =
     keccak256 sha (0x19 # string_bytes ''Ethereum Signed Message:'' @ [0x0A]
       @ string_bytes (dec_string (length data)) @ data)"

subsection \<open>Streaming\<close>

record StreamHasher =
  sh_buffer :: byte_vector

definition stream_hasher :: StreamHasher where
  "stream_hasher = \<lparr> sh_buffer = [] \<rparr>"

definition sh_update :: "byte_vector \<Rightarrow> StreamHasher \<Rightarrow> StreamHasher" where
  "sh_update data s = s\<lparr>sh_buffer := sh_buffer s @ data\<rparr>"

definition sh_reset :: "StreamHasher \<Rightarrow> StreamHasher" where
  "sh_reset s = s\<lparr>sh_buffer := []\<rparr>"

definition finalize_256 :: "digest \<Rightarrow> StreamHasher \<Rightarrow> byte_vector CryptoResult option" where
  "finalize_256 sha s = keccak256 sha (sh_buffer s)"

text \<open>\<open>finalize_160\<close>, \<open>finalize_384\<close> and \<open>finalize_512\<close>, for 20, 48 and 64 bytes.\<close>

definition finalize_sized :: "digest \<Rightarrow> nat \<Rightarrow> StreamHasher \<Rightarrow> byte_vector CryptoResult option" where
  "finalize_sized sha n s = keccak_sized sha n (sh_buffer s)"

lemmas crypto_hash_defs = internal_sha256_def internal_keccak256_def internal_ripemd160_def sha256_def
  crypto_keccak256_def ripemd160_def crypto_result_def cr_success_def

subsection \<open>Merkle root\<close>

abbreviation sha_combine :: "digest \<Rightarrow> byte_vector \<Rightarrow> byte_vector \<Rightarrow> byte_vector" where
  "sha_combine sha \<equiv> \<lambda>l r. the (sha (l @ r))"

lemma hash_pair_success: "cr_success (hash_pair sha l r) \<longleftrightarrow> sha (l @ r) \<noteq> None"
  by (simp add: hash_pair_def crypto_hash_defs split: option.split)

lemma hash_pair_value: "sha (l @ r) \<noteq> None \<Longrightarrow> cr_value (hash_pair sha l r) = sha_combine sha l r"
  by (auto simp: hash_pair_def crypto_hash_defs)

lemma hash_pair_error: "sha (l @ r) = None \<Longrightarrow> cr_error (hash_pair sha l r) = HASH_FAILED"
  by (simp add: hash_pair_def crypto_hash_defs)

lemma hash_level_cases:
  "(\<exists>d. sha d = None) \<and> hash_level sha hs = Inl HASH_FAILED \<or> hash_level sha hs = Inr (merkle_level (sha_combine sha) hs)"
proof (induction hs rule: merkle_level.induct [of "\<lambda>_. _" "sha_combine sha"])
  case (2 combine x)
  then show ?case
    by (cases "sha (x @ x)") (auto simp: Let_def hash_pair_success hash_pair_value hash_pair_error)
next
  case (3 combine x y hs)
  then show ?case
    by (cases "sha (x @ y)") (auto simp: Let_def hash_pair_success hash_pair_value hash_pair_error)
qed simp

lemma hash_levels_cases:
  "(\<exists>d. sha d = None) \<and> hash_levels sha hs = Inl HASH_FAILED \<or> hash_levels sha hs = Inr (merkle_loop (sha_combine sha) hs)"
proof (induction sha hs rule: hash_levels.induct)
  case (1 sha hs)
  show ?case
  proof (cases "1 < length hs \<and> hash_level sha hs = Inr (merkle_level (sha_combine sha) hs)")
    case True
    then show ?thesis
      using 1 [of "merkle_level (sha_combine sha) hs"]
      by (simp add: hash_levels.simps [of sha hs] merkle_loop.simps [of _ hs])
  next
    case False
    then show ?thesis
      using hash_level_cases [of sha hs]
      by (auto simp: hash_levels.simps [of sha hs] merkle_loop.simps [of _ hs])
  qed
qed

text \<open>
  C30. \<open>Hash::hash_many\<close> computes the root of the reference tree over its arguments, with SHA-256 of the
  concatenation as combining function, and the zero hash for no argument. It fails only when the digest
  fails on some input, then with \<open>HASH_FAILED\<close> and the zero hash.
\<close>

theorem hash_many_is_tree:
  "hash_many sha hs = crypto_result
      (if hs = [] then zero_bytes HASH256_SIZE
       else merkle_tree (\<lambda>l r. the (sha (l @ r))) (merkle_height (length hs)) hs) SUCCESS
   \<or> (\<exists>d. sha d = None) \<and> hash_many sha hs = crypto_result (zero_bytes HASH256_SIZE) HASH_FAILED"
proof (cases "1 < length hs")
  case True
  then have "hs \<noteq> []" by auto
  then show ?thesis
    using hash_levels_cases [of sha hs] True merkle_loop_is_tree [of hs "sha_combine sha"]
    by (auto simp: hash_many_def)
next
  case False
  then show ?thesis
    by (cases hs) (simp_all add: hash_many_def merkle_height.simps)
qed

subsection \<open>Keccak\<close>

lemma keccak_is_sha:
  assumes "\<And>d h. sha d = Some h \<Longrightarrow> length h = 32"
  shows "keccak256 sha d = Some (sha256 sha d)"
    and "keccak160 sha d = Some (crypto_result (take 20 (cr_value (sha256 sha d))) (cr_error (sha256 sha d)))"
    and "keccak384 sha d = None"
    and "keccak512 sha d = None"
proof -
  have "length (cr_value (sha256 sha d)) = 32"
    using assms by (auto simp: crypto_hash_defs split: option.split)
  then show "keccak256 sha d = Some (sha256 sha d)"
    "keccak160 sha d = Some (crypto_result (take 20 (cr_value (sha256 sha d))) (cr_error (sha256 sha d)))"
    "keccak384 sha d = None" "keccak512 sha d = None"
    by (auto simp: keccak256_def keccak_sized_def internal_keccak_def
        copy_prefix_def Let_def crypto_result_def cr_success_def)
qed

lemma fold_sh_update: "sh_buffer (fold sh_update chunks s) = sh_buffer s @ concat chunks"
  by (induction chunks arbitrary: s) (simp_all add: sh_update_def)

text \<open>
  With a digest of 32 bytes: hashing in pieces gives the digest of the whole, whatever the pieces;
  but what the module calls Keccak-256 is SHA-256, and the 384- and 512-bit variants copy more bytes
  than the 32 the digest has, which is undefined.
\<close>

theorem keccak_stream:
  assumes "\<And>d h. sha d = Some h \<Longrightarrow> length h = 32"
  shows "finalize_256 sha (fold sh_update chunks stream_hasher) = Some (sha256 sha (concat chunks))
    \<and> finalize_sized sha 20 (fold sh_update chunks stream_hasher) = keccak160 sha (concat chunks)
    \<and> finalize_sized sha 48 (fold sh_update chunks stream_hasher) = None
    \<and> finalize_sized sha 64 (fold sh_update chunks stream_hasher) = None"
  using keccak_is_sha [OF assms]
  by (simp add: finalize_256_def finalize_sized_def fold_sh_update stream_hasher_def)

theorem keccak_stream_witness:
  "finalize_256 (\<lambda>d. Some (take 32 (d @ zero_bytes 32))) (fold sh_update [[1], [2, 3]] stream_hasher)
     = Some (crypto_result ([1, 2, 3] @ zero_bytes 29) SUCCESS)"
  using keccak_stream [of "\<lambda>d. Some (take 32 (d @ zero_bytes 32))" "[[1], [2, 3]]"]
  by (simp add: crypto_hash_defs)

subsection \<open>Hexadecimal\<close>

lemma isxdigit_value: "isxdigit c \<Longrightarrow> \<exists>d<16. digit_value 16 c = Some d"
  by (auto simp: isxdigit_def digit_value_def Let_def)

lemma isxdigit_plain:
  "isxdigit c \<Longrightarrow> \<not> is_space c \<and> c \<noteq> CHR ''-'' \<and> c \<noteq> CHR ''+'' \<and> c \<noteq> CHR ''x'' \<and> c \<noteq> CHR ''X''"
  by (auto simp: isxdigit_def is_space_def Let_def)

lemma hex_pair_xdigits:
  assumes "isxdigit a" "isxdigit b"
  shows "\<exists>v. hex_pair [a, b] = Inr v"
proof -
  obtain x y where d: "digit_value 16 a = Some x" "x < 16" "digit_value 16 b = Some y" "y < 16"
    using isxdigit_value assms by blast
  have "c_strto 16 [a, b] = Some (False, x * 16 + y)"
    using isxdigit_plain [OF assms(1)] isxdigit_plain [OF assms(2)] d
    by (simp add: c_strto_def scan_sign_def starts_digit_def)
  moreover have "x * 16 + y < 256" using d by simp
  ultimately show ?thesis by (simp add: hex_pair_def stoi_def)
qed

lemma parse_hex_xdigits:
  assumes "list_all isxdigit s" "length s = 2 * n"
  shows "\<exists>bs. parse_hex n s = Inr bs"
proof -
  have "\<exists>v. hex_pair (take 2 (drop (i * 2) s)) = Inr v" if "i < n" for i
  proof -
    have "i * 2 + 1 < length s" using that assms(2) by simp
    then have "take 2 (drop (i * 2) s) = [s ! (i * 2), s ! (i * 2 + 1)]"
      by (simp add: numeral_2_eq_2 take_Suc_conv_app_nth hd_drop_conv_nth)
    then show ?thesis
      using hex_pair_xdigits [of "s ! (i * 2)" "s ! (i * 2 + 1)"] assms(1) \<open>i * 2 + 1 < length s\<close>
      by (simp add: list_all_length)
  qed
  then obtain f where "\<And>i. i < n \<Longrightarrow> hex_pair (take 2 (drop (i * 2) s)) = Inr (f i)" by metis
  then have "parse_hex n s = Inr (map f [0..<n])"
    unfolding parse_hex_def by (intro mapM_exn_Inr) simp
  then show ?thesis by blast
qed

text \<open>\<open>Hash::from_hex\<close> checks its digits and never throws, unlike the other parsers of the module.\<close>

lemma crypto_from_hex_total: "\<exists>r. crypto_from_hex hs = Inr r"
  using parse_hex_xdigits [of hs 32]
  by (auto simp: crypto_from_hex_def is_valid_hex_hash_def mult.commute)

end
