(* ===== verification/Crypto_Keys.thy ===== *)
theory Crypto_Keys
  imports Crypto_Hash
begin

text \<open>
  Random bytes and keys (modules/crypto: random.cpp, keypair.cpp, with the hex texts of
  signature.cpp). OpenSSL, libsecp256k1 and libsodium are parameters of the definitions
  that call them; a failing allocation or context is part of the failing call that needs it, because
  the code answers both alike. \<open>dev n\<close> is what the random device yields for \<open>n\<close> bytes, \<open>None\<close> when
  it throws. An array that is declared without initializer has indeterminate bytes, the argument \<open>junk\<close>.
\<close>

text \<open>The array types of keys and signatures, and their sizes.\<close>

datatype crypto_array = Secp256k1PrivateKey | Secp256k1PublicKey | Secp256k1CompressedPublicKey | Secp256k1Signature
  | Ed25519PrivateKey | Ed25519PublicKey | Ed25519Signature | BlsPrivateKey | BlsPublicKey | BlsSignature

primrec array_size :: "crypto_array \<Rightarrow> nat" where
  "array_size Secp256k1PrivateKey = 32"
| "array_size Secp256k1PublicKey = 64"
| "array_size Secp256k1CompressedPublicKey = 33"
| "array_size Secp256k1Signature = 64"
| "array_size Ed25519PrivateKey = 32"
| "array_size Ed25519PublicKey = 32"
| "array_size Ed25519Signature = 64"
| "array_size BlsPrivateKey = 32"
| "array_size BlsPublicKey = 48"
| "array_size BlsSignature = 96"

abbreviation SECP256K1_PRIVATE_KEY_SIZE :: nat where "SECP256K1_PRIVATE_KEY_SIZE \<equiv> array_size Secp256k1PrivateKey"
abbreviation SECP256K1_PUBLIC_KEY_SIZE :: nat where "SECP256K1_PUBLIC_KEY_SIZE \<equiv> array_size Secp256k1PublicKey"
abbreviation SECP256K1_COMPRESSED_PUBLIC_KEY_SIZE :: nat where "SECP256K1_COMPRESSED_PUBLIC_KEY_SIZE \<equiv> array_size Secp256k1CompressedPublicKey"
abbreviation SECP256K1_SIGNATURE_SIZE :: nat where "SECP256K1_SIGNATURE_SIZE \<equiv> array_size Secp256k1Signature"
abbreviation ED25519_PRIVATE_KEY_SIZE :: nat where "ED25519_PRIVATE_KEY_SIZE \<equiv> array_size Ed25519PrivateKey"
abbreviation ED25519_PUBLIC_KEY_SIZE :: nat where "ED25519_PUBLIC_KEY_SIZE \<equiv> array_size Ed25519PublicKey"
abbreviation ED25519_SIGNATURE_SIZE :: nat where "ED25519_SIGNATURE_SIZE \<equiv> array_size Ed25519Signature"
abbreviation BLS_PRIVATE_KEY_SIZE :: nat where "BLS_PRIVATE_KEY_SIZE \<equiv> array_size BlsPrivateKey"
abbreviation BLS_PUBLIC_KEY_SIZE :: nat where "BLS_PUBLIC_KEY_SIZE \<equiv> array_size BlsPublicKey"
abbreviation BLS_SIGNATURE_SIZE :: nat where "BLS_SIGNATURE_SIZE \<equiv> array_size BlsSignature"

declare array_size.simps [simp del]

lemmas key_sizes = array_size.simps

text \<open>\<open>std::copy(src.begin(), src.begin() + std::min(src.size(), n), dst.begin())\<close> into a zeroed array.\<close>

definition padded_copy :: "nat \<Rightarrow> byte_vector \<Rightarrow> byte_vector" where
  "padded_copy n src = take n src @ zero_bytes (n - length src)"

subsection \<open>Random\<close>

type_synonym device = "nat \<Rightarrow> byte_vector option"

definition fill_bytes :: "device \<Rightarrow> nat \<Rightarrow> byte_vector CryptoResult" where
  "fill_bytes dev len =
     (if len = 0 then crypto_result [] INVALID_LENGTH
      else case dev len of
        None \<Rightarrow> crypto_result [] RANDOM_GENERATION_FAILED
      | Some bs \<Rightarrow> crypto_result bs SUCCESS)"

definition generate_bytes :: "device \<Rightarrow> nat \<Rightarrow> byte_vector CryptoResult" where
  "generate_bytes dev len =
     (if len = 0 then crypto_result [] INVALID_LENGTH
      else let r = fill_bytes dev len in
        if \<not> cr_success r then crypto_result [] (cr_error r) else crypto_result (cr_value r) SUCCESS)"

text \<open>The generators of fixed-size values share one body; \<open>n\<close> is the size of the value.\<close>

definition generate_array :: "device \<Rightarrow> nat \<Rightarrow> byte_vector CryptoResult" where
  "generate_array dev n =
     (let r = fill_bytes dev n in
      if \<not> cr_success r then crypto_result (zero_bytes n) (cr_error r) else crypto_result (cr_value r) SUCCESS)"

definition generate_uint64_range :: "(u64 \<Rightarrow> u64 \<Rightarrow> u64 option) \<Rightarrow> u64 \<Rightarrow> u64 \<Rightarrow> u64 CryptoResult" where
  "generate_uint64_range draw lo hi =
     (if hi \<le> lo then crypto_result 0 INVALID_LENGTH
      else case draw lo hi of
        None \<Rightarrow> crypto_result 0 RANDOM_GENERATION_FAILED
      | Some v \<Rightarrow> crypto_result v SUCCESS)"

definition generate_uint32_range :: "(u32 \<Rightarrow> u32 \<Rightarrow> u32 option) \<Rightarrow> u32 \<Rightarrow> u32 \<Rightarrow> u32 CryptoResult" where
  "generate_uint32_range draw lo hi =
     (if hi \<le> lo then crypto_result 0 INVALID_LENGTH
      else case draw lo hi of
        None \<Rightarrow> crypto_result 0 RANDOM_GENERATION_FAILED
      | Some v \<Rightarrow> crypto_result v SUCCESS)"

subsection \<open>Key pairs\<close>

record Secp256k1KeyPair =
  kp_private_key :: byte_vector
  kp_public_key :: byte_vector
  kp_compressed_public_key :: byte_vector

record Ed25519KeyPair =
  ed_private_key :: byte_vector
  ed_public_key :: byte_vector

record BlsKeyPair =
  bls_private_key :: byte_vector
  bls_public_key :: byte_vector

text \<open>
  What the key functions use of OpenSSL: \<open>ec_set\<close> makes an \<open>EC_KEY\<close> from the bytes of a private key,
  \<open>ec_gen\<close> is \<open>EC_KEY_generate_key\<close>, \<open>oct k n\<close> the bytes \<open>EC_POINT_point2oct\<close> writes for the
  uncompressed public key into a buffer of \<open>n\<close> bytes (none when it returns 0). Of libsecp256k1:
  \<open>parse\<close> and \<open>ser compressed n\<close>, the serialization into a buffer of \<open>n\<close> bytes.
\<close>

definition internal_derive_secp256k1_public_key ::
  "(byte_vector \<Rightarrow> 'k option) \<Rightarrow> ('k \<Rightarrow> 'k option) \<Rightarrow> ('k \<Rightarrow> nat \<Rightarrow> byte_vector) \<Rightarrow> byte_vector \<Rightarrow>
   byte_vector CryptoResult" where
  "internal_derive_secp256k1_public_key ec_set ec_gen oct private_key =
     (let failed = crypto_result (zero_bytes SECP256K1_PUBLIC_KEY_SIZE) INVALID_KEY in
      case ec_set private_key of
        None \<Rightarrow> failed
      | Some ec_key \<Rightarrow> (case ec_gen ec_key of
          None \<Rightarrow> failed
        | Some ec_key \<Rightarrow>
            let public_key = oct ec_key SECP256K1_PUBLIC_KEY_SIZE in
            if length public_key \<noteq> SECP256K1_PUBLIC_KEY_SIZE then failed
            else crypto_result public_key SUCCESS))"

definition compress_secp256k1_public_key ::
  "(byte_vector \<Rightarrow> 'p option) \<Rightarrow> (bool \<Rightarrow> nat \<Rightarrow> 'p \<Rightarrow> byte_vector option) \<Rightarrow> byte_vector \<Rightarrow> byte_vector CryptoResult" where
  "compress_secp256k1_public_key parse ser public_key =
     (let failed = crypto_result (zero_bytes SECP256K1_COMPRESSED_PUBLIC_KEY_SIZE) INVALID_KEY in
      case parse public_key of
        None \<Rightarrow> failed
      | Some pubkey \<Rightarrow> (case ser True SECP256K1_COMPRESSED_PUBLIC_KEY_SIZE pubkey of
          None \<Rightarrow> failed
        | Some compressed \<Rightarrow> crypto_result compressed SUCCESS))"

definition decompress_secp256k1_public_key ::
  "(byte_vector \<Rightarrow> 'p option) \<Rightarrow> (bool \<Rightarrow> nat \<Rightarrow> 'p \<Rightarrow> byte_vector option) \<Rightarrow> byte_vector \<Rightarrow> byte_vector CryptoResult" where
  "decompress_secp256k1_public_key parse ser compressed_key =
     (let failed = crypto_result (zero_bytes SECP256K1_PUBLIC_KEY_SIZE) INVALID_KEY in
      case parse compressed_key of
        None \<Rightarrow> failed
      | Some pubkey \<Rightarrow> (case ser False SECP256K1_PUBLIC_KEY_SIZE pubkey of
          None \<Rightarrow> failed
        | Some uncompressed \<Rightarrow> crypto_result uncompressed SUCCESS))"

definition derive_secp256k1_public_key ::
  "(byte_vector \<Rightarrow> 'k option) \<Rightarrow> ('k \<Rightarrow> 'k option) \<Rightarrow> ('k \<Rightarrow> nat \<Rightarrow> byte_vector) \<Rightarrow> byte_vector \<Rightarrow>
   byte_vector CryptoResult" where
  "derive_secp256k1_public_key ec_set ec_gen oct private_key =
     internal_derive_secp256k1_public_key ec_set ec_gen oct private_key"

definition empty_secp256k1_keypair :: Secp256k1KeyPair where
  "empty_secp256k1_keypair = \<lparr> kp_private_key = zero_bytes SECP256K1_PRIVATE_KEY_SIZE,
     kp_public_key = zero_bytes SECP256K1_PUBLIC_KEY_SIZE,
     kp_compressed_public_key = zero_bytes SECP256K1_COMPRESSED_PUBLIC_KEY_SIZE \<rparr>"

definition from_secp256k1_private_key ::
  "(byte_vector \<Rightarrow> 'k option) \<Rightarrow> ('k \<Rightarrow> 'k option) \<Rightarrow> ('k \<Rightarrow> nat \<Rightarrow> byte_vector) \<Rightarrow>
   (byte_vector \<Rightarrow> 'p option) \<Rightarrow> (bool \<Rightarrow> nat \<Rightarrow> 'p \<Rightarrow> byte_vector option) \<Rightarrow>
   byte_vector \<Rightarrow> Secp256k1KeyPair CryptoResult" where
  "from_secp256k1_private_key ec_set ec_gen oct parse ser private_key =
     (let pub = derive_secp256k1_public_key ec_set ec_gen oct private_key in
      if \<not> cr_success pub then crypto_result empty_secp256k1_keypair (cr_error pub)
      else let comp = compress_secp256k1_public_key parse ser (cr_value pub) in
        if \<not> cr_success comp then crypto_result empty_secp256k1_keypair (cr_error comp)
        else crypto_result \<lparr> kp_private_key = private_key, kp_public_key = cr_value pub,
               kp_compressed_public_key = cr_value comp \<rparr> SUCCESS)"

definition generate_secp256k1 ::
  "device \<Rightarrow> (byte_vector \<Rightarrow> 'k option) \<Rightarrow> ('k \<Rightarrow> 'k option) \<Rightarrow> ('k \<Rightarrow> nat \<Rightarrow> byte_vector) \<Rightarrow>
   (byte_vector \<Rightarrow> 'p option) \<Rightarrow> (bool \<Rightarrow> nat \<Rightarrow> 'p \<Rightarrow> byte_vector option) \<Rightarrow> Secp256k1KeyPair CryptoResult" where
  "generate_secp256k1 dev ec_set ec_gen oct parse ser =
     (let priv = generate_array dev SECP256K1_PRIVATE_KEY_SIZE in
      if \<not> cr_success priv then crypto_result empty_secp256k1_keypair (cr_error priv)
      else from_secp256k1_private_key ec_set ec_gen oct parse ser (cr_value priv))"

definition is_valid_secp256k1_public_key :: "(byte_vector \<Rightarrow> 'p option) \<Rightarrow> byte_vector \<Rightarrow> bool" where
  "is_valid_secp256k1_public_key parse public_key = (parse public_key \<noteq> None)"

text \<open>For Ed25519, \<open>init\<close> is \<open>sodium_init() != -1\<close> and \<open>sk_to_pk\<close> the derivation of libsodium.\<close>

definition derive_ed25519_public_key ::
  "bool \<Rightarrow> (byte_vector \<Rightarrow> byte_vector) \<Rightarrow> byte_vector \<Rightarrow> byte_vector CryptoResult" where
  "derive_ed25519_public_key init sk_to_pk private_key =
     (if \<not> init then crypto_result (zero_bytes ED25519_PUBLIC_KEY_SIZE) INVALID_KEY
      else crypto_result (sk_to_pk private_key) SUCCESS)"

definition from_ed25519_private_key ::
  "bool \<Rightarrow> (byte_vector \<Rightarrow> byte_vector) \<Rightarrow> byte_vector \<Rightarrow> Ed25519KeyPair CryptoResult" where
  "from_ed25519_private_key init sk_to_pk private_key =
     (let pub = derive_ed25519_public_key init sk_to_pk private_key in
      if \<not> cr_success pub
      then crypto_result \<lparr> ed_private_key = zero_bytes ED25519_PRIVATE_KEY_SIZE,
             ed_public_key = zero_bytes ED25519_PUBLIC_KEY_SIZE \<rparr> (cr_error pub)
      else crypto_result \<lparr> ed_private_key = private_key, ed_public_key = cr_value pub \<rparr> SUCCESS)"

definition generate_ed25519 ::
  "device \<Rightarrow> bool \<Rightarrow> (byte_vector \<Rightarrow> byte_vector) \<Rightarrow> Ed25519KeyPair CryptoResult" where
  "generate_ed25519 dev init sk_to_pk =
     (let priv = generate_array dev ED25519_PRIVATE_KEY_SIZE in
      if \<not> cr_success priv
      then crypto_result \<lparr> ed_private_key = zero_bytes ED25519_PRIVATE_KEY_SIZE,
             ed_public_key = zero_bytes ED25519_PUBLIC_KEY_SIZE \<rparr> (cr_error priv)
      else from_ed25519_private_key init sk_to_pk (cr_value priv))"

definition derive_bls_public_key :: "byte_vector \<Rightarrow> byte_vector CryptoResult" where
  "derive_bls_public_key private_key = crypto_result (padded_copy BLS_PUBLIC_KEY_SIZE private_key) SUCCESS"

definition from_bls_private_key :: "byte_vector \<Rightarrow> BlsKeyPair CryptoResult" where
  "from_bls_private_key private_key =
     (let pub = derive_bls_public_key private_key in
      if \<not> cr_success pub
      then crypto_result \<lparr> bls_private_key = zero_bytes BLS_PRIVATE_KEY_SIZE,
             bls_public_key = zero_bytes BLS_PUBLIC_KEY_SIZE \<rparr> (cr_error pub)
      else crypto_result \<lparr> bls_private_key = private_key, bls_public_key = cr_value pub \<rparr> SUCCESS)"

definition generate_bls :: "device \<Rightarrow> BlsKeyPair CryptoResult" where
  "generate_bls dev =
     (let priv = generate_array dev BLS_PRIVATE_KEY_SIZE in
      if \<not> cr_success priv
      then crypto_result \<lparr> bls_private_key = zero_bytes BLS_PRIVATE_KEY_SIZE,
             bls_public_key = zero_bytes BLS_PUBLIC_KEY_SIZE \<rparr> (cr_error priv)
      else from_bls_private_key (cr_value priv))"

definition derive_ethereum_address :: "digest \<Rightarrow> byte_vector \<Rightarrow> byte_vector CryptoResult" where
  "derive_ethereum_address sha public_key =
     (let r = crypto_keccak256 sha public_key in
      if \<not> cr_success r then crypto_result (zero_bytes HASH256_SIZE) (cr_error r)
      else crypto_result (padded_copy HASH256_SIZE (drop 12 (cr_value r))) SUCCESS)"

definition derive_bitcoin_address ::
  "digest \<Rightarrow> digest \<Rightarrow> (byte_vector \<Rightarrow> 'p option) \<Rightarrow> (bool \<Rightarrow> nat \<Rightarrow> 'p \<Rightarrow> byte_vector option) \<Rightarrow> byte_vector \<Rightarrow>
   byte_vector CryptoResult" where
  "derive_bitcoin_address sha rmd parse ser public_key =
     (let comp = compress_secp256k1_public_key parse ser public_key in
      if \<not> cr_success comp then crypto_result (zero_bytes HASH256_SIZE) (cr_error comp)
      else let r = keccak256_ripemd160 sha rmd (cr_value comp) in
        if \<not> cr_success r then crypto_result (zero_bytes HASH256_SIZE) (cr_error r)
        else crypto_result (padded_copy HASH256_SIZE (cr_value r)) SUCCESS)"

subsection \<open>Hexadecimal form of keys\<close>

text \<open>
  Each of the seven kinds of keys has a conversion to and from hexadecimal; the bodies differ only in the
  size \<open>n\<close> of the array. \<open>std::stoi\<close> throws on a pair that is not a number.
\<close>

definition key_to_hex :: "byte_vector \<Rightarrow> string" where
  "key_to_hex key = hex_bytes key"

definition array_from_hex :: "nat \<Rightarrow> string \<Rightarrow> byte_vector CryptoResult throws" where
  "array_from_hex n hs =
     (if length hs \<noteq> n * 2 then Inr (crypto_result (zero_bytes n) INVALID_LENGTH)
      else bind_exn (parse_hex n hs) (\<lambda>bs. Inr (crypto_result bs SUCCESS)))"

lemma array_hex_round_trip: "length k = n \<Longrightarrow> array_from_hex n (key_to_hex k) = Inr (crypto_result k SUCCESS)"
  using parse_hex_hex_bytes [of k] by (auto simp: array_from_hex_def key_to_hex_def)

lemma stoi_zz: "hex_pair ''zz'' = Inl (Invalid_argument ''stoi'')"
  by (simp add: hex_pair_def stoi_def c_strto_def scan_sign_def is_space_def starts_digit_def digit_value_def)

text \<open>Unlike \<open>Hash::from_hex\<close>, these let the exception of \<open>std::stoi\<close> escape.\<close>

lemma array_from_hex_throws:
  "0 < n \<Longrightarrow> array_from_hex n (replicate (2 * n) CHR ''z'') = Inl (Invalid_argument ''stoi'')"
proof (cases n)
  case (Suc m)
  have "take 2 (replicate (2 * n) CHR ''z'') = ''zz''"
    using Suc by (simp add: numeral_2_eq_2)
  then have "parse_hex n (replicate (2 * n) CHR ''z'') = Inl (Invalid_argument ''stoi'')"
    using Suc by (simp add: parse_hex_def stoi_zz upt_rec)
  then show ?thesis by (simp add: array_from_hex_def)
qed simp

subsection \<open>secp256k1 keys never work\<close>

text \<open>
  The public key array has 64 bytes, but the encodings of a curve point have 33 or 65. With what
  the libraries document (\<open>EC_POINT_point2oct\<close> writes 65 bytes or, into a smaller buffer, nothing;
  \<open>secp256k1_ec_pubkey_parse\<close> accepts 33 or 65 bytes only), no secp256k1 key pair is ever made, no
  public key of the declared size is valid, none can be compressed, and no Bitcoin address derived.
\<close>

theorem secp256k1_keys_never:
  assumes point2oct: "\<And>k n. length (oct k n) = (if 65 \<le> n then 65 else 0)"
    and pubkey_parse: "\<And>bs. parse bs \<noteq> None \<Longrightarrow> length bs = 33 \<or> length bs = 65"
    and size: "length public_key = SECP256K1_PUBLIC_KEY_SIZE"
  shows "cr_error (from_secp256k1_private_key ec_set ec_gen oct parse ser private_key) = INVALID_KEY
    \<and> cr_error (generate_secp256k1 dev ec_set ec_gen oct parse ser) \<noteq> SUCCESS
    \<and> \<not> is_valid_secp256k1_public_key parse public_key
    \<and> cr_error (compress_secp256k1_public_key parse ser public_key) = INVALID_KEY
    \<and> cr_error (derive_bitcoin_address sha rmd parse ser public_key) = INVALID_KEY"
proof -
  have derive: "cr_error (derive_secp256k1_public_key ec_set ec_gen oct k) = INVALID_KEY" for k
    using point2oct
    by (simp add: derive_secp256k1_public_key_def internal_derive_secp256k1_public_key_def key_sizes
        crypto_result_def Let_def split: option.split)
  then have from_private: "cr_error (from_secp256k1_private_key ec_set ec_gen oct parse ser k) = INVALID_KEY" for k
    by (simp add: from_secp256k1_private_key_def Let_def cr_success_def crypto_result_def)
  moreover have parse: "parse public_key = None"
    using pubkey_parse [of public_key] size by (cases "parse public_key") (simp_all add: key_sizes)
  moreover have "cr_error (generate_secp256k1 dev ec_set ec_gen oct parse ser) \<noteq> SUCCESS"
    using from_private by (simp add: generate_secp256k1_def Let_def cr_success_def crypto_result_def)
  ultimately show ?thesis
    by (simp add: is_valid_secp256k1_public_key_def compress_secp256k1_public_key_def derive_bitcoin_address_def
        Let_def cr_success_def crypto_result_def)
qed

theorem secp256k1_keys_never_witness:
  "cr_error (generate_secp256k1 (\<lambda>n. Some (replicate n 7)) (\<lambda>bs. Some bs) Some
     (\<lambda>k n. if 65 \<le> n then replicate 65 4 else [])
     (\<lambda>bs. if length bs = 33 \<or> length bs = 65 then Some bs else None) (\<lambda>c n p. Some (take n p))) \<noteq> SUCCESS"
proof -
  let ?oct = "\<lambda>(k :: byte_vector) n. if 65 \<le> n then replicate 65 (4 :: u8) else []"
  let ?parse = "\<lambda>bs :: byte_vector. if length bs = 33 \<or> length bs = 65 then Some bs else None"
  have oct: "\<And>k n. length (?oct k n) = (if 65 \<le> n then 65 else 0)" by simp
  have parse: "\<And>bs. ?parse bs \<noteq> None \<Longrightarrow> length bs = 33 \<or> length bs = 65" by (simp split: if_splits)
  have size: "length (zero_bytes 64) = SECP256K1_PUBLIC_KEY_SIZE" by (simp add: key_sizes)
  show ?thesis
    using secp256k1_keys_never [of ?oct ?parse, OF oct parse size] by blast
qed

end
