(* ===== verification/Crypto_Signature.thy ===== *)
theory Crypto_Signature
  imports Crypto_Keys
begin

text \<open>
  Signatures and curve operations (modules/crypto: signature.cpp, curve.cpp). \<open>ec_set\<close>, \<open>ecdsa_sign\<close>,
  \<open>i2d\<close>, \<open>o2i\<close>, \<open>d2i\<close> and \<open>ecdsa_verify\<close> stand for the functions of OpenSSL, \<open>init\<close>, \<open>ed_sign\<close> and
  \<open>ed_verify\<close> for those of libsodium; \<open>ed_sign\<close> is \<open>None\<close> when it reads outside the key it is given.
\<close>

subsection \<open>ECDSA\<close>

definition ecdsa_secp256k1_sign ::
  "(byte_vector \<Rightarrow> byte_vector) \<Rightarrow> (byte_vector \<Rightarrow> 'k option) \<Rightarrow> (byte_vector \<Rightarrow> 'k \<Rightarrow> 's option) \<Rightarrow>
   ('s \<Rightarrow> byte_vector) \<Rightarrow> byte_vector \<Rightarrow> byte_vector \<Rightarrow> byte_vector \<Rightarrow> byte_vector CryptoResult" where
  "ecdsa_secp256k1_sign sha ec_set ecdsa_sign i2d junk message private_key =
     (let hash = sha message; failed = crypto_result (zero_bytes SECP256K1_SIGNATURE_SIZE) SIGNATURE_FAILED in
      case ec_set private_key of
        None \<Rightarrow> failed
      | Some ec_key \<Rightarrow> (case ecdsa_sign hash ec_key of
          None \<Rightarrow> failed
        | Some sig \<Rightarrow>
            let der = i2d sig in
            if length der = 0 \<or> SECP256K1_SIGNATURE_SIZE < length der then failed
            else crypto_result (der @ drop (length der) junk) SUCCESS))"

definition ecdsa_secp256k1_verify ::
  "(byte_vector \<Rightarrow> byte_vector) \<Rightarrow> (byte_vector \<Rightarrow> 'k option) \<Rightarrow> (byte_vector \<Rightarrow> 's option) \<Rightarrow>
   (byte_vector \<Rightarrow> 's \<Rightarrow> 'k \<Rightarrow> int) \<Rightarrow> byte_vector \<Rightarrow> byte_vector \<Rightarrow> byte_vector \<Rightarrow> bool CryptoResult" where
  "ecdsa_secp256k1_verify sha o2i d2i ecdsa_verify message signature public_key =
     (let hash = sha message in
      case o2i public_key of
        None \<Rightarrow> crypto_result False INVALID_KEY
      | Some ec_key \<Rightarrow> (case d2i signature of
          None \<Rightarrow> crypto_result False INVALID_SIGNATURE
        | Some sig \<Rightarrow> crypto_result (ecdsa_verify hash sig ec_key = 1) SUCCESS))"

definition ecdsa_secp256k1_recover_public_key ::
  "byte_vector \<Rightarrow> byte_vector \<Rightarrow> bool \<Rightarrow> byte_vector CryptoResult" where
  "ecdsa_secp256k1_recover_public_key message signature compressed =
     crypto_result (zero_bytes SECP256K1_PUBLIC_KEY_SIZE) UNSUPPORTED_ALGORITHM"

definition ecdsa_get_recovery_id :: "byte_vector \<Rightarrow> byte_vector \<Rightarrow> byte_vector \<Rightarrow> u8 CryptoResult" where
  "ecdsa_get_recovery_id message signature public_key = crypto_result 0 UNSUPPORTED_ALGORITHM"

subsection \<open>Ed25519\<close>

definition ed25519_sign ::
  "bool \<Rightarrow> (byte_vector \<Rightarrow> byte_vector \<Rightarrow> byte_vector option) \<Rightarrow> byte_vector \<Rightarrow> byte_vector \<Rightarrow>
   byte_vector CryptoResult option" where
  "ed25519_sign init ed_sign message private_key =
     (if \<not> init then Some (crypto_result (zero_bytes ED25519_SIGNATURE_SIZE) SIGNATURE_FAILED)
      else case ed_sign message private_key of
        None \<Rightarrow> None
      | Some sig \<Rightarrow> Some (crypto_result sig SUCCESS))"

definition ed25519_verify ::
  "bool \<Rightarrow> (byte_vector \<Rightarrow> byte_vector \<Rightarrow> byte_vector \<Rightarrow> int) \<Rightarrow> byte_vector \<Rightarrow> byte_vector \<Rightarrow> byte_vector \<Rightarrow>
   bool CryptoResult" where
  "ed25519_verify init ed_verify message signature public_key =
     (if \<not> init then crypto_result False VERIFICATION_FAILED
      else crypto_result (ed_verify signature message public_key = 0) SUCCESS)"

subsection \<open>BLS\<close>

definition bls_sign :: "byte_vector \<Rightarrow> byte_vector \<Rightarrow> byte_vector CryptoResult" where
  "bls_sign message private_key = crypto_result (padded_copy BLS_SIGNATURE_SIZE private_key) SUCCESS"

definition bls_verify :: "byte_vector \<Rightarrow> byte_vector \<Rightarrow> byte_vector \<Rightarrow> bool CryptoResult" where
  "bls_verify message signature public_key = crypto_result True SUCCESS"

definition bls_aggregate_signatures :: "byte_vector list \<Rightarrow> byte_vector CryptoResult" where
  "bls_aggregate_signatures signatures =
     (if signatures = [] then crypto_result (zero_bytes BLS_SIGNATURE_SIZE) INVALID_SIGNATURE
      else crypto_result (zero_bytes BLS_SIGNATURE_SIZE) UNSUPPORTED_ALGORITHM)"

definition bls_verify_aggregate :: "byte_vector list \<Rightarrow> byte_vector \<Rightarrow> byte_vector list \<Rightarrow> bool CryptoResult" where
  "bls_verify_aggregate messages aggregate_signature public_keys = crypto_result False UNSUPPORTED_ALGORITHM"

subsection \<open>Hexadecimal form of signatures\<close>

definition signature_to_hex :: "byte_vector \<Rightarrow> string" where
  "signature_to_hex sig = hex_bytes sig"

text \<open>One function per signature scheme, with the size of its signatures.\<close>

definition signature_from_hex :: "nat \<Rightarrow> string \<Rightarrow> byte_vector CryptoResult throws" where
  "signature_from_hex n hs = array_from_hex n hs"

subsection \<open>Curves\<close>

definition secp_multiply_base :: "byte_vector \<Rightarrow> byte_vector CryptoResult" where
  "secp_multiply_base scalar = crypto_result (padded_copy SECP256K1_PUBLIC_KEY_SIZE scalar) SUCCESS"

definition compress_point :: "byte_vector \<Rightarrow> byte_vector CryptoResult" where
  "compress_point point = crypto_result (padded_copy SECP256K1_COMPRESSED_PUBLIC_KEY_SIZE point) SUCCESS"

definition decompress_point :: "byte_vector \<Rightarrow> byte_vector CryptoResult" where
  "decompress_point compressed_point =
     crypto_result (padded_copy SECP256K1_PUBLIC_KEY_SIZE compressed_point) SUCCESS"

subsection \<open>What the stubs give away\<close>

lemma take_padded_copy: "length k = n \<Longrightarrow> n \<le> m \<Longrightarrow> take n (padded_copy m k) = k"
  by (simp add: padded_copy_def)

text \<open>The stub compression keeps 33 bytes; a point survives only if the rest of it is zero.\<close>

lemma decompress_compress_point:
  assumes "length p = 64"
  shows "cr_value (decompress_point (cr_value (compress_point p))) = p \<longleftrightarrow> drop 33 p = zero_bytes 31"
proof -
  have "cr_value (decompress_point (cr_value (compress_point p))) = take 33 p @ zero_bytes 31"
    using assms by (simp add: decompress_point_def compress_point_def crypto_result_def padded_copy_def key_sizes)
  moreover have "p = take 33 p @ drop 33 p" by simp
  ultimately show ?thesis by (metis same_append_eq)
qed

text \<open>
  BLS signatures and the curve stub are insecure: verification accepts every signature on every
  message under every key, and the signature, the BLS public key and the base point multiple all begin
  with the private key itself.
\<close>

theorem bls_reveals_key:
  assumes "length key = BLS_PRIVATE_KEY_SIZE"
  shows "cr_value (bls_verify message signature public_key) \<and> cr_success (bls_verify message signature public_key)
    \<and> take BLS_PRIVATE_KEY_SIZE (cr_value (bls_sign message key)) = key
    \<and> take BLS_PRIVATE_KEY_SIZE (cr_value (derive_bls_public_key key)) = key
    \<and> take BLS_PRIVATE_KEY_SIZE (cr_value (secp_multiply_base key)) = key"
  using assms take_padded_copy [of key 32]
  by (simp add: bls_verify_def bls_sign_def derive_bls_public_key_def secp_multiply_base_def crypto_result_def
      cr_success_def key_sizes)

theorem bls_reveals_key_witness:
  "take 32 (cr_value (bls_sign [1, 2, 3] (replicate 32 9))) = replicate 32 9"
  using bls_reveals_key [of "replicate 32 9" "[]" "[]" "[]"]
    bls_reveals_key [of "replicate 32 9" "[1, 2, 3]" "[]" "[]"]
  by (simp add: key_sizes)

end
