(* ===== verification/Curve_Stubs.thy ===== *)
theory Curve_Stubs
  imports Crypto_Signature
begin

text \<open>
  The curve operations that are placeholders, and the constants of the curves (modules/crypto/src/curve.cpp). The
  functions on Ed25519 and BLS12-381 points ignore their arguments and return a zero point with an error; each
  group of them is one definition.
\<close>

definition secp_multiply :: "byte_vector \<Rightarrow> byte_vector \<Rightarrow> byte_vector CryptoResult" where
  "secp_multiply point scalar = crypto_result point SUCCESS"

definition secp_add :: "byte_vector \<Rightarrow> byte_vector \<Rightarrow> byte_vector CryptoResult" where
  "secp_add p1 p2 = crypto_result (map2 (XOR) p1 p2) SUCCESS"

definition is_point_at_infinity :: "byte_vector \<Rightarrow> bool" where
  "is_point_at_infinity point = list_all (\<lambda>b. b = 0) point"

definition secp_order :: byte_vector where
  "secp_order =
    [0xFF, 0xFF, 0xFF, 0xFF, 0xFF, 0xFF, 0xFF, 0xFF, 0xFF, 0xFF, 0xFF, 0xFF, 0xFF, 0xFF, 0xFF, 0xFE,
     0xBA, 0xAE, 0xDC, 0xE6, 0xAF, 0x48, 0xA0, 0x3B, 0xBF, 0xD2, 0x5E, 0x8C, 0xD0, 0x36, 0x41, 0x41]"

definition secp_generator :: byte_vector where
  "secp_generator =
    [0x79, 0xBE, 0x66, 0x7E, 0xF9, 0xDC, 0xBB, 0xAC, 0x55, 0xA0, 0x62, 0x95, 0xCE, 0x87, 0x0B, 0x07,
     0x02, 0x9B, 0xFC, 0xDB, 0x2D, 0xCE, 0x28, 0xD9, 0x59, 0xF2, 0x81, 0x5B, 0x16, 0xF8, 0x17, 0x98,
     0x48, 0x3A, 0xDA, 0x77, 0x26, 0xA3, 0xC4, 0x65, 0x5D, 0xA4, 0xFB, 0xFC, 0x0E, 0x11, 0x08, 0xA8,
     0xFD, 0x17, 0xB4, 0x48, 0xA6, 0x85, 0x54, 0x19, 0x9C, 0x47, 0xD0, 0x8F, 0xFB, 0x10, 0xD4, 0xB8]"

definition ed25519_point :: "byte_vector CryptoResult" where
  "ed25519_point = crypto_result (zero_bytes ED25519_PUBLIC_KEY_SIZE) UNSUPPORTED_ALGORITHM"

definition ed25519_generator :: byte_vector where
  "ed25519_generator =
    [0x58, 0x66, 0x66, 0x66, 0x66, 0x66, 0x66, 0x66, 0x66, 0x66, 0x66, 0x66, 0x66, 0x66, 0x66, 0x66,
     0x66, 0x66, 0x66, 0x66, 0x66, 0x66, 0x66, 0x66, 0x66, 0x66, 0x66, 0x66, 0x66, 0x66, 0x66, 0x58]"

definition bls_g1_point :: "byte_vector CryptoResult" where
  "bls_g1_point = crypto_result (zero_bytes BLS_PUBLIC_KEY_SIZE) UNSUPPORTED_ALGORITHM"

definition bls_g2_point :: "byte_vector CryptoResult" where
  "bls_g2_point = crypto_result (zero_bytes BLS_SIGNATURE_SIZE) UNSUPPORTED_ALGORITHM"

definition pairing_check :: "byte_vector \<Rightarrow> byte_vector \<Rightarrow> bool CryptoResult" where
  "pairing_check g1_point g2_point = crypto_result False UNSUPPORTED_ALGORITHM"

subsection \<open>The constants against the curves\<close>

abbreviation secp_prime :: nat where
  "secp_prime \<equiv> 2 ^ 256 - 2 ^ 32 - 977"

abbreviation ed25519_prime :: nat where
  "ed25519_prime \<equiv> 2 ^ 255 - 19"

lemma secp_order_value: "be_value secp_order = 2 ^ 256 - 432420386565659656852420866394968145599"
  by (simp add: be_value_def secp_order_def)

text \<open>
  The secp256k1 constants are right: the generator is a point of the curve \<open>y^2 = x^3 + 7\<close> over the field of the
  standard's prime, in the 64-byte form without the leading tag, and the order is the standard's order. The
  Ed25519 generator is not: the standard's base point has the second coordinate 4/5, which the encoded
  number is not, and it would be with its last byte 0x66.
\<close>

theorem curve_constants:
  "length secp_generator = 64
   \<and> (be_value (drop 32 secp_generator)) ^ 2 mod secp_prime = ((be_value (take 32 secp_generator)) ^ 3 + 7) mod secp_prime
   \<and> be_value secp_order = 2 ^ 256 - 432420386565659656852420866394968145599
   \<and> 5 * be_value (rev ed25519_generator) mod ed25519_prime \<noteq> 4
   \<and> 5 * be_value (rev (ed25519_generator[31 := 0x66])) mod ed25519_prime = 4"
proof (intro conjI)
  show "length secp_generator = 64" by (simp add: secp_generator_def)
  show "(be_value (drop 32 secp_generator)) ^ 2 mod secp_prime = ((be_value (take 32 secp_generator)) ^ 3 + 7) mod secp_prime"
    by (simp add: be_value_def secp_generator_def)
  show "be_value secp_order = 2 ^ 256 - 432420386565659656852420866394968145599" by (rule secp_order_value)
  show "5 * be_value (rev ed25519_generator) mod ed25519_prime \<noteq> 4"
    by (simp add: be_value_def ed25519_generator_def)
  show "5 * be_value (rev (ed25519_generator[31 := 0x66])) mod ed25519_prime = 4"
    by (simp add: be_value_def ed25519_generator_def)
qed

text \<open>Under the stubs doubling any point gives the point at infinity, and the order's multiple of the generator does not.\<close>

lemma secp_double_infinity: "is_point_at_infinity (cr_value (secp_add p p))"
  by (simp add: is_point_at_infinity_def secp_add_def crypto_result_def list_all_length)

lemma secp_order_multiple: "\<not> is_point_at_infinity (cr_value (secp_multiply secp_generator secp_order))"
  by (simp add: is_point_at_infinity_def secp_multiply_def crypto_result_def secp_generator_def)

end
