(* ===== verification/Core_Errors.thy ===== *)
theory Core_Errors
  imports CF_Prelude
begin

text \<open>
  Error values and their helpers (modules/core: expected.hpp, error.hpp, error.cpp, error_utils.hpp).
  \<open>expected<T, E>\<close> is a sum whose left side is the error; \<open>expected<void, E>\<close> is the case of the
  unit type. The overloads of a member function for \<open>const\<close>, lvalue and rvalue objects return the
  same value and are one definition. A callable that is passed in may have effects of its own, so it
  is a function from a state of the caller's to a result and a new state. The switch statements on
  \<open>ErrorCode\<close> name every enumerator; their \<open>default\<close> is reached only by casts.
\<close>

subsection \<open>expected\<close>

type_synonym ('e, 'a) expected = "'e + 'a"

definition has_value :: "('e, 'a) expected \<Rightarrow> bool" where
  "has_value r = (case r of Inl e \<Rightarrow> False | Inr v \<Rightarrow> True)"

definition exp_value :: "('e, 'a) expected \<Rightarrow> 'a throws" where
  "exp_value r = (case r of Inl e \<Rightarrow> Inl Bad_variant_access | Inr v \<Rightarrow> Inr v)"

definition exp_error :: "('e, 'a) expected \<Rightarrow> 'e throws" where
  "exp_error r = (case r of Inl e \<Rightarrow> Inr e | Inr v \<Rightarrow> Inl Bad_variant_access)"

definition value_or :: "('e, 'a) expected \<Rightarrow> 'a \<Rightarrow> 'a" where
  "value_or r d = (case r of Inl e \<Rightarrow> d | Inr v \<Rightarrow> v)"

definition exp_transform :: "('a \<Rightarrow> 'b) \<Rightarrow> ('e, 'a) expected \<Rightarrow> ('e, 'b) expected" where
  "exp_transform f r = (case r of Inl e \<Rightarrow> Inl e | Inr v \<Rightarrow> Inr (f v))"

definition exp_transform_error :: "('e \<Rightarrow> 'f) \<Rightarrow> ('e, 'a) expected \<Rightarrow> ('f, 'a) expected" where
  "exp_transform_error f r = (case r of Inl e \<Rightarrow> Inl (f e) | Inr v \<Rightarrow> Inr v)"

definition and_then :: "('a \<Rightarrow> ('e, 'b) expected) \<Rightarrow> ('e, 'a) expected \<Rightarrow> ('e, 'b) expected" where
  "and_then f r = (case r of Inl e \<Rightarrow> Inl e | Inr v \<Rightarrow> f v)"

definition or_else :: "('e \<Rightarrow> ('f, 'a) expected) \<Rightarrow> ('e, 'a) expected \<Rightarrow> ('f, 'a) expected" where
  "or_else f r = (case r of Inl e \<Rightarrow> f e | Inr v \<Rightarrow> Inr v)"

lemmas expected_defs = has_value_def exp_value_def exp_error_def value_or_def exp_transform_def
  exp_transform_error_def and_then_def or_else_def

subsection \<open>Error codes\<close>

datatype (plugins only: size) ErrorCode =
    SUCCESS | UNKNOWN_ERROR | INVALID_ARGUMENT | INVALID_STATE | NOT_IMPLEMENTED | TIMEOUT | CANCELLED
     | IO_ERROR | FILE_NOT_FOUND | PERMISSION_DENIED | DISK_FULL | NETWORK_ERROR | CONNECTION_REFUSED
     | CONNECTION_TIMEOUT | CRYPTO_ERROR | INVALID_KEY | INVALID_SIGNATURE | INVALID_HASH | INVALID_CURVE
     | INSUFFICIENT_ENTROPY | STORAGE_ERROR | DATABASE_ERROR | KEY_NOT_FOUND | CORRUPTED_DATA
     | TRANSACTION_FAILED | CONCURRENT_MODIFICATION | P2P_ERROR | PEER_NOT_FOUND | PROTOCOL_ERROR
     | MESSAGE_TOO_LARGE | INVALID_MESSAGE | PEER_BANNED | CONSENSUS_ERROR | INVALID_BLOCK
     | INVALID_TRANSACTION | FORK_DETECTED | STALE_BLOCK | INSUFFICIENT_STAKE | EXECUTION_ERROR
     | OUT_OF_GAS | INVALID_OPCODE | STACK_OVERFLOW | STACK_UNDERFLOW | INVALID_JUMP | MEMPOOL_ERROR
     | TRANSACTION_EXISTS | INSUFFICIENT_FEE | NONCE_TOO_LOW | NONCE_TOO_HIGH | GAS_LIMIT_EXCEEDED
     | RPC_ERROR | INVALID_REQUEST | METHOD_NOT_FOUND | INVALID_PARAMS | INTERNAL_ERROR | RATE_LIMITED
     | NODE_ERROR | NODE_NOT_RUNNING | CONFIG_ERROR | RESOURCE_EXHAUSTED | SERVICE_UNAVAILABLE

primrec error_code_value :: "ErrorCode \<Rightarrow> int" where
  "error_code_value SUCCESS = 0"
| "error_code_value UNKNOWN_ERROR = 1000"
| "error_code_value INVALID_ARGUMENT = 1001"
| "error_code_value INVALID_STATE = 1002"
| "error_code_value NOT_IMPLEMENTED = 1003"
| "error_code_value TIMEOUT = 1004"
| "error_code_value CANCELLED = 1005"
| "error_code_value IO_ERROR = 2000"
| "error_code_value FILE_NOT_FOUND = 2001"
| "error_code_value PERMISSION_DENIED = 2002"
| "error_code_value DISK_FULL = 2003"
| "error_code_value NETWORK_ERROR = 2004"
| "error_code_value CONNECTION_REFUSED = 2005"
| "error_code_value CONNECTION_TIMEOUT = 2006"
| "error_code_value CRYPTO_ERROR = 3000"
| "error_code_value INVALID_KEY = 3001"
| "error_code_value INVALID_SIGNATURE = 3002"
| "error_code_value INVALID_HASH = 3003"
| "error_code_value INVALID_CURVE = 3004"
| "error_code_value INSUFFICIENT_ENTROPY = 3005"
| "error_code_value STORAGE_ERROR = 4000"
| "error_code_value DATABASE_ERROR = 4001"
| "error_code_value KEY_NOT_FOUND = 4002"
| "error_code_value CORRUPTED_DATA = 4003"
| "error_code_value TRANSACTION_FAILED = 4004"
| "error_code_value CONCURRENT_MODIFICATION = 4005"
| "error_code_value P2P_ERROR = 5000"
| "error_code_value PEER_NOT_FOUND = 5001"
| "error_code_value PROTOCOL_ERROR = 5002"
| "error_code_value MESSAGE_TOO_LARGE = 5003"
| "error_code_value INVALID_MESSAGE = 5004"
| "error_code_value PEER_BANNED = 5005"
| "error_code_value CONSENSUS_ERROR = 6000"
| "error_code_value INVALID_BLOCK = 6001"
| "error_code_value INVALID_TRANSACTION = 6002"
| "error_code_value FORK_DETECTED = 6003"
| "error_code_value STALE_BLOCK = 6004"
| "error_code_value INSUFFICIENT_STAKE = 6005"
| "error_code_value EXECUTION_ERROR = 7000"
| "error_code_value OUT_OF_GAS = 7001"
| "error_code_value INVALID_OPCODE = 7002"
| "error_code_value STACK_OVERFLOW = 7003"
| "error_code_value STACK_UNDERFLOW = 7004"
| "error_code_value INVALID_JUMP = 7005"
| "error_code_value MEMPOOL_ERROR = 8000"
| "error_code_value TRANSACTION_EXISTS = 8001"
| "error_code_value INSUFFICIENT_FEE = 8002"
| "error_code_value NONCE_TOO_LOW = 8003"
| "error_code_value NONCE_TOO_HIGH = 8004"
| "error_code_value GAS_LIMIT_EXCEEDED = 8005"
| "error_code_value RPC_ERROR = 9000"
| "error_code_value INVALID_REQUEST = 9001"
| "error_code_value METHOD_NOT_FOUND = 9002"
| "error_code_value INVALID_PARAMS = 9003"
| "error_code_value INTERNAL_ERROR = 9004"
| "error_code_value RATE_LIMITED = 9005"
| "error_code_value NODE_ERROR = 10000"
| "error_code_value NODE_NOT_RUNNING = 10001"
| "error_code_value CONFIG_ERROR = 10002"
| "error_code_value RESOURCE_EXHAUSTED = 10003"
| "error_code_value SERVICE_UNAVAILABLE = 10004"

primrec error_code_to_string :: "ErrorCode \<Rightarrow> string" where
  "error_code_to_string SUCCESS = ''SUCCESS''"
| "error_code_to_string UNKNOWN_ERROR = ''UNKNOWN_ERROR''"
| "error_code_to_string INVALID_ARGUMENT = ''INVALID_ARGUMENT''"
| "error_code_to_string INVALID_STATE = ''INVALID_STATE''"
| "error_code_to_string NOT_IMPLEMENTED = ''NOT_IMPLEMENTED''"
| "error_code_to_string TIMEOUT = ''TIMEOUT''"
| "error_code_to_string CANCELLED = ''CANCELLED''"
| "error_code_to_string IO_ERROR = ''IO_ERROR''"
| "error_code_to_string FILE_NOT_FOUND = ''FILE_NOT_FOUND''"
| "error_code_to_string PERMISSION_DENIED = ''PERMISSION_DENIED''"
| "error_code_to_string DISK_FULL = ''DISK_FULL''"
| "error_code_to_string NETWORK_ERROR = ''NETWORK_ERROR''"
| "error_code_to_string CONNECTION_REFUSED = ''CONNECTION_REFUSED''"
| "error_code_to_string CONNECTION_TIMEOUT = ''CONNECTION_TIMEOUT''"
| "error_code_to_string CRYPTO_ERROR = ''CRYPTO_ERROR''"
| "error_code_to_string INVALID_KEY = ''INVALID_KEY''"
| "error_code_to_string INVALID_SIGNATURE = ''INVALID_SIGNATURE''"
| "error_code_to_string INVALID_HASH = ''INVALID_HASH''"
| "error_code_to_string INVALID_CURVE = ''INVALID_CURVE''"
| "error_code_to_string INSUFFICIENT_ENTROPY = ''INSUFFICIENT_ENTROPY''"
| "error_code_to_string STORAGE_ERROR = ''STORAGE_ERROR''"
| "error_code_to_string DATABASE_ERROR = ''DATABASE_ERROR''"
| "error_code_to_string KEY_NOT_FOUND = ''KEY_NOT_FOUND''"
| "error_code_to_string CORRUPTED_DATA = ''CORRUPTED_DATA''"
| "error_code_to_string TRANSACTION_FAILED = ''TRANSACTION_FAILED''"
| "error_code_to_string CONCURRENT_MODIFICATION = ''CONCURRENT_MODIFICATION''"
| "error_code_to_string P2P_ERROR = ''P2P_ERROR''"
| "error_code_to_string PEER_NOT_FOUND = ''PEER_NOT_FOUND''"
| "error_code_to_string PROTOCOL_ERROR = ''PROTOCOL_ERROR''"
| "error_code_to_string MESSAGE_TOO_LARGE = ''MESSAGE_TOO_LARGE''"
| "error_code_to_string INVALID_MESSAGE = ''INVALID_MESSAGE''"
| "error_code_to_string PEER_BANNED = ''PEER_BANNED''"
| "error_code_to_string CONSENSUS_ERROR = ''CONSENSUS_ERROR''"
| "error_code_to_string INVALID_BLOCK = ''INVALID_BLOCK''"
| "error_code_to_string INVALID_TRANSACTION = ''INVALID_TRANSACTION''"
| "error_code_to_string FORK_DETECTED = ''FORK_DETECTED''"
| "error_code_to_string STALE_BLOCK = ''STALE_BLOCK''"
| "error_code_to_string INSUFFICIENT_STAKE = ''INSUFFICIENT_STAKE''"
| "error_code_to_string EXECUTION_ERROR = ''EXECUTION_ERROR''"
| "error_code_to_string OUT_OF_GAS = ''OUT_OF_GAS''"
| "error_code_to_string INVALID_OPCODE = ''INVALID_OPCODE''"
| "error_code_to_string STACK_OVERFLOW = ''STACK_OVERFLOW''"
| "error_code_to_string STACK_UNDERFLOW = ''STACK_UNDERFLOW''"
| "error_code_to_string INVALID_JUMP = ''INVALID_JUMP''"
| "error_code_to_string MEMPOOL_ERROR = ''MEMPOOL_ERROR''"
| "error_code_to_string TRANSACTION_EXISTS = ''TRANSACTION_EXISTS''"
| "error_code_to_string INSUFFICIENT_FEE = ''INSUFFICIENT_FEE''"
| "error_code_to_string NONCE_TOO_LOW = ''NONCE_TOO_LOW''"
| "error_code_to_string NONCE_TOO_HIGH = ''NONCE_TOO_HIGH''"
| "error_code_to_string GAS_LIMIT_EXCEEDED = ''GAS_LIMIT_EXCEEDED''"
| "error_code_to_string RPC_ERROR = ''RPC_ERROR''"
| "error_code_to_string INVALID_REQUEST = ''INVALID_REQUEST''"
| "error_code_to_string METHOD_NOT_FOUND = ''METHOD_NOT_FOUND''"
| "error_code_to_string INVALID_PARAMS = ''INVALID_PARAMS''"
| "error_code_to_string INTERNAL_ERROR = ''INTERNAL_ERROR''"
| "error_code_to_string RATE_LIMITED = ''RATE_LIMITED''"
| "error_code_to_string NODE_ERROR = ''NODE_ERROR''"
| "error_code_to_string NODE_NOT_RUNNING = ''NODE_NOT_RUNNING''"
| "error_code_to_string CONFIG_ERROR = ''CONFIG_ERROR''"
| "error_code_to_string RESOURCE_EXHAUSTED = ''RESOURCE_EXHAUSTED''"
| "error_code_to_string SERVICE_UNAVAILABLE = ''SERVICE_UNAVAILABLE''"

primrec get_user_friendly_message :: "ErrorCode \<Rightarrow> string" where
  "get_user_friendly_message SUCCESS = ''Operation completed successfully''"
| "get_user_friendly_message UNKNOWN_ERROR = ''An unexpected error occurred''"
| "get_user_friendly_message INVALID_ARGUMENT = ''Invalid argument provided''"
| "get_user_friendly_message INVALID_STATE = ''System is in an invalid state''"
| "get_user_friendly_message NOT_IMPLEMENTED = ''This feature is not yet implemented''"
| "get_user_friendly_message TIMEOUT = ''Operation timed out''"
| "get_user_friendly_message CANCELLED = ''Operation was cancelled''"
| "get_user_friendly_message IO_ERROR = ''Input/output error occurred''"
| "get_user_friendly_message FILE_NOT_FOUND = ''File not found''"
| "get_user_friendly_message PERMISSION_DENIED = ''Permission denied''"
| "get_user_friendly_message DISK_FULL = ''Disk is full''"
| "get_user_friendly_message NETWORK_ERROR = ''Network error occurred''"
| "get_user_friendly_message CONNECTION_REFUSED = ''Connection was refused''"
| "get_user_friendly_message CONNECTION_TIMEOUT = ''Connection timed out''"
| "get_user_friendly_message CRYPTO_ERROR = ''Cryptographic operation failed''"
| "get_user_friendly_message INVALID_KEY = ''Invalid cryptographic key''"
| "get_user_friendly_message INVALID_SIGNATURE = ''Invalid signature''"
| "get_user_friendly_message INVALID_HASH = ''Invalid hash''"
| "get_user_friendly_message INVALID_CURVE = ''Invalid elliptic curve''"
| "get_user_friendly_message INSUFFICIENT_ENTROPY = ''Insufficient entropy for secure operation''"
| "get_user_friendly_message STORAGE_ERROR = ''Storage operation failed''"
| "get_user_friendly_message DATABASE_ERROR = ''Database operation failed''"
| "get_user_friendly_message KEY_NOT_FOUND = ''Key not found in storage''"
| "get_user_friendly_message CORRUPTED_DATA = ''Data corruption detected''"
| "get_user_friendly_message TRANSACTION_FAILED = ''Database transaction failed''"
| "get_user_friendly_message CONCURRENT_MODIFICATION = ''Concurrent modification detected''"
| "get_user_friendly_message P2P_ERROR = ''Peer-to-peer communication error''"
| "get_user_friendly_message PEER_NOT_FOUND = ''Peer not found''"
| "get_user_friendly_message PROTOCOL_ERROR = ''Protocol error''"
| "get_user_friendly_message MESSAGE_TOO_LARGE = ''Message too large''"
| "get_user_friendly_message INVALID_MESSAGE = ''Invalid message format''"
| "get_user_friendly_message PEER_BANNED = ''Peer is banned''"
| "get_user_friendly_message CONSENSUS_ERROR = ''Consensus mechanism error''"
| "get_user_friendly_message INVALID_BLOCK = ''Invalid block''"
| "get_user_friendly_message INVALID_TRANSACTION = ''Invalid transaction''"
| "get_user_friendly_message FORK_DETECTED = ''Blockchain fork detected''"
| "get_user_friendly_message STALE_BLOCK = ''Block is stale''"
| "get_user_friendly_message INSUFFICIENT_STAKE = ''Insufficient stake for operation''"
| "get_user_friendly_message EXECUTION_ERROR = ''Transaction execution error''"
| "get_user_friendly_message OUT_OF_GAS = ''Out of gas during execution''"
| "get_user_friendly_message INVALID_OPCODE = ''Invalid opcode''"
| "get_user_friendly_message STACK_OVERFLOW = ''Stack overflow''"
| "get_user_friendly_message STACK_UNDERFLOW = ''Stack underflow''"
| "get_user_friendly_message INVALID_JUMP = ''Invalid jump destination''"
| "get_user_friendly_message MEMPOOL_ERROR = ''Mempool operation failed''"
| "get_user_friendly_message TRANSACTION_EXISTS = ''Transaction already exists''"
| "get_user_friendly_message INSUFFICIENT_FEE = ''Insufficient transaction fee''"
| "get_user_friendly_message NONCE_TOO_LOW = ''Transaction nonce too low''"
| "get_user_friendly_message NONCE_TOO_HIGH = ''Transaction nonce too high''"
| "get_user_friendly_message GAS_LIMIT_EXCEEDED = ''Gas limit exceeded''"
| "get_user_friendly_message RPC_ERROR = ''RPC operation failed''"
| "get_user_friendly_message INVALID_REQUEST = ''Invalid RPC request''"
| "get_user_friendly_message METHOD_NOT_FOUND = ''RPC method not found''"
| "get_user_friendly_message INVALID_PARAMS = ''Invalid RPC parameters''"
| "get_user_friendly_message INTERNAL_ERROR = ''Internal server error''"
| "get_user_friendly_message RATE_LIMITED = ''Rate limit exceeded''"
| "get_user_friendly_message NODE_ERROR = ''Node operation failed''"
| "get_user_friendly_message NODE_NOT_RUNNING = ''Node is not running''"
| "get_user_friendly_message CONFIG_ERROR = ''Configuration error''"
| "get_user_friendly_message RESOURCE_EXHAUSTED = ''System resources exhausted''"
| "get_user_friendly_message SERVICE_UNAVAILABLE = ''Service unavailable''"

subsection \<open>Error information\<close>

datatype ErrorInfo = ErrorInfo (ei_code: ErrorCode) (ei_message: string) (ei_context: string)
  (ei_file: string) (ei_line: int) (ei_cause: "ErrorInfo option")

type_synonym 'a Result = "(ErrorInfo, 'a) expected"

definition error_info :: "ErrorCode \<Rightarrow> string \<Rightarrow> string \<Rightarrow> ErrorInfo" where
  "error_info c msg ctx = ErrorInfo c msg ctx '''' 0 None"

definition error_to_string :: "ErrorInfo \<Rightarrow> string" where
  "error_to_string e =
     ''Error '' @ int_string (error_code_value (ei_code e)) @ '': '' @ ei_message e
     @ (if ei_context e \<noteq> '''' then '' (Context: '' @ ei_context e @ '')'' else '''')
     @ (if ei_file e \<noteq> '''' \<and> 0 < ei_line e
        then '' [at '' @ ei_file e @ '':'' @ int_string (ei_line e) @ '']'' else '''')"

fun chain_to_string :: "ErrorInfo \<Rightarrow> string" where
  "chain_to_string (ErrorInfo c msg ctx f l cause) =
     error_to_string (ErrorInfo c msg ctx f l cause)
     @ (case cause of None \<Rightarrow> '''' | Some e \<Rightarrow> CHR 0x0A # ''Caused by: '' @ chain_to_string e)"

fun error_equal :: "ErrorInfo \<Rightarrow> ErrorInfo \<Rightarrow> bool" where
  "error_equal (ErrorInfo c m x f l k) (ErrorInfo c' m' x' f' l' k') =
     (c = c' \<and> m = m' \<and> x = x' \<and> f = f' \<and> l = l'
      \<and> (case k of None \<Rightarrow> k' = None
         | Some e \<Rightarrow> (case k' of None \<Rightarrow> False | Some e' \<Rightarrow> error_equal e e')))"

subsection \<open>Propagation\<close>

definition map_error_code :: "'a Result \<Rightarrow> ErrorCode \<Rightarrow> 'a Result" where
  "map_error_code r new_code =
     (case r of Inr v \<Rightarrow> Inr v | Inl e \<Rightarrow> Inl (error_info new_code (ei_message e) (ei_context e)))"

definition add_context :: "'a Result \<Rightarrow> string \<Rightarrow> 'a Result" where
  "add_context r context =
     (case r of Inr v \<Rightarrow> Inr v
      | Inl e \<Rightarrow> Inl (error_info (ei_code e) (ei_message e)
          (if context = '''' then ei_context e else ei_context e @ '' -> '' @ context)))"

definition chain_error :: "'a Result \<Rightarrow> ErrorCode \<Rightarrow> string \<Rightarrow> 'a Result" where
  "chain_error r new_code new_message =
     (case r of Inr v \<Rightarrow> Inr v | Inl e \<Rightarrow> Inl (ErrorInfo new_code new_message '''' '''' 0 (Some e)))"

subsection \<open>Retry and fallback\<close>

text \<open>
  The attempts of \<open>retry_with_backoff\<close> and \<open>retry_with_jitter\<close> without the pauses between them, which are in
  \<open>Error_Retry\<close>: the reference for both.
\<close>

fun retry_loop :: "nat \<Rightarrow> ('s \<Rightarrow> 'a Result \<times> 's) \<Rightarrow> 's \<Rightarrow> 'a Result \<times> 's" where
  "retry_loop 0 func s =
     (Inl (error_info TIMEOUT ''Operation failed after maximum retry attempts'' ''''), s)"
| "retry_loop (Suc n) func s =
     (let (result, s1) = func s in if has_value result then (result, s1) else retry_loop n func s1)"

text \<open>
  The declared result is \<open>Result<std::invoke_result_t<F1, Args...>>\<close>, a result of a result, and each
  \<open>return\<close> converts by the constructor from a value.
\<close>

definition fallback_chain ::
  "('s \<Rightarrow> 'a Result \<times> 's) \<Rightarrow> ('s \<Rightarrow> 'a Result \<times> 's) \<Rightarrow> ('s \<Rightarrow> 'a Result \<times> 's) \<Rightarrow> 's \<Rightarrow> 'a Result Result \<times> 's" where
  "fallback_chain primary secondary tertiary s =
     (let (r1, s1) = primary s in
      if has_value r1 then (Inr r1, s1)
      else let (r2, s2) = secondary s1 in
        if has_value r2 then (Inr r2, s2)
        else let (r3, s3) = tertiary s2 in (Inr r3, s3))"

definition fallback ::
  "('s \<Rightarrow> 'a Result \<times> 's) \<Rightarrow> ('s \<Rightarrow> 'a Result \<times> 's) \<Rightarrow> 's \<Rightarrow> 'a Result Result \<times> 's" where
  "fallback primary fallback_func s =
     (let (r1, s1) = primary s in
      if has_value r1 then (Inr r1, s1) else let (r2, s2) = fallback_func s1 in (Inr r2, s2))"

subsection \<open>Facts\<close>

lemmas propagation_defs = map_error_code_def add_context_def chain_error_def error_info_def

lemma and_then_laws:
  "and_then f (Inr v) = f v"
  "and_then Inr r = r"
  "and_then g (and_then f r) = and_then (\<lambda>x. and_then g (f x)) r"
  "exp_transform h r = and_then (\<lambda>x. Inr (h x)) r"
  by (simp_all add: expected_defs split: sum.split)

lemma error_equal_eq: "error_equal a b \<longleftrightarrow> a = b"
proof (induction a arbitrary: b)
  case (ErrorInfo c m x f l k)
  obtain c' m' x' f' l' k' where b: "b = ErrorInfo c' m' x' f' l' k'" by (cases b)
  show ?case
    using ErrorInfo.IH by (cases k; cases k') (auto simp: b)
qed

text \<open>
  A retried function is called until its first success and at most \<open>max_attempts\<close> times; when every
  attempt fails the error of the last one is replaced by a timeout.
\<close>

primrec state_after :: "('s \<Rightarrow> 'a Result \<times> 's) \<Rightarrow> nat \<Rightarrow> 's \<Rightarrow> 's" where
  "state_after func 0 s = s"
| "state_after func (Suc k) s = state_after func k (snd (func s))"

definition attempt_ok :: "('s \<Rightarrow> 'a Result \<times> 's) \<Rightarrow> 's \<Rightarrow> nat \<Rightarrow> bool" where
  "attempt_ok func s k = has_value (fst (func (state_after func k s)))"

lemma attempt_ok_Suc: "attempt_ok func s (Suc k) = attempt_ok func (snd (func s)) k"
  by (simp add: attempt_ok_def)

lemma retry_loop_cases:
  "(\<exists>k<n. attempt_ok func s k \<and> (\<forall>j<k. \<not> attempt_ok func s j) \<and> retry_loop n func s = func (state_after func k s))
   \<or> (\<forall>k<n. \<not> attempt_ok func s k)
      \<and> retry_loop n func s
        = (Inl (error_info TIMEOUT ''Operation failed after maximum retry attempts'' []), state_after func n s)"
proof (induction n arbitrary: s)
  case (Suc n)
  let ?s1 = "snd (func s)"
  have step: "retry_loop (Suc n) func s = (if attempt_ok func s 0 then func s else retry_loop n func ?s1)"
    by (simp add: attempt_ok_def case_prod_unfold Let_def)
  show ?case
  proof (cases "attempt_ok func s 0")
    case True
    then show ?thesis using step by (intro disjI1 exI [of _ 0]) simp
  next
    case False
    note f = this
    from Suc.IH [of ?s1] show ?thesis
    proof (elim disjE exE conjE)
      fix k assume "k < n" "attempt_ok func ?s1 k" "\<forall>j<k. \<not> attempt_ok func ?s1 j"
        "retry_loop n func ?s1 = func (state_after func k ?s1)"
      then show ?thesis
        using f step by (intro disjI1 exI [of _ "Suc k"])
          (simp add: attempt_ok_Suc All_less_Suc2 del: retry_loop.simps)
    next
      assume "\<forall>k<n. \<not> attempt_ok func ?s1 k"
        "retry_loop n func ?s1 = (Inl (error_info TIMEOUT ''Operation failed after maximum retry attempts'' []),
           state_after func n ?s1)"
      then show ?thesis
        using f step by (intro disjI2)
          (simp add: attempt_ok_Suc All_less_Suc2 del: retry_loop.simps)
    qed
  qed
qed simp

text \<open>The two levels of results of the fallback functions: the outer one always has a value.\<close>

lemma fallback_always_value:
  "has_value (fst (fallback_chain p q t s))" "has_value (fst (fallback p q s))"
  by (simp_all add: fallback_chain_def fallback_def has_value_def case_prod_unfold Let_def)

end
