(* ===== verification/Error_Recovery.thy ===== *)
theory Error_Recovery
  imports Core_Errors Containers Float64
begin

text \<open>
  Circuit breaker, error tracker and rate limiter (modules/core: error_utils.hpp). Points in time are
  integers, the ticks of the steady clock; every reading of the clock is an argument. Each operation
  holds the object's mutex from beginning to end, so operations are atomic. The counters are integers:
  they count single events and stay far below the bounds of \<open>int\<close>.
\<close>

subsection \<open>Circuit breaker\<close>

datatype BreakerState = CLOSED | OPEN | HALF_OPEN

record CircuitBreaker =
  cb_failure_threshold :: int
  cb_timeout :: int
  cb_failure_count :: int
  cb_last_failure_time :: int
  cb_state :: BreakerState

definition circuit_breaker :: "int \<Rightarrow> int \<Rightarrow> int \<Rightarrow> CircuitBreaker" where
  "circuit_breaker now failure_threshold timeout =
     \<lparr> cb_failure_threshold = failure_threshold, cb_timeout = timeout, cb_failure_count = 0,
       cb_last_failure_time = now, cb_state = CLOSED \<rparr>"

definition on_success :: "CircuitBreaker \<Rightarrow> CircuitBreaker" where
  "on_success b = b\<lparr>cb_failure_count := 0, cb_state := CLOSED\<rparr>"

definition on_failure :: "int \<Rightarrow> CircuitBreaker \<Rightarrow> CircuitBreaker" where
  "on_failure now b =
     (let b1 = b\<lparr>cb_failure_count := cb_failure_count b + 1, cb_last_failure_time := now\<rparr> in
      if cb_failure_threshold b1 \<le> cb_failure_count b1 then b1\<lparr>cb_state := OPEN\<rparr> else b1)"

text \<open>
  Whether a call gets through, and what the function it runs does: it returns a value or an error, or it throws. An
  exception leaves \<open>execute\<close> before the result is looked at.
\<close>

definition breaker_admits :: "int \<Rightarrow> CircuitBreaker \<Rightarrow> bool" where
  "breaker_admits now b = (cb_state b = OPEN \<longrightarrow> cb_timeout b \<le> now - cb_last_failure_time b)"

datatype call_outcome = Returned_Value | Returned_Error | Thrown

definition call_outcome_of :: "'a Result throws \<Rightarrow> call_outcome" where
  "call_outcome_of r = (case r of Inl e \<Rightarrow> Thrown | Inr res \<Rightarrow> if has_value res then Returned_Value else Returned_Error)"

definition breaker_after :: "int \<Rightarrow> call_outcome \<Rightarrow> CircuitBreaker \<Rightarrow> CircuitBreaker" where
  "breaker_after now' oc b =
     (let b1 = (if cb_state b = OPEN then b\<lparr>cb_state := HALF_OPEN\<rparr> else b)
      in case oc of Returned_Value \<Rightarrow> on_success b1 | Returned_Error \<Rightarrow> on_failure now' b1 | Thrown \<Rightarrow> b1)"

text \<open>The second reading of the clock is taken after the call, in \<open>on_failure\<close>.\<close>

definition breaker_execute ::
  "int \<Rightarrow> int \<Rightarrow> ('s \<Rightarrow> 'a Result throws \<times> 's) \<Rightarrow> 's \<Rightarrow> CircuitBreaker \<Rightarrow> 'a Result throws \<times> 's \<times> CircuitBreaker" where
  "breaker_execute now now' func s b =
     (if \<not> breaker_admits now b
      then (Inr (Inl (error_info SERVICE_UNAVAILABLE ''Circuit breaker is open'' [])), s, b)
      else let (result, s1) = func s in (result, s1, breaker_after now' (call_outcome_of result) b))"

definition get_state :: "CircuitBreaker \<Rightarrow> BreakerState" where
  "get_state b = cb_state b"

definition breaker_reset :: "CircuitBreaker \<Rightarrow> CircuitBreaker" where
  "breaker_reset b = b\<lparr>cb_state := CLOSED, cb_failure_count := 0\<rparr>"

subsection \<open>What happened to a breaker\<close>

text \<open>
  The history of a breaker, the latest first: calls that were let through, with the outcome of the function and the time
  its failure was noticed, calls that were refused, and resets. The failures in a row and the time of the last one are
  read off the history alone.
\<close>

datatype breaker_past = Ran call_outcome int | Refused | Was_Reset

fun failures_in_a_row :: "breaker_past list \<Rightarrow> nat" where
  "failures_in_a_row [] = 0"
| "failures_in_a_row (Ran Returned_Value _ # h) = 0"
| "failures_in_a_row (Ran Returned_Error _ # h) = Suc (failures_in_a_row h)"
| "failures_in_a_row (Ran Thrown _ # h) = failures_in_a_row h"
| "failures_in_a_row (Refused # h) = failures_in_a_row h"
| "failures_in_a_row (Was_Reset # h) = 0"

fun last_failure :: "breaker_past list \<Rightarrow> int option" where
  "last_failure [] = None"
| "last_failure (Ran Returned_Error time # h) = Some time"
| "last_failure (_ # h) = last_failure h"

fun threw_last :: "breaker_past list \<Rightarrow> bool" where
  "threw_last (Ran oc _ # h) = (oc = Thrown)"
| "threw_last (Refused # h) = threw_last h"
| "threw_last _ = False"

inductive breaker_history :: "int \<Rightarrow> int \<Rightarrow> breaker_past list \<Rightarrow> CircuitBreaker \<Rightarrow> bool" for n t where
  Init: "breaker_history n t [] (circuit_breaker now n t)"
| Run: "breaker_history n t h b \<Longrightarrow> breaker_admits now b \<Longrightarrow> breaker_history n t (Ran oc now' # h) (breaker_after now' oc b)"
| Refuse: "breaker_history n t h b \<Longrightarrow> \<not> breaker_admits now b \<Longrightarrow> breaker_history n t (Refused # h) b"
| Reset: "breaker_history n t h b \<Longrightarrow> breaker_history n t (Was_Reset # h) (breaker_reset b)"

text \<open>Every call continues the history, whatever the function.\<close>

definition past_of :: "int \<Rightarrow> int \<Rightarrow> ('s \<Rightarrow> 'a Result throws \<times> 's) \<Rightarrow> 's \<Rightarrow> CircuitBreaker \<Rightarrow> breaker_past" where
  "past_of now now' func s b = (if breaker_admits now b then Ran (call_outcome_of (fst (func s))) now' else Refused)"

lemma breaker_history_execute:
  "breaker_history n t h b \<Longrightarrow>
   breaker_history n t (past_of now now' func s b # h) (snd (snd (breaker_execute now now' func s b)))"
  by (simp add: breaker_execute_def past_of_def case_prod_unfold Let_def breaker_history.Run breaker_history.Refuse)

lemmas breaker_defs = circuit_breaker_def on_success_def on_failure_def breaker_reset_def breaker_after_def

definition breaker_inv :: "int \<Rightarrow> int \<Rightarrow> breaker_past list \<Rightarrow> CircuitBreaker \<Rightarrow> bool" where
  "breaker_inv n t h b \<longleftrightarrow> cb_failure_threshold b = n \<and> cb_timeout b = t \<and> cb_failure_count b = int (failures_in_a_row h)
     \<and> (\<forall>time. last_failure h = Some time \<longrightarrow> cb_last_failure_time b = time)
     \<and> (0 < failures_in_a_row h \<longrightarrow> last_failure h \<noteq> None)
     \<and> cb_state b = (if 0 < failures_in_a_row h \<and> n \<le> int (failures_in_a_row h)
         then (if threw_last h then HALF_OPEN else OPEN) else CLOSED)"

lemma breaker_history_inv: "breaker_history n t h b \<Longrightarrow> breaker_inv n t h b"
proof (induction rule: breaker_history.induct)
  case (Run h b now oc now')
  then show ?case by (cases oc) (auto simp: breaker_inv_def breaker_defs Let_def split: if_splits)
qed (auto simp: breaker_inv_def breaker_defs Let_def)

text \<open>
  C10. The circuit breaker does what its history says, in which calls can return a value, return an error or throw. It is
  closed as long as the errors in a row, counted over the calls let through since the last value or reset, are
  below the threshold; from then on it is open, or half open when the last call let through threw. While it is open
  and its timeout since the last error has not passed, a call is answered with \<open>SERVICE_UNAVAILABLE\<close> and the function is
  not run. Otherwise the function is run and its result or exception passed on: a value closes the breaker; an error
  opens it when the threshold is reached and leaves it closed when not; an exception leaves it closed, or half open when it
  was not closed, and then calls run unchecked.
\<close>

theorem breaker_correct:
  assumes "breaker_history n t h b"
  shows "get_state b = (if 0 < failures_in_a_row h \<and> n \<le> int (failures_in_a_row h)
      then (if threw_last h then HALF_OPEN else OPEN) else CLOSED)
    \<and> (get_state b = OPEN \<longrightarrow> (\<exists>time. last_failure h = Some time
        \<and> (now < time + t \<longrightarrow> breaker_execute now now' func s b
             = (Inr (Inl (error_info SERVICE_UNAVAILABLE ''Circuit breaker is open'' [])), s, b))
        \<and> (time + t \<le> now \<longrightarrow> breaker_admits now b)))
    \<and> (get_state b \<noteq> OPEN \<longrightarrow> breaker_admits now b)
    \<and> (breaker_admits now b \<longrightarrow> (let (r, s', b') = breaker_execute now now' func s b in
          (r, s') = func s
          \<and> get_state b' = (case call_outcome_of r of
               Returned_Value \<Rightarrow> CLOSED
             | Returned_Error \<Rightarrow> if n \<le> int (failures_in_a_row h) + 1 then OPEN else CLOSED
             | Thrown \<Rightarrow> if get_state b = CLOSED then CLOSED else HALF_OPEN)))"
proof -
  note inv = breaker_history_inv [OF assms]
  note run = breaker_history_inv [OF breaker_history.Run [OF assms, of now _ now']]
  have "get_state b = OPEN \<longrightarrow> (\<exists>time. last_failure h = Some time \<and> cb_last_failure_time b = time \<and> cb_timeout b = t)"
    using inv by (auto simp: breaker_inv_def get_state_def split: if_splits)
  then have "get_state b = OPEN \<longrightarrow> (\<exists>time. last_failure h = Some time
      \<and> (now < time + t \<longrightarrow> breaker_execute now now' func s b
           = (Inr (Inl (error_info SERVICE_UNAVAILABLE ''Circuit breaker is open'' [])), s, b))
      \<and> (time + t \<le> now \<longrightarrow> breaker_admits now b))"
    by (auto simp: breaker_execute_def breaker_admits_def get_state_def)
  moreover have "get_state b' = (case oc of
        Returned_Value \<Rightarrow> CLOSED
      | Returned_Error \<Rightarrow> if n \<le> int (failures_in_a_row h) + 1 then OPEN else CLOSED
      | Thrown \<Rightarrow> if get_state b = CLOSED then CLOSED else HALF_OPEN)"
    if "breaker_admits now b" "b' = breaker_after now' oc b" for oc b'
    using run [OF that(1), of oc] inv
    by (cases oc) (auto simp: that(2) breaker_inv_def get_state_def add.commute split: if_splits)
  then have "breaker_admits now b \<longrightarrow> (let (r, s', b') = breaker_execute now now' func s b in
      (r, s') = func s
      \<and> get_state b' = (case call_outcome_of r of
           Returned_Value \<Rightarrow> CLOSED
         | Returned_Error \<Rightarrow> if n \<le> int (failures_in_a_row h) + 1 then OPEN else CLOSED
         | Thrown \<Rightarrow> if get_state b = CLOSED then CLOSED else HALF_OPEN))"
    by (cases "func s") (simp add: breaker_execute_def)
  moreover have "get_state b \<noteq> OPEN \<longrightarrow> breaker_admits now b" by (simp add: breaker_admits_def get_state_def)
  moreover have "get_state b = (if 0 < failures_in_a_row h \<and> n \<le> int (failures_in_a_row h)
      then (if threw_last h then HALF_OPEN else OPEN) else CLOSED)"
    using inv by (simp only: breaker_inv_def get_state_def)
  ultimately show ?thesis by (intro conjI)
qed

text \<open>Two errors open a breaker of threshold 2; after its timeout a call that throws leaves it half open.\<close>

definition demo_breaker :: CircuitBreaker where
  "demo_breaker = breaker_after 6 Returned_Error (breaker_after 5 Returned_Error (circuit_breaker 0 2 100))"

lemma demo_breaker_history: "breaker_history 2 100 [Ran Returned_Error 6, Ran Returned_Error 5] demo_breaker"
  unfolding demo_breaker_def
  by (rule breaker_history.Run [OF breaker_history.Run [OF breaker_history.Init, of 0], of 0])
    (simp_all add: breaker_admits_def breaker_defs Let_def)

theorem breaker_correct_witness:
  "get_state demo_breaker = OPEN
   \<and> get_state (snd (snd (breaker_execute 200 201 (\<lambda>s. (Inr (Inr ()), s + 1)) (0 :: nat) demo_breaker))) = CLOSED
   \<and> get_state (snd (snd (breaker_execute 200 201 (\<lambda>s. (Inl Bad_variant_access, s + 1) :: unit Result throws \<times> nat) (0 :: nat) demo_breaker)))
      = HALF_OPEN"
proof -
  have op: "get_state demo_breaker = OPEN"
    using breaker_correct [OF demo_breaker_history, of 0 0 "\<lambda>s. (Inr (Inr ()), s + 1)" "0 :: nat"] by simp
  then have "breaker_admits 200 demo_breaker"
    using breaker_correct [OF demo_breaker_history, of 200 0 "\<lambda>s. (Inr (Inr ()), s + 1)" "0 :: nat"] by simp
  then show ?thesis
    using op breaker_correct [OF demo_breaker_history, of 200 201 "\<lambda>s. (Inr (Inr ()), s + 1)" "0 :: nat"]
      breaker_correct [OF demo_breaker_history, of 200 201 "\<lambda>s. (Inl Bad_variant_access, s + 1) :: unit Result throws \<times> nat" "0 :: nat"]
    by (auto simp: case_prod_unfold Let_def has_value_def call_outcome_of_def)
qed

subsection \<open>Error tracker\<close>

record ErrorTracker =
  et_error_counts :: "(ErrorCode \<times> int) list"
  et_total_errors :: int
  et_total_successes :: int

definition error_tracker :: ErrorTracker where
  "error_tracker = \<lparr> et_error_counts = [], et_total_errors = 0, et_total_successes = 0 \<rparr>"

definition get_error_count :: "ErrorCode \<Rightarrow> ErrorTracker \<Rightarrow> int" where
  "get_error_count code e = (case um_lookup (et_error_counts e) code of None \<Rightarrow> 0 | Some n \<Rightarrow> n)"

text \<open>\<open>error_counts_[code]\<close> inserts a zero for a new code, which is then incremented.\<close>

definition record_error :: "ErrorCode \<Rightarrow> ErrorTracker \<Rightarrow> ErrorTracker" where
  "record_error code e =
     e\<lparr>et_error_counts := um_insert code (get_error_count code e + 1) (et_error_counts e),
       et_total_errors := et_total_errors e + 1\<rparr>"

definition tracker_record_success :: "ErrorTracker \<Rightarrow> ErrorTracker" where
  "tracker_record_success e = e\<lparr>et_total_successes := et_total_successes e + 1\<rparr>"

definition get_error_rate :: "ErrorTracker \<Rightarrow> f64" where
  "get_error_rate e =
     (let total_calls = et_total_errors e + et_total_successes e in
      if 0 < total_calls then f64_div (f64_of_int (et_total_errors e)) (f64_of_int total_calls) else Fin 0)"

definition tracker_reset :: "ErrorTracker \<Rightarrow> ErrorTracker" where
  "tracker_reset e = e\<lparr>et_error_counts := [], et_total_errors := 0, et_total_successes := 0\<rparr>"

datatype tracker_call = Record_Error ErrorCode | Record_Success

fun tracker_run :: "tracker_call list \<Rightarrow> ErrorTracker \<Rightarrow> ErrorTracker" where
  "tracker_run [] e = e"
| "tracker_run (Record_Error c # cs) e = tracker_run cs (record_error c e)"
| "tracker_run (Record_Success # cs) e = tracker_run cs (tracker_record_success e)"

lemma tracker_run_counts:
  "distinct_keys (et_error_counts e) \<Longrightarrow>
    get_error_count c (tracker_run cs e) = get_error_count c e + int (count_list cs (Record_Error c))
    \<and> et_total_errors (tracker_run cs e) = et_total_errors e + int (length (filter (\<lambda>x. x \<noteq> Record_Success) cs))
    \<and> et_total_successes (tracker_run cs e) = et_total_successes e + int (count_list cs Record_Success)"
proof (induction cs e rule: tracker_run.induct)
  case (2 d cs e)
  have "distinct_keys (et_error_counts (record_error d e))"
    using "2.prems" by (simp add: record_error_def um.invar_insert)
  moreover have "get_error_count c (record_error d e) = get_error_count c e + (if c = d then 1 else 0)"
    using "2.prems" by (simp add: get_error_count_def record_error_def um.lookup_insert)
  ultimately show ?case using "2.IH" by (simp add: record_error_def)
qed (simp_all add: tracker_record_success_def get_error_count_def)

subsection \<open>Error rate limiter\<close>

record ErrorRateLimiter =
  rl_max_error_rate :: f64
  rl_window_size :: int
  rl_error_times :: "int list"

text \<open>\<open>ms\<close> is the window in milliseconds and \<open>ticks\<close> the number of clock ticks per millisecond.\<close>

definition should_allow_operation :: "int \<Rightarrow> int \<Rightarrow> ErrorRateLimiter \<Rightarrow> bool \<times> ErrorRateLimiter" where
  "should_allow_operation ticks now l =
     (let window_start = now - rl_window_size l * ticks;
          times = dropWhile (\<lambda>x. x < window_start) (rl_error_times l);
          current_rate = f64_div (f64_of_u64 (of_nat (length times)))
            (f64_div (f64_of_int (rl_window_size l)) (Fin 1000))
      in (f64_less current_rate (rl_max_error_rate l) \<or> (current_rate = rl_max_error_rate l \<and> current_rate \<noteq> NaN),
          l\<lparr>rl_error_times := times\<rparr>))"

definition limiter_record_error :: "int \<Rightarrow> ErrorRateLimiter \<Rightarrow> ErrorRateLimiter" where
  "limiter_record_error now l = l\<lparr>rl_error_times := rl_error_times l @ [now]\<rparr>"

text \<open>The times of a steady clock are sorted, so what remains after a check is exactly the window.\<close>

lemma should_allow_window:
  "sorted (rl_error_times l) \<Longrightarrow>
    rl_error_times (snd (should_allow_operation ticks now l))
      = filter (\<lambda>x. now - rl_window_size l * ticks \<le> x) (rl_error_times l)"
proof -
  have "sorted xs \<Longrightarrow> dropWhile (\<lambda>x. x < w) xs = filter (\<lambda>x. w \<le> x) xs" for xs and w :: int
  proof (induction xs)
    case (Cons x xs)
    show ?case
    proof (cases "x < w")
      case False
      then have "\<forall>y \<in> set xs. w \<le> y" using Cons.prems by auto
      then show ?thesis using False by simp
    qed (use Cons in simp)
  qed simp
  then show "sorted (rl_error_times l) \<Longrightarrow> ?thesis" by (simp add: should_allow_operation_def Let_def)
qed

end
