(* ===== verification/Error_Services.thy ===== *)
theory Error_Services
  imports Error_Recovery
begin

text \<open>
  Results without a value, comparison, the timeout wrapper and the conversion of system errors (modules/core:
  expected.hpp, error.hpp, error_utils.hpp), and the services of the integration guide that are built on them
  (modules/core/examples/error_integration_guide.cpp). The class template for a value and its specialisation for
  \<open>void\<close> are separate code; the latter is a result whose value is \<open>()\<close>.
\<close>

subsection \<open>Results without a value\<close>

type_synonym 'e void_expected = "('e, unit) expected"

definition exp_equal :: "('e \<Rightarrow> 'e \<Rightarrow> bool) \<Rightarrow> ('a \<Rightarrow> 'a \<Rightarrow> bool) \<Rightarrow> ('e, 'a) expected \<Rightarrow> ('e, 'a) expected \<Rightarrow> bool" where
  "exp_equal eq_e eq_v a b =
     (case (a, b) of (Inr v, Inr w) \<Rightarrow> eq_v v w | (Inl e, Inl f) \<Rightarrow> eq_e e f | _ \<Rightarrow> False)"

definition void_value :: "'e void_expected \<Rightarrow> unit throws" where
  "void_value r = (if \<not> has_value r then Inl Bad_variant_access else Inr ())"

definition void_error :: "'e void_expected \<Rightarrow> 'e throws" where
  "void_error r = (case r of Inr _ \<Rightarrow> Inl Bad_variant_access | Inl e \<Rightarrow> Inr e)"

definition void_transform :: "(unit \<Rightarrow> 'b) \<Rightarrow> 'e void_expected \<Rightarrow> ('e, 'b) expected" where
  "void_transform f r = (case r of Inr _ \<Rightarrow> Inr (f ()) | Inl e \<Rightarrow> Inl e)"

definition void_transform_error :: "('e \<Rightarrow> 'f) \<Rightarrow> 'e void_expected \<Rightarrow> 'f void_expected" where
  "void_transform_error f r = (case r of Inr _ \<Rightarrow> Inr () | Inl e \<Rightarrow> Inl (f e))"

definition void_and_then :: "(unit \<Rightarrow> ('e, 'b) expected) \<Rightarrow> 'e void_expected \<Rightarrow> ('e, 'b) expected" where
  "void_and_then f r = (case r of Inr _ \<Rightarrow> f () | Inl e \<Rightarrow> Inl e)"

definition void_or_else :: "('e \<Rightarrow> 'f void_expected) \<Rightarrow> 'e void_expected \<Rightarrow> 'f void_expected" where
  "void_or_else f r = (case r of Inr _ \<Rightarrow> Inr () | Inl e \<Rightarrow> f e)"

definition void_equal :: "('e \<Rightarrow> 'e \<Rightarrow> bool) \<Rightarrow> 'e void_expected \<Rightarrow> 'e void_expected \<Rightarrow> bool" where
  "void_equal eq_e a b =
     (if has_value a \<noteq> has_value b then False
      else case (a, b) of (Inl e, Inl f) \<Rightarrow> eq_e e f | _ \<Rightarrow> True)"

text \<open>The specialisation agrees with the class template in every operation both have.\<close>

lemma void_specialisation:
  "void_value r = exp_value r" "void_error r = exp_error r" "void_transform f r = exp_transform f r"
  "void_transform_error g r = exp_transform_error g r" "void_and_then h r = and_then h r" "void_or_else k r = or_else k r"
  "void_equal eq_e r r' = exp_equal eq_e (\<lambda>_ _. True) r r'"
  by (auto simp: void_value_def void_error_def void_transform_def void_transform_error_def void_and_then_def
      void_or_else_def void_equal_def exp_equal_def expected_defs split: sum.split)

lemma exp_equal_refl_sym:
  assumes "\<And>e f. eq_e e f = (e = f)" "\<And>v w. eq_v v w = (v = w)"
  shows "exp_equal eq_e eq_v a b \<longleftrightarrow> a = b"
  by (cases a; cases b) (auto simp: exp_equal_def assms)

subsection \<open>Timeouts and system errors\<close>

text \<open>
  \<open>late\<close> tells whether the wait ran out. The future of \<open>std::async\<close> waits in its destructor for the function to
  end, so the function has run to its end in either case when the wrapper returns.
\<close>

definition with_timeout :: "bool \<Rightarrow> ('s \<Rightarrow> 'a Result \<times> 's) \<Rightarrow> 's \<Rightarrow> 'a Result \<times> 's" where
  "with_timeout late func s =
     (let (result, s') = func s
      in if late then (Inl (error_info TIMEOUT ''Operation timed out'' []), s') else (result, s'))"

lemma with_timeout_state: "snd (with_timeout late func s) = snd (func s)"
  by (simp add: with_timeout_def case_prod_unfold Let_def)

text \<open>The numbers of the errors on Linux.\<close>

definition from_std_error :: "bool \<Rightarrow> int \<Rightarrow> string \<Rightarrow> string \<Rightarrow> ErrorInfo" where
  "from_std_error system v message context =
     error_info
       (if \<not> system then UNKNOWN_ERROR
        else if v = 2 then FILE_NOT_FOUND else if v = 13 then PERMISSION_DENIED else if v = 28 then DISK_FULL
        else if v = 111 then CONNECTION_REFUSED else if v = 110 then CONNECTION_TIMEOUT else IO_ERROR)
       message context"

subsection \<open>Services of the guide\<close>

definition get_new :: "string \<Rightarrow> string Result" where
  "get_new key =
     (if key = [] then Inl (error_info INVALID_ARGUMENT ''Key cannot be empty'' [])
      else if key = ''nonexistent'' then Inl (error_info KEY_NOT_FOUND ''Key not found in storage'' [])
      else Inr ''stored_value'')"

definition verify_signature_new :: "byte_vector \<Rightarrow> byte_vector \<Rightarrow> byte_vector \<Rightarrow> bool Result" where
  "verify_signature_new data signature public_key =
     (if data = [] \<or> signature = [] \<or> public_key = [] then Inl (error_info INVALID_ARGUMENT ''Invalid input parameters'' [])
      else if length signature < 32 then Inl (error_info INVALID_SIGNATURE ''Signature too short'' [])
      else Inr True)"

definition send_message_new :: "string \<Rightarrow> byte_vector \<Rightarrow> unit Result" where
  "send_message_new peer_id message =
     (if peer_id = [] then Inl (error_info INVALID_ARGUMENT ''Peer ID cannot be empty'' [])
      else if message = [] then Inl (error_info INVALID_ARGUMENT ''Message cannot be empty'' [])
      else if 1024 * 1024 < length message then Inl (error_info MESSAGE_TOO_LARGE ''Message exceeds size limit'' [])
      else if peer_id = ''unreachable'' then Inl (error_info CONNECTION_REFUSED ''Cannot connect to peer'' [])
      else Inr ())"

record DatabaseService =
  ds_circuit_breaker :: CircuitBreaker
  ds_error_tracker :: ErrorTracker

definition lookup_user :: "string \<Rightarrow> ErrorTracker \<Rightarrow> string Result \<times> ErrorTracker" where
  "lookup_user user_id t =
     (if user_id = [] then (Inl (error_info INVALID_ARGUMENT ''User ID cannot be empty'' []), record_error INVALID_ARGUMENT t)
      else if user_id = ''nonexistent'' then (Inl (error_info KEY_NOT_FOUND ''User not found'' []), record_error KEY_NOT_FOUND t)
      else if user_id = ''db_error''
      then (Inl (error_info DATABASE_ERROR ''Database connection failed'' []), record_error DATABASE_ERROR t)
      else (Inr (''User data for '' @ user_id), tracker_record_success t))"

text \<open>Times are milliseconds of the steady clock, read before and after the lookup.\<close>

definition database_service :: "int \<Rightarrow> DatabaseService" where
  "database_service now = \<lparr> ds_circuit_breaker = circuit_breaker now 3 30000, ds_error_tracker = error_tracker \<rparr>"

definition get_user_data :: "int \<Rightarrow> int \<Rightarrow> string \<Rightarrow> DatabaseService \<Rightarrow> string Result throws \<times> DatabaseService" where
  "get_user_data now now' user_id d =
     (let (r, t, b) = breaker_execute now now' (\<lambda>t. apfst Inr (lookup_user user_id t)) (ds_error_tracker d) (ds_circuit_breaker d)
      in (r, \<lparr> ds_circuit_breaker = b, ds_error_tracker = t \<rparr>))"

text \<open>A request: the two readings of the clock and the user.\<close>

fun run_requests :: "(int \<times> int \<times> string) list \<Rightarrow> DatabaseService \<Rightarrow> DatabaseService" where
  "run_requests [] d = d"
| "run_requests ((now, now', u) # qs) d = run_requests qs (snd (get_user_data now now' u d))"

definition bad_user :: "string \<Rightarrow> bool" where
  "bad_user u \<longleftrightarrow> u \<in> {[], ''nonexistent'', ''db_error''}"

lemma lookup_user_ok: "has_value (fst (lookup_user u t)) \<longleftrightarrow> \<not> bad_user u"
  by (simp add: lookup_user_def bad_user_def has_value_def)

abbreviation service_past :: "breaker_past list \<Rightarrow> DatabaseService \<Rightarrow> bool" where
  "service_past h d \<equiv> breaker_history 3 30000 h (ds_circuit_breaker d)"

lemma new_service_past: "service_past [] (database_service now)"
  by (simp add: database_service_def breaker_history.Init)

text \<open>A request that is let through is answered from the data and enters the history with its outcome.\<close>

lemma request_past:
  assumes "service_past h d" "breaker_admits now (ds_circuit_breaker d)"
  shows "fst (get_user_data now now' u d) = Inr (fst (lookup_user u (ds_error_tracker d)))"
    "service_past (Ran (if bad_user u then Returned_Error else Returned_Value) now' # h) (snd (get_user_data now now' u d))"
proof -
  let ?f = "\<lambda>t. apfst Inr (lookup_user u t) :: string Result throws \<times> ErrorTracker"
  have "call_outcome_of (fst (?f (ds_error_tracker d))) = (if bad_user u then Returned_Error else Returned_Value)"
    using lookup_user_ok [of u "ds_error_tracker d"] by (simp add: call_outcome_of_def)
  then show "service_past (Ran (if bad_user u then Returned_Error else Returned_Value) now' # h) (snd (get_user_data now now' u d))"
    using breaker_history_execute [OF assms(1), of now now' ?f "ds_error_tracker d"] assms(2)
    by (simp add: get_user_data_def past_of_def case_prod_unfold Let_def)
  show "fst (get_user_data now now' u d) = Inr (fst (lookup_user u (ds_error_tracker d)))"
    using assms(2) by (simp add: get_user_data_def breaker_execute_def case_prod_unfold Let_def)
qed

lemma requests_past: "service_past h d \<Longrightarrow> \<exists>h'. service_past h' (run_requests qs d)"
proof (induction qs arbitrary: h d)
  case (Cons q qs)
  obtain now now' u where q: "q = (now, now', u)" by (cases q)
  have "service_past (past_of now now' (\<lambda>t. apfst Inr (lookup_user u t) :: string Result throws \<times> ErrorTracker)
      (ds_error_tracker d) (ds_circuit_breaker d) # h) (snd (get_user_data now now' u d))"
    using breaker_history_execute [OF Cons.prems] by (simp add: get_user_data_def case_prod_unfold Let_def)
  then show ?case using Cons.IH by (simp add: q)
qed auto

lemma closed_admits: "service_past h d \<Longrightarrow> failures_in_a_row h < 3 \<Longrightarrow> breaker_admits now (ds_circuit_breaker d)"
  using breaker_history_inv [of 3 30000 h "ds_circuit_breaker d"] by (auto simp: breaker_inv_def breaker_admits_def)

text \<open>A service that is new or whose last request was answered from the data.\<close>

definition service_up :: "DatabaseService \<Rightarrow> bool" where
  "service_up d \<longleftrightarrow> (\<exists>start. d = database_service start)
     \<or> (\<exists>before start a b u v. let d' = run_requests before (database_service start) in
          get_user_data a b u d' = (Inr (Inr v), d))"

lemma service_up_past:
  assumes "service_up d"
  shows "\<exists>h. service_past h d \<and> failures_in_a_row h = 0"
proof (cases "\<exists>start. d = database_service start")
  case True
  then show ?thesis using new_service_past by (auto intro!: exI [of _ "[]"])
next
  case False
  then obtain before start a b u v d' where d': "d' = run_requests before (database_service start)"
    and g: "get_user_data a b u d' = (Inr (Inr v), d)"
    using assms by (auto simp: service_up_def Let_def)
  obtain h where h: "service_past h d'" using requests_past [OF new_service_past] d' by blast
  have ad: "breaker_admits a (ds_circuit_breaker d')"
    using g by (auto simp: get_user_data_def breaker_execute_def case_prod_unfold Let_def split: if_splits)
  have "fst (lookup_user u (ds_error_tracker d')) = Inr v" using request_past(1) [OF h ad, of b u] g by simp
  then have "\<not> bad_user u" using lookup_user_ok [of u "ds_error_tracker d'"] by (simp add: has_value_def)
  then have "service_past (Ran Returned_Value b # h) d" using request_past(2) [OF h ad, where now' = b and u = u] g by simp
  then show ?thesis by (intro exI [of _ "Ran Returned_Value b # h"]) simp
qed

lemma three_bad_requests:
  assumes "service_up d" "bad_user u1" "bad_user u2" "bad_user u3"
    and "d1 = snd (get_user_data a1 b1 u1 d)" "d2 = snd (get_user_data a2 b2 u2 d1)" "d3 = snd (get_user_data a3 b3 u3 d2)"
  shows "fst (get_user_data a1 b1 u1 d) = Inr (fst (lookup_user u1 (ds_error_tracker d)))"
    "fst (get_user_data a2 b2 u2 d1) = Inr (fst (lookup_user u2 (ds_error_tracker d1)))"
    "fst (get_user_data a3 b3 u3 d2) = Inr (fst (lookup_user u3 (ds_error_tracker d2)))"
    "\<exists>h. service_past (Ran Returned_Error b3 # h) d3 \<and> failures_in_a_row h = 2"
proof -
  obtain h where h: "service_past h d" "failures_in_a_row h = 0" using service_up_past [OF assms(1)] by blast
  note r1 = request_past [OF h(1) closed_admits [OF h(1), of a1], where now' = b1 and u = u1]
  have p1: "service_past (Ran Returned_Error b1 # h) d1" using r1(2) h(2) assms(2,5) by simp
  note r2 = request_past [OF p1 closed_admits [OF p1, of a2], where now' = b2 and u = u2]
  have p2: "service_past (Ran Returned_Error b2 # Ran Returned_Error b1 # h) d2" using r2(2) h(2) assms(3,6) by simp
  note r3 = request_past [OF p2 closed_admits [OF p2, of a3], where now' = b3 and u = u3]
  have "service_past (Ran Returned_Error b3 # Ran Returned_Error b2 # Ran Returned_Error b1 # h) d3"
    using r3(2) h(2) assms(4,7) by simp
  then show "\<exists>h. service_past (Ran Returned_Error b3 # h) d3 \<and> failures_in_a_row h = 2"
    using h(2) by (intro exI [of _ "Ran Returned_Error b2 # Ran Returned_Error b1 # h"]) simp
  show "fst (get_user_data a1 b1 u1 d) = Inr (fst (lookup_user u1 (ds_error_tracker d)))" using r1(1) h(2) by simp
  show "fst (get_user_data a2 b2 u2 d1) = Inr (fst (lookup_user u2 (ds_error_tracker d1)))" using r2(1) h(2) by simp
  show "fst (get_user_data a3 b3 u3 d2) = Inr (fst (lookup_user u3 (ds_error_tracker d2)))" using r3(1) h(2) by simp
qed

text \<open>
  C29. One client can shut the service for all. On a service that is new or whose last request was answered, whatever came
  before, three requests in a row that are only mistaken, for an empty or an unknown user, are each answered
  with their own error, and from then on, until thirty seconds have passed since the third failed (the reading
  \<open>b3\<close> of the clock), every request for every user is refused with \<open>SERVICE_UNAVAILABLE\<close> without looking at the
  data and changes nothing, whatever requests for whatever users are made in between.
\<close>

theorem bad_requests_shut_service:
  assumes "service_up d" "bad_user u1" "bad_user u2" "bad_user u3"
    and "d1 = snd (get_user_data a1 b1 u1 d)" "d2 = snd (get_user_data a2 b2 u2 d1)" "d3 = snd (get_user_data a3 b3 u3 d2)"
    and "list_all (\<lambda>(now, now', u). now < b3 + 30000) qs" "now < b3 + 30000"
  shows "fst (get_user_data a1 b1 u1 d) = Inr (fst (lookup_user u1 (ds_error_tracker d)))
    \<and> fst (get_user_data a2 b2 u2 d1) = Inr (fst (lookup_user u2 (ds_error_tracker d1)))
    \<and> fst (get_user_data a3 b3 u3 d2) = Inr (fst (lookup_user u3 (ds_error_tracker d2)))
    \<and> get_user_data now now' u (run_requests qs d3)
        = (Inr (Inl (error_info SERVICE_UNAVAILABLE ''Circuit breaker is open'' [])), d3)"
proof -
  note three = three_bad_requests [OF assms(1-7)]
  obtain h where h: "service_past (Ran Returned_Error b3 # h) d3" "failures_in_a_row h = 2" using three(4) by blast
  then have "cb_state (ds_circuit_breaker d3) = OPEN" "cb_last_failure_time (ds_circuit_breaker d3) = b3"
    "cb_timeout (ds_circuit_breaker d3) = 30000"
    using breaker_history_inv [OF h(1)] by (simp_all add: breaker_inv_def)
  then have refused: "get_user_data x y v d3
      = (Inr (Inl (error_info SERVICE_UNAVAILABLE ''Circuit breaker is open'' [])), d3)" if "x < b3 + 30000" for x y v
    using that by (simp add: get_user_data_def breaker_execute_def breaker_admits_def)
  from assms(8) have "run_requests qs d3 = d3"
  proof (induction qs)
    case (Cons q qs)
    then show ?case by (cases q) (simp add: refused)
  qed simp
  then show ?thesis using three(1-3) refused [OF assms(9)] by simp
qed

theorem bad_requests_shut_service_witness:
  "\<exists>d3. d3 = run_requests [(1, 1, []), (2, 2, ''nonexistent''), (3, 3, [])] (database_service 0)
    \<and> fst (get_user_data 30002 30002 ''alice'' d3) = Inr (Inl (error_info SERVICE_UNAVAILABLE ''Circuit breaker is open'' []))"
proof -
  let ?d1 = "snd (get_user_data 1 1 [] (database_service 0))"
  let ?d2 = "snd (get_user_data 2 2 ''nonexistent'' ?d1)"
  let ?d3 = "snd (get_user_data 3 3 [] ?d2)"
  have "service_up (database_service 0)" by (auto simp: service_up_def)
  moreover have "bad_user []" "bad_user ''nonexistent''" by (simp_all add: bad_user_def)
  ultimately show ?thesis
    using bad_requests_shut_service [of "database_service 0" "[]" "''nonexistent''" "[]" ?d1 1 1 ?d2 2 2 ?d3 3 3 "[]" 30002 30002 "''alice''"]
    by simp
qed

end
