(* ===== verification/Error_Retry.thy ===== *)
theory Error_Retry
  imports Error_Recovery
begin

text \<open>
  The retries of error_utils.hpp with their pauses. Durations are whole milliseconds; the next one is computed in
  \<open>double\<close> and converted back to \<open>long long\<close>, which is undefined out of range: then the function has no result.
  A run gives the result, the state of the function and the pauses that were slept.
\<close>

fun f64_to_i64 :: "f64 \<Rightarrow> int option" where
  "f64_to_i64 (Fin q) =
     (let t = (if 0 \<le> q then \<lfloor>q\<rfloor> else \<lceil>q\<rceil>) in if - (2 ^ 63) \<le> t \<and> t < 2 ^ 63 then Some t else None)"
| "f64_to_i64 _ = None"

definition scaled_delay :: "int \<Rightarrow> f64 \<Rightarrow> int option" where
  "scaled_delay delay factor = f64_to_i64 (f64_mul (f64_of_int delay) factor)"

abbreviation retry_failed :: ErrorInfo where
  "retry_failed \<equiv> error_info TIMEOUT ''Operation failed after maximum retry attempts'' ''''"

type_synonym ('s, 'a) retried = "'a Result option \<times> 's \<times> int list"

text \<open>The loop with \<open>Suc n\<close> attempts left; after the last one there is no pause.\<close>

fun backoff_loop :: "nat \<Rightarrow> int \<Rightarrow> f64 \<Rightarrow> ('s \<Rightarrow> 'a Result \<times> 's) \<Rightarrow> 's \<Rightarrow> ('s, 'a) retried" where
  "backoff_loop 0 delay multiplier func s = (Some (Inl retry_failed), s, [])"
| "backoff_loop (Suc n) delay multiplier func s =
     (let (result, s1) = func s
      in if has_value result then (Some result, s1, [])
         else if n = 0 then (Some (Inl retry_failed), s1, [])
         else case scaled_delay delay multiplier of
                None \<Rightarrow> (None, s1, [delay])
              | Some delay' \<Rightarrow> (let (r, s2, ps) = backoff_loop n delay' multiplier func s1 in (r, s2, delay # ps)))"

definition retry_with_backoff :: "int \<Rightarrow> int \<Rightarrow> f64 \<Rightarrow> ('s \<Rightarrow> 'a Result \<times> 's) \<Rightarrow> 's \<Rightarrow> ('s, 'a) retried" where
  "retry_with_backoff max_attempts initial_delay multiplier func s =
     backoff_loop (nat max_attempts) initial_delay multiplier func s"

text \<open>\<open>dis i\<close> is the \<open>i\<close>-th draw from the interval around 1 that the jitter factor gives.\<close>

fun jitter_loop :: "nat \<Rightarrow> int \<Rightarrow> (nat \<Rightarrow> f64) \<Rightarrow> ('s \<Rightarrow> 'a Result \<times> 's) \<Rightarrow> 's \<Rightarrow> ('s, 'a) retried" where
  "jitter_loop 0 base_delay dis func s = (Some (Inl retry_failed), s, [])"
| "jitter_loop (Suc n) base_delay dis func s =
     (let (result, s1) = func s
      in if has_value result then (Some result, s1, [])
         else if n = 0 then (Some (Inl retry_failed), s1, [])
         else case scaled_delay base_delay (dis 0) of
                None \<Rightarrow> (None, s1, [])
              | Some delay \<Rightarrow> (let (r, s2, ps) = jitter_loop n base_delay (dis \<circ> Suc) func s1 in (r, s2, delay # ps)))"

definition retry_with_jitter :: "int \<Rightarrow> int \<Rightarrow> (nat \<Rightarrow> f64) \<Rightarrow> ('s \<Rightarrow> 'a Result \<times> 's) \<Rightarrow> 's \<Rightarrow> ('s, 'a) retried" where
  "retry_with_jitter max_attempts base_delay dis func s = jitter_loop (nat max_attempts) base_delay dis func s"

subsection \<open>Without the pauses\<close>

text \<open>Either loop runs the attempts of the reference loop, whenever it returns.\<close>

lemma backoff_refines:
  "backoff_loop n delay multiplier func s = (Some r, s', ps) \<Longrightarrow> retry_loop n func s = (r, s') \<and> length ps \<le> n - 1"
proof (induction n arbitrary: delay s ps)
  case (Suc n)
  obtain result s1 where f: "func s = (result, s1)" by (cases "func s")
  show ?case
  proof (cases "has_value result \<or> n = 0")
    case False
    with Suc.prems obtain d where d: "scaled_delay delay multiplier = Some d" by (auto simp: f split: option.splits)
    obtain r2 s2 ps2 where l: "backoff_loop n d multiplier func s1 = (r2, s2, ps2)" by (metis surj_pair)
    with Suc.prems False d have "r2 = Some r" "s2 = s'" "length ps = Suc (length ps2)" by (auto simp: f)
    moreover from l this(1,2) Suc.IH have "retry_loop n func s1 = (r, s') \<and> length ps2 \<le> n - 1" by blast
    ultimately show ?thesis using False by (auto simp: f)
  qed (use Suc.prems in \<open>auto simp: f\<close>)
qed simp

lemma jitter_refines:
  "jitter_loop n base dis func s = (Some r, s', ps) \<Longrightarrow> retry_loop n func s = (r, s') \<and> length ps \<le> n - 1"
proof (induction n arbitrary: dis s ps)
  case (Suc n)
  obtain result s1 where f: "func s = (result, s1)" by (cases "func s")
  show ?case
  proof (cases "has_value result \<or> n = 0")
    case False
    with Suc.prems obtain d where d: "scaled_delay base (dis 0) = Some d" by (auto simp: f split: option.splits)
    obtain r2 s2 ps2 where l: "jitter_loop n base (dis \<circ> Suc) func s1 = (r2, s2, ps2)" by (metis surj_pair)
    with Suc.prems False d have "r2 = Some r" "s2 = s'" "length ps = Suc (length ps2)" by (auto simp: f)
    moreover from l this(1,2) Suc.IH have "retry_loop n func s1 = (r, s') \<and> length ps2 \<le> n - 1" by blast
    ultimately show ?thesis using False by (auto simp: f)
  qed (use Suc.prems in \<open>auto simp: f\<close>)
qed simp

subsection \<open>The pauses\<close>

lemma scaled_delay_nat:
  assumes "d * m < 2 ^ 53" "d < 2 ^ 53"
  shows "scaled_delay (int d) (Fin (of_nat m)) = Some (int (d * m))"
proof -
  have "f64_of_int (int d) = Fin (of_nat d)" using round64_nat [OF assms(2)] by (simp add: f64_of_int_def)
  moreover have "round64 (of_nat d * of_nat m) = Fin (of_nat (d * m))" using round64_nat [OF assms(1)] by simp
  moreover have "int (d * m) < 2 ^ 63" using assms(1) by (simp flip: of_nat_mult)
  ultimately show ?thesis by (simp add: scaled_delay_def floor_of_nat flip: of_nat_mult)
qed

lemma backoff_loop_pauses:
  assumes "d * m ^ n < 2 ^ 53" "0 < m"
  shows "\<exists>r s' k. backoff_loop n (int d) (Fin (of_nat m)) func s = (Some r, s', map (\<lambda>i. int (d * m ^ i)) [0..<k])
    \<and> k \<le> n - 1 \<and> (\<forall>i<k. \<not> attempt_ok func s i) \<and> (k < n - 1 \<longrightarrow> attempt_ok func s k)"
  using assms(1)
proof (induction n arbitrary: d s)
  case (Suc n)
  obtain result s1 where f: "func s = (result, s1)" by (cases "func s")
  have ok: "attempt_ok func s 0 = has_value result" "attempt_ok func s (Suc i) = attempt_ok func s1 i" for i
    by (simp_all add: attempt_ok_Suc f) (simp add: attempt_ok_def f)
  show ?case
  proof (cases "has_value result \<or> n = 0")
    case True
    then show ?thesis using ok(1) f by (intro exI [of _ "if has_value result then result else Inl retry_failed"] exI [of _ s1] exI [of _ 0]) auto
  next
    case False
    have p: "(d * m) * m ^ n < 2 ^ 53" using Suc.prems by (simp add: mult.assoc)
    have "d * m * 1 \<le> d * m * m ^ n" using assms(2) by (intro mult_le_mono2) simp
    from le_less_trans [OF this p] have dm: "d * m < 2 ^ 53" by simp
    have "d * 1 \<le> d * m" using assms(2) by (intro mult_le_mono2) simp
    from le_less_trans [OF this dm] have "d < 2 ^ 53" by simp
    from scaled_delay_nat [OF dm this] have sc: "scaled_delay (int d) (Fin (of_nat m)) = Some (int (d * m))" .
    obtain r s' k where k: "backoff_loop n (int (d * m)) (Fin (of_nat m)) func s1 = (Some r, s', map (\<lambda>i. int (d * m * m ^ i)) [0..<k])"
      "k \<le> n - 1" "\<forall>i<k. \<not> attempt_ok func s1 i" "k < n - 1 \<longrightarrow> attempt_ok func s1 k"
      using Suc.IH [OF p, of s1] by blast
    have "map (\<lambda>i. int (d * m ^ i)) [0..<Suc k] = int d # map (\<lambda>i. int (d * m * m ^ i)) [0..<k]"
      by (simp add: upt_conv_Cons [OF zero_less_Suc] map_Suc_upt [symmetric] mult.assoc del: upt_Suc)
    then have "backoff_loop (Suc n) (int d) (Fin (of_nat m)) func s = (Some r, s', map (\<lambda>i. int (d * m ^ i)) [0..<Suc k])"
      using False k(1) by (simp add: f sc Let_def del: upt_Suc)
    moreover have "\<forall>i<Suc k. \<not> attempt_ok func s i" using k(3) ok False by (simp add: All_less_Suc2)
    ultimately show ?thesis using k(2,4) ok False by (intro exI [of _ r] exI [of _ s'] exI [of _ "Suc k"]) auto
  qed
qed simp

lemma geometric_pauses: "sum_list (map (\<lambda>i. int (d * m ^ i)) [0..<k]) * (int m - 1) = int d * (int m ^ k - 1)"
  by (induction k) (simp_all add: algebra_simps)

text \<open>
  C16. The pauses of \<open>retry_with_backoff\<close>: with a whole multiplier \<open>m\<close>, as long as \<open>d m^n\<close> stays below \<open>2^53\<close>, at most
  \<open>n\<close> attempts are made, exactly those of the reference loop, and the call returns. The pauses are
  \<open>d, d m, d m^2\<close> and so on, one after every failed attempt but the last, and none after a success; together they are
  a geometric sum, at most \<open>d (m^(n-1) - 1) / (m - 1)\<close> milliseconds.
\<close>

theorem backoff_bounds:
  assumes "d * m ^ n < 2 ^ 53" "0 < m"
  shows "\<exists>r s' k. retry_with_backoff (int n) (int d) (Fin (of_nat m)) func s
      = (Some r, s', map (\<lambda>i. int (d * m ^ i)) [0..<k])
    \<and> retry_loop n func s = (r, s') \<and> k \<le> n - 1
    \<and> (\<forall>i<k. \<not> attempt_ok func s i) \<and> (k < n - 1 \<longrightarrow> attempt_ok func s k)
    \<and> sum_list (map (\<lambda>i. int (d * m ^ i)) [0..<k]) * (int m - 1) = int d * (int m ^ k - 1)"
proof -
  from backoff_loop_pauses [OF assms, of func s] obtain r s' k where
    k: "backoff_loop n (int d) (Fin (of_nat m)) func s = (Some r, s', map (\<lambda>i. int (d * m ^ i)) [0..<k])
      \<and> k \<le> n - 1 \<and> (\<forall>i<k. \<not> attempt_ok func s i) \<and> (k < n - 1 \<longrightarrow> attempt_ok func s k)"
    by (elim exE) (rule that)
  have "retry_loop n func s = (r, s')" using backoff_refines [OF conjunct1 [OF k]] by (rule conjunct1)
  moreover note geometric_pauses [of d m k]
  ultimately show ?thesis
    using k unfolding retry_with_backoff_def nat_int by (intro exI [of _ r] exI [of _ s'] exI [of _ k]) iprover
qed

theorem backoff_bounds_witness:
  "\<exists>r s' k. retry_with_backoff 5 100 (Fin 2) (\<lambda>c::nat. (Inl retry_failed :: nat Result, Suc c)) 0
    = (Some r, s', map (\<lambda>i. int (100 * 2 ^ i)) [0..<k]) \<and> k \<le> 4"
  using backoff_bounds [of 100 2 5 "\<lambda>c::nat. (Inl retry_failed :: nat Result, Suc c)" 0] by auto

text \<open>A multiplier that leaves the range of \<open>long long\<close> leaves the second pause undefined.\<close>

lemma backoff_undefined:
  "retry_with_backoff 3 1 (Fin (2 ^ 64)) (\<lambda>c. (Inl retry_failed :: nat Result, Suc c)) 0 = (None, 1, [1])"
proof -
  have "fl (2 ^ 64) = 2 ^ 64" using fl_evalI [of 64 "2 ^ 64" "2 ^ 52"] by (simp add: power_int_minus)
  then have "round64 18446744073709551616 = Fin 18446744073709551616" by (simp add: round64_def)
  moreover have "round64 1 = Fin 1" using round64_nat [of 1] by simp
  ultimately have "scaled_delay 1 (Fin (2 ^ 64)) = None" by (simp add: scaled_delay_def f64_of_int_def)
  moreover have "nat 3 = Suc (Suc (Suc 0))" by simp
  ultimately show ?thesis by (simp add: retry_with_backoff_def has_value_def del: nat_numeral)
qed

end
