(* ===== verification/Simple_Metrics.thy ===== *)
theory Simple_Metrics
  imports Containers Float64 Core_Amount
begin

text \<open>
  Counters, gauges, histograms and their registry (modules/metrics: simple_metrics.hpp, simple_metrics.cpp, and
  the counter wrapper of counter.cpp). The registry maps names to shared objects: an object is an index into
  the heap of objects of its kind, so that what happens through one pointer is seen through the others. Every
  operation is atomic: objects consist of atomic numbers and the registry holds its mutex.
\<close>

subsection \<open>Numbers\<close>

fun f64_neg :: "f64 \<Rightarrow> f64" where
  "f64_neg (Fin q) = Fin (- q)"
| "f64_neg PInf = NInf"
| "f64_neg NInf = PInf"
| "f64_neg NaN = NaN"

definition f64_le :: "f64 \<Rightarrow> f64 \<Rightarrow> bool" where
  "f64_le a b \<longleftrightarrow> a \<noteq> NaN \<and> b \<noteq> NaN \<and> a \<le> b"

text \<open>
  \<open>operator<<\<close> for \<open>double\<close>: six significant digits without trailing zeros, with an exponent when the number is below
  \<open>1e-4\<close> or not below \<open>1e6\<close>. \<open>decimal_parts\<close> are the digits as a number of six digits, and the exponent.
\<close>

definition decimal_exponent :: "rat \<Rightarrow> int" where
  "decimal_exponent q =
     (case quotient_of q of (n, d) \<Rightarrow>
        (let k = int (length (dec_string (nat n))) - int (length (dec_string (nat d)))
         in if 10 powi k \<le> q then k else k - 1))"

definition decimal_parts :: "rat \<Rightarrow> nat \<times> int" where
  "decimal_parts q =
     (let x = decimal_exponent q; m = nat (rne (q / 10 powi (x - 5)))
      in if m = 1000000 then (100000, x + 1) else (m, x))"

definition with_point :: "string \<Rightarrow> string \<Rightarrow> string" where
  "with_point w fr = (if strip_zeros fr = [] then w else w @ ''.'' @ strip_zeros fr)"

definition show_positive :: "rat \<Rightarrow> string" where
  "show_positive q =
     (let (m, x) = decimal_parts q; ds = dec_string m
      in if x < - 4 \<or> 6 \<le> x then
           with_point (take 1 ds) (drop 1 ds) @ ''e'' @ (if x < 0 then ''-'' else ''+'')
             @ (if \<bar>x\<bar> < 10 then ''0'' else []) @ dec_string (nat \<bar>x\<bar>)
         else if 0 \<le> x then with_point (take (nat x + 1) ds) (drop (nat x + 1) ds)
         else with_point ''0'' (replicate (nat (- x) - 1) CHR ''0'' @ ds))"

fun show_double :: "f64 \<Rightarrow> string" where
  "show_double (Fin q) =
     (if q = 0 then ''0'' else if 0 < q then show_positive q else ''-'' @ show_positive (- q))"
| "show_double PInf = ''inf''"
| "show_double NInf = ''-inf''"
| "show_double NaN = ''nan''"

subsection \<open>Counters and gauges\<close>

definition counter_increment :: "f64 \<Rightarrow> f64" where
  "counter_increment c = f64_add c (Fin 1)"

definition counter_add :: "f64 \<Rightarrow> f64 \<Rightarrow> f64" where
  "counter_add v c = (if f64_le (Fin 0) v then f64_add c v else c)"

text \<open>The wrapper refuses a negative increment; one that is not a number is passed on and ignored.\<close>

definition checked_counter_add :: "f64 \<Rightarrow> f64 \<Rightarrow> f64 throws" where
  "checked_counter_add v c =
     (if f64_less v (Fin 0) then Inl (Invalid_argument ''Counter increment value must be non-negative'')
      else Inr (counter_add v c))"

definition gauge_increment :: "f64 \<Rightarrow> f64 \<Rightarrow> f64" where
  "gauge_increment v g = f64_add g v"

definition gauge_decrement :: "f64 \<Rightarrow> f64 \<Rightarrow> f64" where
  "gauge_decrement v g = f64_add g (f64_neg v)"

subsection \<open>Histograms\<close>

record SimpleHistogram =
  hg_buckets :: "f64 list"
  hg_bucket_counts :: "(f64 \<times> u64) list"
  hg_count :: u64
  hg_sum :: f64

definition default_buckets :: "f64 list" where
  "default_buckets = map round64 [1 / 1000, 1 / 100, 1 / 10, 1, 10, 100, 1000]"

definition simple_histogram :: "f64 list \<Rightarrow> SimpleHistogram" where
  "simple_histogram buckets =
     (let bs = sort (if buckets = [] then default_buckets else buckets)
      in \<lparr> hg_buckets = bs, hg_bucket_counts = fold (\<lambda>b. um_insert b 0) bs [], hg_count = 0, hg_sum = Fin 0 \<rparr>)"

definition count_bucket :: "f64 \<Rightarrow> (f64 \<times> u64) list \<Rightarrow> (f64 \<times> u64) list" where
  "count_bucket b m = um_insert b ((case um_lookup m b of None \<Rightarrow> 0 | Some n \<Rightarrow> n) + 1) m"

definition observe :: "f64 \<Rightarrow> SimpleHistogram \<Rightarrow> SimpleHistogram" where
  "observe v h =
     h\<lparr>hg_count := hg_count h + 1, hg_sum := f64_add (hg_sum h) v,
       hg_bucket_counts := fold (\<lambda>b m. if f64_le v b then count_bucket b m else m) (hg_buckets h) (hg_bucket_counts h)\<rparr>"

subsection \<open>Registry\<close>

record SimpleRegistry =
  sr_counters :: "(string \<times> nat) list"
  sr_gauges :: "(string \<times> nat) list"
  sr_histograms :: "(string \<times> nat) list"

record metric_heap =
  mh_counters :: "f64 list"
  mh_gauges :: "f64 list"
  mh_histograms :: "SimpleHistogram list"

definition find_or_make :: "'a \<Rightarrow> string \<Rightarrow> (string \<times> nat) list \<times> 'a list \<Rightarrow> nat \<times> (string \<times> nat) list \<times> 'a list" where
  "find_or_make x name s =
     (case um_lookup (fst s) name of
        Some i \<Rightarrow> (i, s)
      | None \<Rightarrow> (length (snd s), um_insert name (length (snd s)) (fst s), snd s @ [x]))"

definition get_counter :: "string \<Rightarrow> SimpleRegistry \<times> metric_heap \<Rightarrow> nat \<times> SimpleRegistry \<times> metric_heap" where
  "get_counter name s =
     (let (i, m, xs) = find_or_make (Fin 0) name (sr_counters (fst s), mh_counters (snd s))
      in (i, (fst s)\<lparr>sr_counters := m\<rparr>, (snd s)\<lparr>mh_counters := xs\<rparr>))"

definition get_gauge :: "string \<Rightarrow> SimpleRegistry \<times> metric_heap \<Rightarrow> nat \<times> SimpleRegistry \<times> metric_heap" where
  "get_gauge name s =
     (let (i, m, xs) = find_or_make (Fin 0) name (sr_gauges (fst s), mh_gauges (snd s))
      in (i, (fst s)\<lparr>sr_gauges := m\<rparr>, (snd s)\<lparr>mh_gauges := xs\<rparr>))"

definition get_histogram ::
  "string \<Rightarrow> f64 list \<Rightarrow> SimpleRegistry \<times> metric_heap \<Rightarrow> nat \<times> SimpleRegistry \<times> metric_heap" where
  "get_histogram name buckets s =
     (let (i, m, xs) = find_or_make (simple_histogram buckets) name (sr_histograms (fst s), mh_histograms (snd s))
      in (i, (fst s)\<lparr>sr_histograms := m\<rparr>, (snd s)\<lparr>mh_histograms := xs\<rparr>))"

definition registry_clear :: "SimpleRegistry \<times> metric_heap \<Rightarrow> SimpleRegistry \<times> metric_heap" where
  "registry_clear s = (\<lparr> sr_counters = [], sr_gauges = [], sr_histograms = [] \<rparr>, snd s)"

definition metrics_count :: "SimpleRegistry \<Rightarrow> nat" where
  "metrics_count r = length (sr_counters r) + length (sr_gauges r) + length (sr_histograms r)"

definition by_name :: "(string \<times> 'a) list \<Rightarrow> (string \<times> 'a) list" where
  "by_name m = sort_key (\<lambda>p. map (of_char :: char \<Rightarrow> nat) (fst p)) m"

definition export_histogram :: "string \<Rightarrow> SimpleHistogram \<Rightarrow> string list" where
  "export_histogram name h =
     [''# TYPE '' @ name @ '' histogram'']
     @ map (\<lambda>(b, n). name @ ''_bucket{le='' @ [CHR 0x22] @ show_double b @ [CHR 0x22] @ ''} '' @ dec_string (unat n))
         (sort_key fst (hg_bucket_counts h))
     @ [name @ ''_bucket{le='' @ [CHR 0x22] @ ''+Inf'' @ [CHR 0x22] @ ''} '' @ dec_string (unat (hg_count h)),
        name @ ''_count '' @ dec_string (unat (hg_count h)),
        name @ ''_sum '' @ show_double (hg_sum h)]"

text \<open>The exported text as its lines.\<close>

definition export_metrics :: "SimpleRegistry \<times> metric_heap \<Rightarrow> string list" where
  "export_metrics s =
     concat (map (\<lambda>(name, i). [''# TYPE '' @ name @ '' counter'', name @ '' '' @ show_double (mh_counters (snd s) ! i)])
       (by_name (sr_counters (fst s))))
     @ concat (map (\<lambda>(name, i). [''# TYPE '' @ name @ '' gauge'', name @ '' '' @ show_double (mh_gauges (snd s) ! i)])
       (by_name (sr_gauges (fst s))))
     @ concat (map (\<lambda>(name, i). export_histogram name (mh_histograms (snd s) ! i)) (by_name (sr_histograms (fst s))))"

subsection \<open>Histograms count cumulatively\<close>

definition bucket_count :: "SimpleHistogram \<Rightarrow> f64 \<Rightarrow> u64 option" where
  "bucket_count h b = um_lookup (hg_bucket_counts h) b"

lemma fold_count_bucket:
  "distinct_keys m \<Longrightarrow>
   distinct_keys (fold (\<lambda>b m. if f64_le v b then count_bucket b m else m) bs m)
   \<and> um_lookup (fold (\<lambda>b m. if f64_le v b then count_bucket b m else m) bs m) b =
     (if f64_le v b \<and> b \<in> set bs
      then Some ((case um_lookup m b of None \<Rightarrow> 0 | Some n \<Rightarrow> n) + of_nat (count_list bs b)) else um_lookup m b)"
proof (induction bs arbitrary: m)
  case (Cons c bs)
  let ?m = "if f64_le v c then count_bucket c m else m"
  have d: "distinct_keys ?m" using Cons.prems by (simp add: count_bucket_def um.invar_insert)
  have l: "um_lookup ?m b = (if f64_le v c \<and> b = c then Some ((case um_lookup m b of None \<Rightarrow> 0 | Some n \<Rightarrow> n) + 1)
      else um_lookup m b)"
    using Cons.prems by (simp add: count_bucket_def um.lookup_insert)
  show ?case using Cons.IH [OF d] l count_notin [of b bs] by (auto split: option.splits)
qed simp

lemma fold_zero_buckets:
  "distinct_keys m \<Longrightarrow>
   distinct_keys (fold (\<lambda>b. um_insert b 0) bs m)
   \<and> um_lookup (fold (\<lambda>b. um_insert b 0) bs m) b = (if b \<in> set bs then Some (0 :: u64) else um_lookup m b)"
  by (induction bs arbitrary: m) (auto simp: um.lookup_insert um.invar_insert)

definition histogram_inv :: "f64 list \<Rightarrow> f64 list \<Rightarrow> SimpleHistogram \<Rightarrow> bool" where
  "histogram_inv bs vs h \<longleftrightarrow> hg_buckets h = sort bs \<and> distinct_keys (hg_bucket_counts h) \<and> hg_count h = of_nat (length vs)
     \<and> (\<forall>b. bucket_count h b =
          (if b \<in> set bs then Some (of_nat (count_list bs b * length (filter (\<lambda>v. f64_le v b) vs))) else None))"

lemma count_list_sort [simp]: "count_list (sort bs) b = count_list bs b"
  by (metis count_mset mset_sort)

lemma simple_histogram_inv: "bs \<noteq> [] \<Longrightarrow> histogram_inv bs [] (simple_histogram bs)"
  using fold_zero_buckets [of "[]" "sort bs"]
  by (simp add: histogram_inv_def simple_histogram_def bucket_count_def um.lookup_empty Let_def)

lemma observe_inv: "histogram_inv bs vs h \<Longrightarrow> histogram_inv bs (vs @ [v]) (observe v h)"
  using fold_count_bucket [of "hg_bucket_counts h" v "hg_buckets h"]
  by (auto simp: histogram_inv_def observe_def bucket_count_def algebra_simps split: if_splits)

lemma observations_inv: "bs \<noteq> [] \<Longrightarrow> histogram_inv bs vs (fold observe vs (simple_histogram bs))"
  by (induction vs rule: rev_induct) (simp_all add: simple_histogram_inv observe_inv)

text \<open>A bucket that is given twice counts every value twice, and may exceed the number of values.\<close>

lemma duplicate_bucket_counts_twice:
  "bucket_count (fold observe [Fin 1] (simple_histogram [Fin 5, Fin 5])) (Fin 5) = Some 2"
  "hg_count (fold observe [Fin 1] (simple_histogram [Fin 5, Fin 5])) = 1"
  using observations_inv [of "[Fin 5, Fin 5]" "[Fin 1]"] by (simp_all add: histogram_inv_def f64_le_def less_eq_f64_def)

text \<open>
  C26. A histogram is cumulative, as its export format requires: with distinct bucket bounds, the count of a bucket
  is the number of observed values up to its bound, a larger bound has no smaller count, and no count exceeds
  the total, which is the number of observations.
\<close>

theorem histogram_cumulative:
  assumes "distinct bs" "NaN \<notin> set bs" "b \<in> set bs" "c \<in> set bs" "b \<le> c" "length vs < 2 ^ 64"
    and "h = fold observe vs (simple_histogram bs)"
  shows "\<exists>m n. bucket_count h b = Some m \<and> bucket_count h c = Some n
    \<and> unat m = length (filter (\<lambda>v. f64_le v b) vs) \<and> m \<le> n \<and> n \<le> hg_count h \<and> unat (hg_count h) = length vs"
proof -
  have "bs \<noteq> []" using assms(3) by auto
  then have inv: "histogram_inv bs vs h" unfolding assms(7) by (rule observations_inv)
  have one: "count_list bs x = 1" if "x \<in> set bs" for x
    using that assms(1) by (simp add: distinct_count_atmost_1 flip: count_mset)
  have sub: "length (filter (\<lambda>v. f64_le v b) vs) \<le> length (filter (\<lambda>v. f64_le v c) vs)"
    using assms(2,4,5) by (induction vs) (auto simp: f64_le_def)
  have "length (filter (\<lambda>v. f64_le v x) vs) < 2 ^ 64" for x
    using assms(6) length_filter_le [of "\<lambda>v. f64_le v x" vs] by linarith
  then have u: "unat (of_nat (length (filter (\<lambda>v. f64_le v x) vs)) :: u64) = length (filter (\<lambda>v. f64_le v x) vs)" for x
    by (simp add: unat_of_nat)
  then show ?thesis
    using inv one assms(3,4,6) sub u length_filter_le
    by (simp add: histogram_inv_def word_le_nat_alt unat_of_nat)
qed

theorem histogram_cumulative_witness:
  "\<exists>m n. bucket_count (fold observe [Fin 3, Fin 70, Fin 1] (simple_histogram [Fin 100, Fin 10])) (Fin 10) = Some m
    \<and> bucket_count (fold observe [Fin 3, Fin 70, Fin 1] (simple_histogram [Fin 100, Fin 10])) (Fin 100) = Some n
    \<and> unat m = 2 \<and> m \<le> n"
  using histogram_cumulative [of "[Fin 100, Fin 10]" "Fin 10" "Fin 100" "[Fin 3, Fin 70, Fin 1]"]
  by (auto simp: f64_le_def less_eq_f64_def)

subsection \<open>The registry keeps metrics apart\<close>

text \<open>Every name has an object of its own: what a program that holds the pointers relies on.\<close>

definition objects_apart :: "(string \<times> nat) list \<times> 'a list \<Rightarrow> bool" where
  "objects_apart s \<longleftrightarrow> distinct_keys (fst s) \<and> (\<forall>n i. um_lookup (fst s) n = Some i \<longrightarrow> i < length (snd s))
     \<and> (\<forall>m n i. um_lookup (fst s) m = Some i \<longrightarrow> um_lookup (fst s) n = Some i \<longrightarrow> m = n)"

definition object_of :: "(string \<times> nat) list \<times> 'a list \<Rightarrow> string \<Rightarrow> 'a option" where
  "object_of s n = map_option (\<lambda>i. snd s ! i) (um_lookup (fst s) n)"

lemma find_or_make_correct:
  assumes "objects_apart s" and "find_or_make x name s = (i, s')"
  shows "objects_apart s'" "um_lookup (fst s') name = Some i" "i < length (snd s')"
    "object_of s' n = (if n = name then Some (case object_of s name of None \<Rightarrow> x | Some y \<Rightarrow> y) else object_of s n)"
    "find_or_make y name s' = (i, s')"
proof -
  have *: "objects_apart s' \<and> um_lookup (fst s') name = Some i \<and> i < length (snd s')
    \<and> object_of s' n = (if n = name then Some (case object_of s name of None \<Rightarrow> x | Some y \<Rightarrow> y) else object_of s n)"
  proof (cases "um_lookup (fst s) name")
    case None
    then have s': "i = length (snd s)" "s' = (um_insert name (length (snd s)) (fst s), snd s @ [x])"
      using assms(2) by (auto simp: find_or_make_def)
    have lt: "um_lookup (fst s) m \<noteq> Some (length (snd s))" for m
      using assms(1) by (auto simp: objects_apart_def)
    show ?thesis
      using assms(1) None lt unfolding s'
      by (cases "um_lookup (fst s) n") (auto simp: objects_apart_def object_of_def um.lookup_insert um.invar_insert nth_append less_SucI)
  qed (use assms in \<open>auto simp: find_or_make_def objects_apart_def object_of_def\<close>)
  then show "objects_apart s'" "um_lookup (fst s') name = Some i" "i < length (snd s')"
    "object_of s' n = (if n = name then Some (case object_of s name of None \<Rightarrow> x | Some y \<Rightarrow> y) else object_of s n)"
    by simp_all
  from * show "find_or_make y name s' = (i, s')" by (simp add: find_or_make_def)
qed

lemma object_update:
  assumes "objects_apart s" and "um_lookup (fst s) name = Some i"
  shows "object_of (fst s, (snd s)[i := f (snd s ! i)]) n =
    (if n = name then map_option f (object_of s name) else object_of s n)"
  using assms by (cases "um_lookup (fst s) n") (auto simp: objects_apart_def object_of_def nth_list_update)

text \<open>
  What a program relies on, for any kind of metric: \<open>get\<close> finds or makes the object of a name in the table of
  its kind, and \<open>modify\<close> changes one object through its pointer.
\<close>

locale named_objects =
  fixes table :: "'s \<Rightarrow> (string \<times> nat) list \<times> 'a list"
    and init :: 'a
    and get :: "string \<Rightarrow> 's \<Rightarrow> nat \<times> 's"
    and modify :: "nat \<Rightarrow> ('a \<Rightarrow> 'a) \<Rightarrow> 's \<Rightarrow> 's"
  assumes table_get: "get n s = (i, s') \<Longrightarrow> find_or_make init n (table s) = (i, table s')"
    and get_known: "um_lookup (fst (table s)) n = Some i \<Longrightarrow> get n s = (i, s)"
    and table_modify: "table (modify i f s) = (fst (table s), (snd (table s))[i := f (snd (table s) ! i)])"
begin

definition value_of :: "'s \<Rightarrow> string \<Rightarrow> 'a" where
  "value_of s n = (case object_of (table s) n of None \<Rightarrow> init | Some x \<Rightarrow> x)"

definition change :: "'s \<Rightarrow> string \<times> ('a \<Rightarrow> 'a) \<Rightarrow> 's" where
  "change s p = (let (i, s') = get (fst p) s in modify i (snd p) s')"

lemma get_correct:
  assumes "objects_apart (table s)" and "get name s = (i, s')"
  shows "objects_apart (table s')" "um_lookup (fst (table s')) name = Some i" "value_of s' n = value_of s n"
    "get name s' = (i, s')"
proof -
  note c = find_or_make_correct [OF assms(1) table_get [OF assms(2)]]
  show "objects_apart (table s')" "um_lookup (fst (table s')) name = Some i" using c(1,2) .
  show "value_of s' n = value_of s n" using c(4) [of n] by (simp add: value_of_def split: option.splits)
  show "get name s' = (i, s')" using get_known c(2) .
qed

lemma change_correct:
  assumes "objects_apart (table s)"
  shows "objects_apart (table (change s p))"
    "value_of (change s p) n = (if n = fst p then snd p (value_of s n) else value_of s n)"
proof -
  obtain i s' where g: "get (fst p) s = (i, s')" by (metis surj_pair)
  note c = get_correct [OF assms g]
  have u: "table (change s p) = (fst (table s'), (snd (table s'))[i := snd p (snd (table s') ! i)])"
    by (simp add: change_def g table_modify)
  show "objects_apart (table (change s p))" using c(1) by (simp add: u objects_apart_def)
  have o: "object_of (table s') (fst p) = Some (snd (table s') ! i)" using c(2) by (simp add: object_of_def)
  show "value_of (change s p) n = (if n = fst p then snd p (value_of s n) else value_of s n)"
    using object_update [OF c(1,2), of "snd p" n] c(3) [of n] o by (auto simp: value_of_def u)
qed

end

abbreviation counters_of :: "SimpleRegistry \<times> metric_heap \<Rightarrow> (string \<times> nat) list \<times> f64 list" where
  "counters_of s \<equiv> (sr_counters (fst s), mh_counters (snd s))"

abbreviation gauges_of :: "SimpleRegistry \<times> metric_heap \<Rightarrow> (string \<times> nat) list \<times> f64 list" where
  "gauges_of s \<equiv> (sr_gauges (fst s), mh_gauges (snd s))"

abbreviation histograms_of :: "SimpleRegistry \<times> metric_heap \<Rightarrow> (string \<times> nat) list \<times> SimpleHistogram list" where
  "histograms_of s \<equiv> (sr_histograms (fst s), mh_histograms (snd s))"

definition modify_counter :: "nat \<Rightarrow> (f64 \<Rightarrow> f64) \<Rightarrow> SimpleRegistry \<times> metric_heap \<Rightarrow> SimpleRegistry \<times> metric_heap" where
  "modify_counter i f s = (fst s, (snd s)\<lparr>mh_counters := (mh_counters (snd s))[i := f (mh_counters (snd s) ! i)]\<rparr>)"

definition modify_gauge :: "nat \<Rightarrow> (f64 \<Rightarrow> f64) \<Rightarrow> SimpleRegistry \<times> metric_heap \<Rightarrow> SimpleRegistry \<times> metric_heap" where
  "modify_gauge i f s = (fst s, (snd s)\<lparr>mh_gauges := (mh_gauges (snd s))[i := f (mh_gauges (snd s) ! i)]\<rparr>)"

definition modify_histogram ::
  "nat \<Rightarrow> (SimpleHistogram \<Rightarrow> SimpleHistogram) \<Rightarrow> SimpleRegistry \<times> metric_heap \<Rightarrow> SimpleRegistry \<times> metric_heap" where
  "modify_histogram i f s = (fst s, (snd s)\<lparr>mh_histograms := (mh_histograms (snd s))[i := f (mh_histograms (snd s) ! i)]\<rparr>)"

interpretation counters: named_objects "\<lambda>s. counters_of s" "Fin 0" get_counter modify_counter
  by unfold_locales (auto simp: get_counter_def find_or_make_def modify_counter_def split: option.splits)

interpretation gauges: named_objects "\<lambda>s. gauges_of s" "Fin 0" get_gauge modify_gauge
  by unfold_locales (auto simp: get_gauge_def find_or_make_def modify_gauge_def split: option.splits)

interpretation histograms: named_objects "\<lambda>s. histograms_of s" "simple_histogram bs" "\<lambda>n. get_histogram n bs" modify_histogram for bs
  by unfold_locales (auto simp: get_histogram_def find_or_make_def modify_histogram_def split: option.splits)

definition empty_registry :: "SimpleRegistry \<times> metric_heap" where
  "empty_registry = (\<lparr> sr_counters = [], sr_gauges = [], sr_histograms = [] \<rparr>,
     \<lparr> mh_counters = [], mh_gauges = [], mh_histograms = [] \<rparr>)"

lemma empty_registry_apart:
  "objects_apart (counters_of empty_registry)" "objects_apart (gauges_of empty_registry)" "objects_apart (histograms_of empty_registry)"
  by (simp_all add: empty_registry_def objects_apart_def um.lookup_empty um.invar_empty)

text \<open>Values, and changes by name: the pointer is asked for and used at once.\<close>

definition counter_value :: "SimpleRegistry \<times> metric_heap \<Rightarrow> string \<Rightarrow> f64" where
  "counter_value s n = (case object_of (counters_of s) n of None \<Rightarrow> Fin 0 | Some c \<Rightarrow> c)"

definition gauge_value :: "SimpleRegistry \<times> metric_heap \<Rightarrow> string \<Rightarrow> f64" where
  "gauge_value s n = (case object_of (gauges_of s) n of None \<Rightarrow> Fin 0 | Some c \<Rightarrow> c)"

datatype metric_op = Count string f64 | Change_gauge string "f64 \<Rightarrow> f64" | Observe string "f64 list" f64

fun run_metric_op :: "metric_op \<Rightarrow> SimpleRegistry \<times> metric_heap \<Rightarrow> SimpleRegistry \<times> metric_heap" where
  "run_metric_op (Count n v) s = (let (i, s') = get_counter n s in modify_counter i (counter_add v) s')"
| "run_metric_op (Change_gauge n f) s = (let (i, s') = get_gauge n s in modify_gauge i f s')"
| "run_metric_op (Observe n bs v) s = (let (i, s') = get_histogram n bs s in modify_histogram i (observe v) s')"

fun counted :: "string \<Rightarrow> metric_op \<Rightarrow> f64 list" where
  "counted n (Count m v) = (if m = n then [v] else [])"
| "counted n _ = []"

fun changed :: "string \<Rightarrow> metric_op \<Rightarrow> (f64 \<Rightarrow> f64) list" where
  "changed n (Change_gauge m f) = (if m = n then [f] else [])"
| "changed n _ = []"

definition registry_apart :: "SimpleRegistry \<times> metric_heap \<Rightarrow> bool" where
  "registry_apart s \<longleftrightarrow> objects_apart (counters_of s) \<and> objects_apart (gauges_of s) \<and> objects_apart (histograms_of s)"

lemma run_metric_op_change:
  "run_metric_op (Count n v) s = counters.change s (n, counter_add v)"
  "run_metric_op (Change_gauge n f) s = gauges.change s (n, f)"
  "run_metric_op (Observe n bs v) s = histograms.change bs s (n, observe v)"
  by (simp_all add: counters.change_def gauges.change_def histograms.change_def)

text \<open>A change to one kind leaves the tables of the others alone.\<close>

lemma change_frame:
  "gauges_of (counters.change s p) = gauges_of s" "histograms_of (counters.change s p) = histograms_of s"
  "counters_of (gauges.change s p) = counters_of s" "histograms_of (gauges.change s p) = histograms_of s"
  "counters_of (histograms.change bs s q) = counters_of s" "gauges_of (histograms.change bs s q) = gauges_of s"
  by (simp_all add: counters.change_def gauges.change_def histograms.change_def get_counter_def get_gauge_def get_histogram_def
      modify_counter_def modify_gauge_def modify_histogram_def case_prod_unfold Let_def)

lemma run_metric_op_apart: "registry_apart s \<Longrightarrow> registry_apart (run_metric_op op s)"
  unfolding registry_apart_def
  by (cases op) (simp_all only: run_metric_op_change change_frame counters.change_correct(1) gauges.change_correct(1)
      histograms.change_correct(1) simp_thms)

lemma metric_values: "counter_value = counters.value_of" "gauge_value = gauges.value_of"
  by (intro ext; simp add: counter_value_def gauge_value_def counters.value_of_def gauges.value_of_def)+

lemma run_metric_op_counter:
  assumes "registry_apart s"
  shows "counter_value (run_metric_op op s) n = fold counter_add (counted n op) (counter_value s n)"
proof (cases op)
  case (Count m v)
  then show ?thesis
    using assms counters.change_correct(2) [of s "(m, counter_add v)" n]
    by (auto simp: registry_apart_def run_metric_op_change metric_values simp del: run_metric_op.simps)
qed (simp_all add: run_metric_op_change change_frame counter_value_def del: run_metric_op.simps)

lemma run_metric_op_gauge:
  assumes "registry_apart s"
  shows "gauge_value (run_metric_op op s) n = fold id (changed n op) (gauge_value s n)"
proof (cases op)
  case (Change_gauge m f)
  then show ?thesis
    using assms gauges.change_correct(2) [of s "(m, f)" n]
    by (auto simp: registry_apart_def run_metric_op_change metric_values simp del: run_metric_op.simps)
qed (simp_all add: run_metric_op_change change_frame gauge_value_def del: run_metric_op.simps)

lemma run_metric_ops:
  "registry_apart s \<Longrightarrow> registry_apart (fold run_metric_op ops s)
   \<and> counter_value (fold run_metric_op ops s) n = fold counter_add (concat (map (counted n) ops)) (counter_value s n)
   \<and> gauge_value (fold run_metric_op ops s) n = fold id (concat (map (changed n) ops)) (gauge_value s n)"
  by (induction ops arbitrary: s) (simp_all add: run_metric_op_apart run_metric_op_counter run_metric_op_gauge)

text \<open>
  C25. Metrics do not interfere: after any sequence of operations on counters, gauges and histograms, each through the
  pointer the registry returns for the name, the counter of a name holds exactly what the increments of that
  name add up to, in their order and with those that are not at least zero ignored, and the gauge of a name
  what its own changes give, whatever was done under other names and to other kinds in between; and asking for a
  counter again gives the same object and changes nothing.
\<close>

theorem metrics_do_not_interfere:
  "counter_value (fold run_metric_op ops empty_registry) n = fold counter_add (concat (map (counted n) ops)) (Fin 0)
   \<and> gauge_value (fold run_metric_op ops empty_registry) n = fold id (concat (map (changed n) ops)) (Fin 0)
   \<and> (let (i, s) = get_counter n (fold run_metric_op ops empty_registry)
      in get_counter n s = (i, s) \<and> (\<forall>m. counter_value s m = counter_value (fold run_metric_op ops empty_registry) m))"
proof -
  let ?s = "fold run_metric_op ops empty_registry"
  have e: "registry_apart empty_registry" using empty_registry_apart by (simp add: registry_apart_def)
  have a: "objects_apart (counters_of ?s)" using run_metric_ops [OF e] by (simp add: registry_apart_def)
  have z: "counter_value empty_registry n = Fin 0" "gauge_value empty_registry n = Fin 0"
    by (simp_all add: counter_value_def gauge_value_def empty_registry_def object_of_def um.lookup_empty)
  obtain i s where g: "get_counter n ?s = (i, s)" by (metis surj_pair)
  have "get_counter n s = (i, s)" "\<forall>m. counter_value s m = counter_value ?s m"
    using counters.get_correct(3,4) [OF a g] by (simp_all add: metric_values)
  then show ?thesis using run_metric_ops [OF e, of ops n] z g by simp
qed

subsection \<open>Exported numbers\<close>

lemma dec_string_shift: "0 < n \<Longrightarrow> dec_string (n * 10 ^ j) = dec_string n @ replicate j CHR ''0''"
proof (induction j)
  case (Suc j)
  have "dec_string (10 * m) = dec_string m @ [digit_char 0]" if "0 < m" for m
    using that by (simp add: dec_string_def show_base.simps [of 10 "10 * m"])
  from this [of "n * 10 ^ j"] have "dec_string (n * 10 ^ Suc j) = dec_string (n * 10 ^ j) @ [digit_char 0]"
    using Suc.prems by (simp add: mult.left_commute)
  with Suc show ?case by (simp add: digit_char_def replicate_append_same)
qed simp

lemma decimal_exponent_of_nat:
  assumes "0 < n" and l: "length (dec_string n) = Suc k"
  shows "decimal_exponent (of_nat n) = int k"
proof -
  have "quotient_of (of_nat n :: rat) = (int n, 1)" using quotient_of_int [of "int n"] by simp
  moreover have "(10 :: rat) ^ k \<le> of_nat n"
    using dec_string_bounds [OF assms(1)] by (metis l diff_Suc_1 of_nat_le_iff of_nat_numeral of_nat_power)
  moreover have "length (dec_string 1) = 1" by (simp add: dec_string_def show_base.simps)
  ultimately show ?thesis by (simp add: decimal_exponent_def l Let_def)
qed

lemma decimal_parts_of_nat:
  assumes "0 < n" and l: "length (dec_string n) = Suc k" and j: "k + j = 5"
  shows "decimal_parts (of_nat n) = (n * 10 ^ j, int k)"
proof -
  have "int k - 5 = - int j" using j by simp
  then have "of_nat n / (10 :: rat) powi (int k - 5) = of_int (int (n * 10 ^ j))"
    by (simp add: power_int_minus divide_inverse)
  then have r: "rne (of_nat n / 10 powi (int k - 5)) = int (n * 10 ^ j)" by (metis rne_of_int)
  have "n * 10 ^ j < 10 ^ Suc k * 10 ^ j" using dec_string_bounds [OF assms(1)] by (simp add: l)
  also have "\<dots> = (10 :: nat) ^ (k + j + 1)" by (simp add: power_add)
  finally have "n * 10 ^ j \<noteq> 1000000" by (simp add: j)
  then show ?thesis
    by (simp only: decimal_parts_def decimal_exponent_of_nat [OF assms(1) l] Let_def r nat_int if_False)
qed

text \<open>
  A whole number below a million is exported digit for digit; from a million on only six digits are left.
\<close>

theorem whole_numbers_exported_exactly:
  assumes "n < 1000000"
  shows "show_double (Fin (of_nat n)) = dec_string n"
proof (cases "n = 0")
  case False
  then have n: "0 < n" by simp
  have "dec_string n \<noteq> []" by (simp add: dec_string_def show_base.simps [of 10 n])
  then obtain k where l: "length (dec_string n) = Suc k" by (cases "dec_string n") auto
  have "10 ^ k < (10 :: nat) ^ 6" using dec_string_bounds [OF n] assms by (simp add: l)
  then have "k < 6" by (rule power_less_imp_less_exp [rotated]) simp
  then obtain j where j: "k + j = 5" using \<open>k < 6\<close> that [of "5 - k"] by simp
  have z: "strip_zeros (replicate j CHR ''0'') = []" by (simp add: strip_zeros_def)
  have "show_positive (of_nat n) = dec_string n"
    using \<open>k < 6\<close>
    by (simp add: show_positive_def decimal_parts_of_nat [OF n l j] dec_string_shift [OF n] with_point_def l z Let_def)
  with n show ?thesis by simp
qed (simp add: dec_string_def show_base.simps digit_char_def)

theorem whole_numbers_exported_exactly_witness: "show_double (Fin 999999) = ''999999''"
  using whole_numbers_exported_exactly [of 999999] by (simp add: dec_string_def show_base.simps digit_char_def)

lemma million_exponent: "decimal_exponent 1000001 = 6" "decimal_exponent 1000000 = 6"
  using decimal_exponent_of_nat [of 1000001 6] decimal_exponent_of_nat [of 1000000 6]
  by (simp_all add: dec_string_def show_base.simps)

lemma million_loses_digits: "show_double (Fin 1000001) = ''1e+06''" "show_double (Fin 1000000) = ''1e+06''"
proof -
  have "rne (1000001 / 10 powi 1) = 100000" "rne (1000000 / 10 powi 1) = 100000"
    by (rule rne_eqI; simp)+
  then have "decimal_parts 1000001 = (100000, 6)" "decimal_parts 1000000 = (100000, 6)"
    by (simp_all add: decimal_parts_def million_exponent)
  then show "show_double (Fin 1000001) = ''1e+06''" "show_double (Fin 1000000) = ''1e+06''"
    by (simp_all add: show_positive_def Let_def dec_string_def show_base.simps digit_char_def with_point_def strip_zeros_def)
qed

end
