(* ===== verification/Error_Example.thy ===== *)
theory Error_Example
  imports Error_Retry Simple_Metrics
begin

text \<open>
  The program simple_error_example.cpp, which uses results, error chains, the retry with backoff and the error
  tracker together. Its output is the list of the lines it prints; a line break inside a chain of errors is the one
  \<open>chain_to_string\<close> writes.
\<close>

subsection \<open>The parts of the program\<close>

definition print_value :: "string \<Rightarrow> int Result \<Rightarrow> string list" where
  "print_value prefix r = (case r of Inr v \<Rightarrow> [prefix @ int_string v] | Inl _ \<Rightarrow> [])"

definition print_error :: "string \<Rightarrow> (ErrorInfo \<Rightarrow> string) \<Rightarrow> int Result \<Rightarrow> string list" where
  "print_error prefix show r = (case r of Inl e \<Rightarrow> [prefix @ show e] | Inr _ \<Rightarrow> [])"

text \<open>The captured \<open>attempt_count\<close> and the lines printed so far are the state of the function.\<close>

definition failing_function :: "int \<times> string list \<Rightarrow> int Result \<times> int \<times> string list" where
  "failing_function = (\<lambda>(attempt_count, out).
     let attempt_count = attempt_count + 1;
         out = out @ [''Attempt '' @ int_string attempt_count]
     in (if attempt_count < 3 then Inl (error_info TIMEOUT ''Temporary failure'' []) else Inr 100, attempt_count, out))"

definition example_calls :: "tracker_call list" where
  "example_calls = map (\<lambda>i. if i mod 3 = 0 then Record_Error INVALID_ARGUMENT else Record_Success) [0..<10]"

text \<open>The lines, the pauses in milliseconds and the exit code.\<close>

definition simple_error_main :: "string list \<times> int list \<times> int" where
  "simple_error_main =
     (let success_result = Inr 42;
          error_result = Inl (error_info INVALID_ARGUMENT ''Invalid input'' []);
          context_error = Inl (error_info FILE_NOT_FOUND ''File not found'' ''config.yaml'');
          original_error = Inl (error_info INVALID_ARGUMENT ''Original error'' []);
          chained_error = chain_error original_error EXECUTION_ERROR ''Execution failed'';
          (retry_result, (_, attempts), pauses) = retry_with_backoff 5 100 (Fin 2) failing_function (0, []);
          tracker = tracker_run example_calls error_tracker
      in ([''=== Simple Error Handling Example ==='', [], ''1. Basic Success and Error:'']
          @ print_value ''Success: '' success_result
          @ print_error ''Error: '' error_to_string error_result
          @ [[], ''2. Error with Context:''] @ print_error ''Context Error: '' error_to_string context_error
          @ [[], ''3. Error Chaining:''] @ print_error ''Chained Error: '' chain_to_string chained_error
          @ [[], ''4. User-Friendly Messages:'', ''Error code: '' @ error_code_to_string INVALID_ARGUMENT,
             ''User message: '' @ get_user_friendly_message INVALID_ARGUMENT]
          @ [[], ''5. Simple Retry Example:''] @ attempts
          @ (case retry_result of None \<Rightarrow> [] | Some r \<Rightarrow>
               print_value ''Retry succeeded: '' r @ print_error ''Retry failed: '' error_to_string r)
          @ [[], ''6. Error Monitoring:'', ''Error rate: '' @ show_double (f64_mul (get_error_rate tracker) (Fin 100)) @ ''%'',
             ''Invalid argument errors: '' @ int_string (get_error_count INVALID_ARGUMENT tracker),
             [], ''=== Example Complete ===''],
          pauses, 0))"

subsection \<open>What it prints\<close>

lemma example_retry:
  "retry_with_backoff 5 100 (Fin 2) failing_function (0, [])
    = (Some (Inr 100), (3, [''Attempt 1'', ''Attempt 2'', ''Attempt 3'']), [100, 200])"
proof -
  have d: "scaled_delay 100 (Fin 2) = Some 200" "scaled_delay 200 (Fin 2) = Some 400"
    using scaled_delay_nat [of 100 2] scaled_delay_nat [of 200 2] by simp_all
  have n: "nat 5 = Suc (Suc (Suc (Suc (Suc 0))))" by simp
  have "int_string 1 = ''1''" "int_string 2 = ''2''" "int_string 3 = ''3''"
    by (simp_all add: int_string_def dec_string_def show_base.simps digit_char_def)
  then show ?thesis
    by (simp add: retry_with_backoff_def n d failing_function_def has_value_def Let_def del: nat_numeral)
qed

lemma example_rate: "show_double (f64_mul (get_error_rate (tracker_run example_calls error_tracker)) (Fin 100)) = ''40''"
proof -
  have "get_error_rate (tracker_run example_calls error_tracker) = f64_div (f64_of_int 4) (f64_of_int 10)"
    by (simp add: example_calls_def upt_rec error_tracker_def record_error_def tracker_record_success_def get_error_rate_def Let_def)
  moreover have "f64_of_int 4 = Fin 4" "f64_of_int 10 = Fin 10"
    using round64_nat [of 4] round64_nat [of 10] by (simp_all add: f64_of_int_def)
  moreover have "fl (2 / 5) = 3602879701896397 / 9007199254740992"
    using fl_evalI [of "- 2" "2 / 5" 7205759403792794] by (simp add: power_int_minus)
  then have "round64 (2 / 5) = Fin (3602879701896397 / 9007199254740992)" by (simp add: round64_def)
  moreover have "fl (3602879701896397 / 9007199254740992 * 100) = 40"
    using fl_evalI [of 5 "3602879701896397 / 9007199254740992 * 100" 5629499534213120] by (simp add: power_int_minus)
  then have "round64 (3602879701896397 / 9007199254740992 * 100) = Fin 40" by (simp add: round64_def)
  ultimately have "f64_mul (get_error_rate (tracker_run example_calls error_tracker)) (Fin 100) = Fin (of_nat 40)" by simp
  then show ?thesis using whole_numbers_exported_exactly [of 40] by (simp add: dec_string_def show_base.simps digit_char_def)
qed

lemma example_output:
  "simple_error_main =
     ([''=== Simple Error Handling Example ==='', [], ''1. Basic Success and Error:'', ''Success: 42'',
       ''Error: Error 1001: Invalid input'', [], ''2. Error with Context:'',
       ''Context Error: Error 2001: File not found (Context: config.yaml)'', [], ''3. Error Chaining:'',
       ''Chained Error: Error 7000: Execution failed'' @ [CHR 0x0A] @ ''Caused by: Error 1001: Original error'', [],
       ''4. User-Friendly Messages:'', ''Error code: INVALID_ARGUMENT'', ''User message: Invalid argument provided'', [],
       ''5. Simple Retry Example:'', ''Attempt 1'', ''Attempt 2'', ''Attempt 3'', ''Retry succeeded: 100'', [],
       ''6. Error Monitoring:'', ''Error rate: 40%'', ''Invalid argument errors: 4'', [], ''=== Example Complete ===''],
      [100, 200], 0)"
proof -
  have n: "int_string 42 = ''42''" "int_string 1001 = ''1001''" "int_string 2001 = ''2001''" "int_string 7000 = ''7000''"
    "int_string 100 = ''100''" "int_string 4 = ''4''"
    by (simp_all add: int_string_def dec_string_def show_base.simps digit_char_def)
  have "get_error_count INVALID_ARGUMENT (tracker_run example_calls error_tracker) = 4"
    by (simp add: example_calls_def upt_rec error_tracker_def record_error_def tracker_record_success_def get_error_count_def um_defs)
  then show ?thesis
    by (simp add: simple_error_main_def example_retry example_rate print_value_def print_error_def error_info_def chain_error_def
        error_to_string_def n)
qed

end
