(* ===== verification/Async_Io.thy ===== *)
theory Async_Io
  imports Locking
begin

text \<open>
  What the transports of modules/p2p share: the answers of a Boost.Asio call that the code tells apart,
  and the contract of an asynchronous receive loop. A loop has a flag that says it is wanted, a number of
  reads in progress, and a log of what it delivered to its callback.
\<close>

datatype 'a io = Io_ok 'a | Io_error string | Io_throw string

locale receive_loop =
  fixes step :: "'e \<Rightarrow> 's \<Rightarrow> 's"
    and receiving :: "'s \<Rightarrow> bool"
    and pending :: "'s \<Rightarrow> nat"
    and delivered :: "'s \<Rightarrow> 'd list"
    and starts :: "'e \<Rightarrow> bool"
  assumes step_stopped: "\<not> receiving s \<Longrightarrow> \<not> starts e \<Longrightarrow> \<not> receiving (step e s)"
    and step_delivers: "\<not> receiving s \<Longrightarrow> \<not> starts e \<Longrightarrow>
      length (delivered (step e s)) + pending (step e s) \<le> length (delivered s) + pending s"
begin

lemma run_stopped:
  "\<not> receiving s \<Longrightarrow> \<forall>e \<in> set es. \<not> starts e \<Longrightarrow>
    \<not> receiving (fold step es s)
    \<and> length (delivered (fold step es s)) + pending (fold step es s) \<le> length (delivered s) + pending s"
proof (induction es arbitrary: s)
  case (Cons e es)
  then show ?case using step_stopped [of s e] step_delivers [of s e] Cons.IH [of "step e s"] by force
qed simp

lemma delivery_bound:
  "\<not> receiving s \<Longrightarrow> \<forall>e \<in> set es. \<not> starts e \<Longrightarrow>
    length (delivered (fold step es s)) \<le> length (delivered s) + pending s"
  using run_stopped [of s es] by simp

end

end
