(* ===== verification/Tcp_Connection.thy ===== *)
theory Tcp_Connection
  imports Async_Io
begin

text \<open>
  One TCP connection (modules/p2p: tcp_connection.hpp, tcp_connection.cpp). What Boost.Asio answers is
  an argument of the operation: \<open>Io_ok\<close>, an error code with its message, or an exception. An
  asynchronous read that has been started and has not completed is counted in \<open>tc_pending\<close>; its
  completion is the operation \<open>handle_receive\<close>. The calls of the two callbacks are recorded, with the data
  and the flag they are given, in \<open>tc_delivered\<close> and \<open>tc_notified\<close>.
\<close>

subsection \<open>Data\<close>

datatype TcpError = CONNECTION_FAILED | CONNECTION_CLOSED | WRITE_FAILED | READ_FAILED | TIMEOUT
  | INVALID_ADDRESS | ALREADY_CONNECTED | NOT_CONNECTED

type_synonym 'a TcpResult = "(TcpError \<times> string) + 'a"

datatype read_event = Read_data byte_vector | Read_eof | Read_reset string | Read_error string

record TcpConnection =
  tc_id :: u64
  tc_connected :: bool
  tc_receiving :: bool
  tc_socket_open :: bool
  tc_pending :: nat
  tc_receive_callback :: bool
  tc_connection_callback :: bool
  tc_delivered :: "byte_vector list"
  tc_notified :: "bool list"

definition make_tcp_error :: "TcpError \<Rightarrow> string \<Rightarrow> 'a TcpResult" where
  "make_tcp_error code msg = Inl (code, msg)"

text \<open>The two constructors: a new socket, and a socket the acceptor has connected.\<close>

definition tcp_connection :: "u64 \<Rightarrow> TcpConnection" where
  "tcp_connection i = \<lparr> tc_id = i, tc_connected = False, tc_receiving = False, tc_socket_open = False,
     tc_pending = 0, tc_receive_callback = False, tc_connection_callback = False, tc_delivered = [],
     tc_notified = [] \<rparr>"

definition accepted_connection :: "u64 \<Rightarrow> TcpConnection" where
  "accepted_connection i = (tcp_connection i)\<lparr>tc_connected := True, tc_socket_open := True\<rparr>"

subsection \<open>Operations\<close>

definition notify :: "bool \<Rightarrow> TcpConnection \<Rightarrow> TcpConnection" where
  "notify up c = (if tc_connection_callback c then c\<lparr>tc_notified := tc_notified c @ [up]\<rparr> else c)"

definition tc_connect :: "unit io \<Rightarrow> TcpConnection \<Rightarrow> unit TcpResult \<times> TcpConnection" where
  "tc_connect out c =
     (if tc_connected c then (make_tcp_error ALREADY_CONNECTED ''Already connected'', c)
      else case out of
        Io_error msg \<Rightarrow> (make_tcp_error CONNECTION_FAILED (''Failed to connect: '' @ msg), c)
      | Io_throw msg \<Rightarrow> (make_tcp_error CONNECTION_FAILED (''Connection exception: '' @ msg), c)
      | Io_ok _ \<Rightarrow> (Inr (), notify True (c\<lparr>tc_connected := True, tc_socket_open := True\<rparr>)))"

text \<open>The completion of \<open>async_connect\<close>; the error code goes to the handler of the caller.\<close>

definition tc_async_connected :: "bool \<Rightarrow> TcpConnection \<Rightarrow> TcpConnection" where
  "tc_async_connected ok c =
     (if ok then notify True (c\<lparr>tc_connected := True, tc_socket_open := True\<rparr>) else c)"

definition tc_send :: "nat io \<Rightarrow> TcpConnection \<Rightarrow> nat TcpResult" where
  "tc_send out c =
     (if \<not> tc_connected c then make_tcp_error NOT_CONNECTED ''Not connected''
      else case out of
        Io_error msg \<Rightarrow> make_tcp_error WRITE_FAILED (''Write failed: '' @ msg)
      | Io_throw msg \<Rightarrow> make_tcp_error WRITE_FAILED (''Write exception: '' @ msg)
      | Io_ok n \<Rightarrow> Inr n)"

definition tc_receive :: "read_event io \<Rightarrow> TcpConnection \<Rightarrow> byte_vector TcpResult \<times> TcpConnection" where
  "tc_receive out c =
     (if \<not> tc_connected c then (make_tcp_error NOT_CONNECTED ''Not connected'', c)
      else case out of
        Io_error msg \<Rightarrow> (make_tcp_error READ_FAILED (''Read failed: '' @ msg), c)
      | Io_throw msg \<Rightarrow> (make_tcp_error READ_FAILED (''Read exception: '' @ msg), c)
      | Io_ok Read_eof \<Rightarrow>
          (make_tcp_error CONNECTION_CLOSED ''Connection closed by peer'', c\<lparr>tc_connected := False\<rparr>)
      | Io_ok (Read_reset msg) \<Rightarrow> (make_tcp_error READ_FAILED (''Read failed: '' @ msg), c)
      | Io_ok (Read_error msg) \<Rightarrow> (make_tcp_error READ_FAILED (''Read failed: '' @ msg), c)
      | Io_ok (Read_data bs) \<Rightarrow> (Inr bs, c))"

definition do_receive :: "TcpConnection \<Rightarrow> TcpConnection" where
  "do_receive c =
     (if \<not> tc_receiving c \<or> \<not> tc_connected c then c else c\<lparr>tc_pending := Suc (tc_pending c)\<rparr>)"

definition tc_start_receive :: "TcpConnection \<Rightarrow> TcpConnection" where
  "tc_start_receive c = do_receive (c\<lparr>tc_receive_callback := True, tc_receiving := True\<rparr>)"

definition tc_stop_receive :: "TcpConnection \<Rightarrow> TcpConnection" where
  "tc_stop_receive c = c\<lparr>tc_receiving := False\<rparr>"

definition handle_receive :: "read_event \<Rightarrow> TcpConnection \<Rightarrow> TcpConnection" where
  "handle_receive ev c0 =
     (let c = c0\<lparr>tc_pending := tc_pending c0 - 1\<rparr> in
      case ev of
        Read_eof \<Rightarrow> notify False (c\<lparr>tc_connected := False\<rparr>)
      | Read_reset _ \<Rightarrow> notify False (c\<lparr>tc_connected := False\<rparr>)
      | Read_error _ \<Rightarrow> c
      | Read_data bs \<Rightarrow>
          do_receive (if tc_receive_callback c \<and> bs \<noteq> [] then c\<lparr>tc_delivered := tc_delivered c @ [bs]\<rparr> else c))"

definition tc_close :: "TcpConnection \<Rightarrow> TcpConnection" where
  "tc_close c =
     (if \<not> tc_connected c then c
      else notify False (c\<lparr>tc_connected := False, tc_receiving := False, tc_socket_open := False\<rparr>))"

text \<open>The endpoints of the socket as text; what Boost.Asio answers is the argument.\<close>

definition endpoint_string :: "string \<times> u16 \<Rightarrow> string" where
  "endpoint_string e = fst e @ '':'' @ dec_string (unat (snd e))"

definition tc_local_endpoint :: "(string \<times> u16) io \<Rightarrow> string TcpResult" where
  "tc_local_endpoint out =
     (case out of
        Io_error msg \<Rightarrow> make_tcp_error NOT_CONNECTED (''Failed to get local endpoint: '' @ msg)
      | Io_throw msg \<Rightarrow> make_tcp_error NOT_CONNECTED (''Local endpoint exception: '' @ msg)
      | Io_ok e \<Rightarrow> Inr (endpoint_string e))"

definition tc_remote_endpoint :: "(string \<times> u16) io \<Rightarrow> string TcpResult" where
  "tc_remote_endpoint out =
     (case out of
        Io_error msg \<Rightarrow> make_tcp_error NOT_CONNECTED (''Failed to get remote endpoint: '' @ msg)
      | Io_throw msg \<Rightarrow> make_tcp_error NOT_CONNECTED (''Remote endpoint exception: '' @ msg)
      | Io_ok e \<Rightarrow> Inr (endpoint_string e))"

definition tc_set_connection_callback :: "TcpConnection \<Rightarrow> TcpConnection" where
  "tc_set_connection_callback c = c\<lparr>tc_connection_callback := True\<rparr>"

lemma tc_stop_receive_simps [simp]:
  "\<not> tc_receiving (tc_stop_receive c)" "tc_delivered (tc_stop_receive c) = tc_delivered c"
  "tc_pending (tc_stop_receive c) = tc_pending c"
  by (simp_all add: tc_stop_receive_def)

lemmas tc_defs = tc_connect_def tc_async_connected_def tc_receive_def do_receive_def tc_start_receive_def
  tc_stop_receive_def handle_receive_def tc_close_def tc_set_connection_callback_def notify_def

subsection \<open>Runs\<close>

text \<open>What can happen to a connection. A completion is only possible for a read that has been started.\<close>

datatype tc_event = Connect "unit io" | Async_connected bool | Receive "read_event io" | Start_receive
  | Stop_receive | Completion read_event | Close | Set_callback

fun tc_step :: "tc_event \<Rightarrow> TcpConnection \<Rightarrow> TcpConnection" where
  "tc_step (Connect out) c = snd (tc_connect out c)"
| "tc_step (Async_connected ok) c = tc_async_connected ok c"
| "tc_step (Receive out) c = snd (tc_receive out c)"
| "tc_step Start_receive c = tc_start_receive c"
| "tc_step Stop_receive c = tc_stop_receive c"
| "tc_step (Completion ev) c = (if 0 < tc_pending c then handle_receive ev c else c)"
| "tc_step Close c = tc_close c"
| "tc_step Set_callback c = tc_set_connection_callback c"

definition tc_run :: "tc_event list \<Rightarrow> TcpConnection \<Rightarrow> TcpConnection" where
  "tc_run es c = fold tc_step es c"

lemma tc_step_stopped:
  assumes "\<not> tc_receiving c" "e \<noteq> Start_receive"
  shows "\<not> tc_receiving (tc_step e c)
    \<and> length (tc_delivered (tc_step e c)) + tc_pending (tc_step e c) \<le> length (tc_delivered c) + tc_pending c"
proof (cases e)
  case (Completion ev)
  then show ?thesis using assms by (cases ev) (auto simp: tc_defs Let_def)
next
  case (Receive out)
  then show ?thesis using assms by (auto simp: tc_defs split: io.split read_event.split)
qed (use assms in \<open>auto simp: tc_defs split: io.split\<close>)

interpretation tcp_loop: receive_loop tc_step tc_receiving tc_pending tc_delivered "\<lambda>e. e = Start_receive"
  using tc_step_stopped by unfold_locales auto

text \<open>
  C40. Stopping the receive loop is effective: from the moment \<open>stop_receive\<close> (or \<open>close\<close>) has
  returned, and until the next \<open>start_receive\<close>, whatever else happens to the connection, the receive
  callback is called at most once for every read that was outstanding; with none outstanding, never.
\<close>

theorem stop_receive_bounds_delivery:
  assumes "Start_receive \<notin> set es"
  shows "length (tc_delivered (tc_run es (tc_stop_receive c))) \<le> length (tc_delivered c) + tc_pending c"
  using tcp_loop.delivery_bound [of "tc_stop_receive c" es] assms
  by (metis tc_run_def tc_stop_receive_simps)

theorem stop_receive_bounds_delivery_witness:
  "length (tc_delivered (tc_run [Completion (Read_data [1]), Completion (Read_data [2])]
     (tc_stop_receive (tc_start_receive (accepted_connection 1))))) \<le> 1"
  using stop_receive_bounds_delivery [of "[Completion (Read_data [1]), Completion (Read_data [2])]"
      "tc_start_receive (accepted_connection 1)"]
  by (simp add: tc_start_receive_def do_receive_def accepted_connection_def tcp_connection_def)

text \<open>The bound is sharp: one more delivery does happen after the stop.\<close>

lemma delivery_after_stop:
  "tc_delivered (tc_run [Completion (Read_data [1])] (tc_stop_receive (tc_start_receive (accepted_connection 1)))) = [[1]]"
  by (simp add: tc_run_def tc_defs accepted_connection_def tcp_connection_def Let_def)

text \<open>Stopping and starting again while a read is outstanding makes two reads into the one buffer.\<close>

lemma restart_reads_twice:
  "tc_pending (tc_run [Start_receive, Stop_receive, Start_receive] (accepted_connection 1)) = 2"
  by (simp add: tc_run_def tc_defs accepted_connection_def tcp_connection_def)

text \<open>
  A peer that closes is reported by the asynchronous loop, but not by the synchronous \<open>receive\<close>; and in
  both cases the socket is never closed, because \<open>close\<close> finds the connection already disconnected.
\<close>

lemma peer_close_keeps_socket:
  assumes "tc_connected c" "tc_socket_open c" "tc_connection_callback c"
  shows "tc_notified (tc_close (handle_receive Read_eof c)) = tc_notified c @ [False]
    \<and> tc_notified (tc_close (snd (tc_receive (Io_ok Read_eof) c))) = tc_notified c
    \<and> tc_socket_open (tc_close (handle_receive Read_eof c))
    \<and> tc_socket_open (tc_close (snd (tc_receive (Io_ok Read_eof) c)))"
  using assms by (simp add: tc_defs Let_def)

text \<open>The text of an endpoint determines it, also when the address has colons: the port is what follows the last one.\<close>

lemma endpoint_string_inject: "endpoint_string e = endpoint_string f \<longleftrightarrow> e = f"
proof
  assume eq: "endpoint_string e = endpoint_string f"
  have no_colon: "CHR '':'' \<notin> set (dec_string n)" for n
  proof
    assume "CHR '':'' \<in> set (dec_string n)"
    then obtain d where "d < 10" "CHR '':'' = digit_char d" using dec_string_digits by blast
    then show False by (simp add: digit_char_def numeral_eq_Suc less_Suc_eq) (auto simp: digit_char_def)
  qed
  have split: "takeWhile (\<lambda>x. x \<noteq> CHR '':'') (rev (endpoint_string g)) = rev (dec_string (unat (snd g)))"
    "dropWhile (\<lambda>x. x \<noteq> CHR '':'') (rev (endpoint_string g)) = CHR '':'' # rev (fst g)" for g
    using no_colon [of "unat (snd g)"] by (auto simp: endpoint_string_def takeWhile_append dropWhile_append)
  have parts: "dec_string (unat (snd e)) = dec_string (unat (snd f))" "fst e = fst f"
    using split [of e] split [of f] eq by simp_all
  have val: "scan_digits 10 0 (dec_string n) = n" for n
    unfolding dec_string_def by (rule conjunct2 [OF scan_show_base [OF digit_value_10]]) simp_all
  have "unat (snd e) = unat (snd f)" by (metis val parts(1))
  with parts(2) show "e = f" by (simp add: prod_eq_iff word_unat_eq_iff)
qed simp

end
