(* ===== verification/Tcp_Server.thy ===== *)
theory Tcp_Server
  imports Tcp_Connection Containers
begin

text \<open>
  The TCP server (modules/p2p: tcp_server.hpp, tcp_server.cpp). \<open>sv_connections\<close> is the tracking map;
  every connection in it carries the callback that \<open>handle_accept\<close> installs, which removes the
  connection when it is closed. \<open>connections_mutex_\<close> is a \<open>std::mutex\<close>: operations that a
  callback may run inside another operation take the parameter \<open>held\<close>. \<open>sv_accepts\<close> counts the accept
  operations in progress. The arguments of \<open>server_start\<close> are what Asio answers: \<open>addr\<close> the exception of
  \<open>make_address\<close>, \<open>open_exn b\<close> that of opening the acceptor when it is open already (\<open>b\<close>) or not,
  \<open>option_exn\<close> that of \<open>set_option\<close>, \<open>bind_ec\<close> and \<open>listen_ec\<close> the error codes. \<open>sv_next_id\<close> is the static
  counter of the class \<open>TcpConnection\<close>.
\<close>

record TcpServer =
  sv_running :: bool
  sv_port :: u16
  sv_acceptor_open :: bool
  sv_accepts :: nat
  sv_connections :: "(u64 \<times> TcpConnection) list"
  sv_next_id :: u64
  sv_accept_callback :: bool
  sv_accepted :: "u64 list"

definition tcp_server :: TcpServer where
  "tcp_server = \<lparr> sv_running = False, sv_port = 0, sv_acceptor_open = False, sv_accepts = 0, sv_connections = [],
     sv_next_id = 1, sv_accept_callback = False, sv_accepted = [] \<rparr>"

subsection \<open>Operations\<close>

definition do_accept :: "TcpServer \<Rightarrow> TcpServer" where
  "do_accept s = (if \<not> sv_running s then s else s\<lparr>sv_accepts := Suc (sv_accepts s)\<rparr>)"

definition server_start ::
  "string option \<Rightarrow> (bool \<Rightarrow> string option) \<Rightarrow> string option \<Rightarrow> string option \<Rightarrow> string option \<Rightarrow> u16 \<Rightarrow> string \<Rightarrow> TcpServer \<Rightarrow>
   unit TcpResult \<times> TcpServer" where
  "server_start addr open_exn option_exn bind_ec listen_ec port address s =
     (if sv_running s then (make_tcp_error ALREADY_CONNECTED ''Server is already running'', s)
      else case addr of
        Some msg \<Rightarrow> (make_tcp_error CONNECTION_FAILED (''Server start exception: '' @ msg), s)
      | None \<Rightarrow> (case open_exn (sv_acceptor_open s) of
          Some msg \<Rightarrow> (make_tcp_error CONNECTION_FAILED (''Server start exception: '' @ msg), s)
        | None \<Rightarrow> let s1 = s\<lparr>sv_acceptor_open := True\<rparr> in
            (case option_exn of
              Some msg \<Rightarrow> (make_tcp_error CONNECTION_FAILED (''Server start exception: '' @ msg), s1)
            | None \<Rightarrow> (case bind_ec of
              Some msg \<Rightarrow> (make_tcp_error CONNECTION_FAILED
                (''Failed to bind to '' @ address @ '':'' @ dec_string (unat port) @ '': '' @ msg), s1)
            | None \<Rightarrow> (case listen_ec of
                Some msg \<Rightarrow> (make_tcp_error CONNECTION_FAILED (''Failed to listen: '' @ msg), s1)
              | None \<Rightarrow> (Inr (), do_accept (s1\<lparr>sv_port := port, sv_running := True\<rparr>)))))))"

text \<open>
  \<open>remove_connection\<close> closes the connection while it holds the mutex. Closing a connected connection
  calls the connection's callback, which is \<open>remove_connection\<close> again, in the same thread.
\<close>

function remove_connection :: "bool \<Rightarrow> u64 \<Rightarrow> TcpServer \<Rightarrow> TcpServer outcome" where
  "remove_connection held i s =
     (if held then Self_lock
      else case um_lookup (sv_connections s) i of
        None \<Rightarrow> Done s
      | Some c \<Rightarrow>
          outcome_bind
            (if tc_connected c
             then remove_connection True i (s\<lparr>sv_connections := um_insert i (tc_close c) (sv_connections s)\<rparr>)
             else Done s)
            (\<lambda>s1. Done (s1\<lparr>sv_connections := um_erase i (sv_connections s1)\<rparr>)))"
  by pat_completeness auto
termination
  by (relation "measure (\<lambda>(held, i, s). if held then 0 else 1)") auto

declare remove_connection.simps [simp del]

text \<open>\<open>TcpConnection::close\<close> on a tracked connection, with the callback it runs.\<close>

definition close_tracked :: "bool \<Rightarrow> u64 \<Rightarrow> TcpServer \<Rightarrow> TcpServer outcome" where
  "close_tracked held i s =
     (case um_lookup (sv_connections s) i of
        None \<Rightarrow> Done s
      | Some c \<Rightarrow>
          if \<not> tc_connected c then Done s
          else remove_connection held i (s\<lparr>sv_connections := um_insert i (tc_close c) (sv_connections s)\<rparr>))"

fun close_all :: "u64 list \<Rightarrow> TcpServer \<Rightarrow> TcpServer outcome" where
  "close_all [] s = Done s"
| "close_all (i # ids) s = outcome_bind (close_tracked True i s) (close_all ids)"

definition server_stop :: "TcpServer \<Rightarrow> TcpServer outcome" where
  "server_stop s =
     (if \<not> sv_running s then Done s
      else outcome_bind (close_all (map fst (sv_connections s)) (s\<lparr>sv_running := False, sv_acceptor_open := False\<rparr>))
        (\<lambda>s1. Done (s1\<lparr>sv_connections := []\<rparr>)))"

definition connection_count :: "TcpServer \<Rightarrow> nat" where
  "connection_count s = length (sv_connections s)"

definition get_connections :: "TcpServer \<Rightarrow> TcpConnection list" where
  "get_connections s = map snd (sv_connections s)"

definition get_connection :: "u64 \<Rightarrow> TcpServer \<Rightarrow> TcpConnection option" where
  "get_connection i s = um_lookup (sv_connections s) i"

text \<open>
  An asynchronous write is an operation of Asio: \<open>async_write i a n\<close> starts on the socket of connection \<open>i\<close> the write of the
  \<open>n\<close> bytes at address \<open>a\<close>. The vector of a caller is given by its address and its contents; no copy of it is made.
\<close>

definition tc_async_send :: "(u64 \<Rightarrow> nat \<Rightarrow> nat \<Rightarrow> 'io \<Rightarrow> 'io) \<Rightarrow> u64 \<Rightarrow> nat \<times> byte_vector \<Rightarrow> 'io \<Rightarrow> 'io" where
  "tc_async_send async_write i data io = async_write i (fst data) (length (snd data)) io"

definition server_broadcast ::
  "(u64 \<Rightarrow> nat \<Rightarrow> nat \<Rightarrow> 'io \<Rightarrow> 'io) \<Rightarrow> nat \<times> byte_vector \<Rightarrow> TcpServer \<Rightarrow> 'io \<Rightarrow> 'io" where
  "server_broadcast async_write data s io =
     fold (\<lambda>(i, c). if tc_connected c then tc_async_send async_write i data else id) (sv_connections s) io"

text \<open>\<open>err\<close> is the error code of the completed accept; \<open>next_connection_id_++\<close> numbers the connection.\<close>

definition handle_accept :: "bool \<Rightarrow> TcpServer \<Rightarrow> TcpServer" where
  "handle_accept err s0 =
     (let s = s0\<lparr>sv_accepts := sv_accepts s0 - 1\<rparr> in
      if err then (if sv_running s then do_accept s else s)
      else
        let i = sv_next_id s;
            c = tc_set_connection_callback (accepted_connection i);
            s1 = s\<lparr>sv_next_id := i + 1, sv_connections := um_insert i c (sv_connections s)\<rparr>;
            s2 = (if sv_accept_callback s1 then s1\<lparr>sv_accepted := sv_accepted s1 @ [i]\<rparr> else s1)
        in do_accept s2)"

text \<open>\<open>start_receive\<close> on a tracked connection; nothing in the server calls it.\<close>

definition start_tracked :: "u64 \<Rightarrow> TcpServer \<Rightarrow> TcpServer" where
  "start_tracked i s =
     (case um_lookup (sv_connections s) i of
        None \<Rightarrow> s
      | Some c \<Rightarrow> s\<lparr>sv_connections := um_insert i (tc_start_receive c) (sv_connections s)\<rparr>)"

text \<open>
  An asynchronous read of a tracked connection ends: at the end of the stream its callback runs. A connection on which
  no read was started has none that could end.
\<close>

definition tracked_receive :: "read_event \<Rightarrow> u64 \<Rightarrow> TcpServer \<Rightarrow> TcpServer outcome" where
  "tracked_receive ev i s =
     (case um_lookup (sv_connections s) i of
        None \<Rightarrow> Done s
      | Some c \<Rightarrow>
          if tc_pending c = 0 then Done s
          else let c1 = handle_receive ev c; s1 = s\<lparr>sv_connections := um_insert i c1 (sv_connections s)\<rparr>
          in case ev of Read_eof \<Rightarrow> remove_connection False i s1
             | Read_reset _ \<Rightarrow> remove_connection False i s1
             | _ \<Rightarrow> Done s1)"

subsection \<open>Stopping\<close>

lemma remove_connection_unfold:
  "remove_connection False i s =
     (case um_lookup (sv_connections s) i of
        None \<Rightarrow> Done s
      | Some c \<Rightarrow> if tc_connected c then Self_lock
                  else Done (s\<lparr>sv_connections := um_erase i (sv_connections s)\<rparr>))"
  "remove_connection True i s = Self_lock"
  by (auto simp: remove_connection.simps [of False] remove_connection.simps [of True] split: option.split)

lemma close_tracked_connected:
  "um_lookup (sv_connections s) i = Some c \<Longrightarrow>
    close_tracked True i s = (if tc_connected c then Self_lock else Done s)"
  by (simp add: close_tracked_def remove_connection_unfold)

lemma close_all_cases:
  "set ids \<subseteq> dom (um_lookup (sv_connections s)) \<Longrightarrow>
    close_all ids s =
      (if \<exists>i \<in> set ids. tc_connected (the (um_lookup (sv_connections s) i)) then Self_lock else Done s)"
  by (induction ids) (auto simp: close_tracked_connected)

lemma tc_close_disconnected [simp]: "\<not> tc_connected (tc_close c)"
  by (simp add: tc_close_def notify_def)

lemma handle_receive_eof_disconnected [simp]:
  "\<not> tc_connected (handle_receive Read_eof c)" "\<not> tc_connected (handle_receive (Read_reset msg) c)"
  by (simp_all add: handle_receive_def notify_def Let_def)

text \<open>
  C34. A running server that tracks a live connection cannot be stopped, nor can a live connection be
  removed: \<open>stop\<close> and \<open>remove_connection\<close> close it while they hold the mutex, and the callback of the
  connection locks it again. Only when every tracked connection is already dead does \<open>stop\<close> return,
  with no connection left. A connection that its owner closes is removed without a lock, and so is one that its peer
  closes while a read is outstanding on it; when none is, no event of the peer changes the server.
\<close>

theorem server_stop_self_locks:
  assumes "sv_running s" and "distinct_keys (sv_connections s)"
  shows "server_stop s =
      (if \<exists>(i, c) \<in> set (sv_connections s). tc_connected c then Self_lock
       else Done (s\<lparr>sv_running := False, sv_acceptor_open := False, sv_connections := []\<rparr>))
    \<and> (\<forall>i c. (i, c) \<in> set (sv_connections s) \<longrightarrow>
        remove_connection False i s = (if tc_connected c then Self_lock
          else Done (s\<lparr>sv_connections := um_erase i (sv_connections s)\<rparr>))
        \<and> (0 < tc_pending c \<longrightarrow> (\<forall>ev. ev = Read_eof \<or> (\<exists>msg. ev = Read_reset msg) \<longrightarrow>
             (\<exists>s'. tracked_receive ev i s = Done s' \<and> get_connection i s' = None)))
        \<and> (tc_pending c = 0 \<longrightarrow> (\<forall>ev. tracked_receive ev i s = Done s))
        \<and> (tc_connected c \<longrightarrow> (\<exists>s'. close_tracked False i s = Done s' \<and> get_connection i s' = None)))"
proof -
  let ?s = "s\<lparr>sv_running := False, sv_acceptor_open := False\<rparr>"
  have look: "um_lookup (sv_connections s) i = Some c \<longleftrightarrow> (i, c) \<in> set (sv_connections s)" for i c
    using assms(2) by (rule um_lookup_in)
  have "set (map fst (sv_connections s)) \<subseteq> dom (um_lookup (sv_connections ?s))"
    by (auto simp: look dom_def)
  then have "close_all (map fst (sv_connections s)) ?s =
      (if \<exists>(i, c) \<in> set (sv_connections s). tc_connected c then Self_lock else Done ?s)"
    by (subst close_all_cases) (force simp: look [THEN iffD2])+
  then have "server_stop s =
      (if \<exists>(i, c) \<in> set (sv_connections s). tc_connected c then Self_lock
       else Done (s\<lparr>sv_running := False, sv_acceptor_open := False, sv_connections := []\<rparr>))"
    using assms(1) by (simp add: server_stop_def)
  moreover have "remove_connection False i s = (if tc_connected c then Self_lock
          else Done (s\<lparr>sv_connections := um_erase i (sv_connections s)\<rparr>))"
    and "0 < tc_pending c \<Longrightarrow> \<exists>s'. tracked_receive Read_eof i s = Done s' \<and> get_connection i s' = None"
    and "0 < tc_pending c \<Longrightarrow> \<exists>s'. tracked_receive (Read_reset msg) i s = Done s' \<and> get_connection i s' = None"
    and "tc_pending c = 0 \<Longrightarrow> tracked_receive ev i s = Done s"
    and "tc_connected c \<Longrightarrow> \<exists>s'. close_tracked False i s = Done s' \<and> get_connection i s' = None"
    if "(i, c) \<in> set (sv_connections s)" for i c msg ev
    using that assms(2)
    by (simp_all add: look [symmetric] remove_connection_unfold tracked_receive_def close_tracked_def get_connection_def
        um.lookup_insert um.lookup_erase um.invar_insert Let_def)
  ultimately show ?thesis by blast
qed

definition demo_server :: TcpServer where
  "demo_server = handle_accept False (snd (server_start None (\<lambda>_. None) None None None 8333 ''0.0.0.0'' tcp_server))"

lemma demo_server_facts:
  "sv_running demo_server"
  "sv_connections demo_server = [(1, tc_set_connection_callback (accepted_connection 1))]"
  by (simp_all add: demo_server_def handle_accept_def server_start_def tcp_server_def do_accept_def um_insert_def Let_def)

theorem server_stop_self_locks_witness:
  "server_stop demo_server = Self_lock \<and> tracked_receive Read_eof 1 demo_server = Done demo_server
   \<and> (\<exists>s'. tracked_receive Read_eof 1 (start_tracked 1 demo_server) = Done s' \<and> get_connection 1 s' = None)"
proof -
  let ?c = "tc_set_connection_callback (accepted_connection 1)" and ?t = "start_tracked 1 demo_server"
  have t: "sv_running ?t" "sv_connections ?t = [(1, tc_start_receive ?c)]" "0 < tc_pending (tc_start_receive ?c)"
    by (simp_all add: start_tracked_def demo_server_facts um_defs tc_start_receive_def do_receive_def
        tc_set_connection_callback_def accepted_connection_def)
  have "tc_connected ?c" "tc_pending ?c = 0"
    by (simp_all add: tc_set_connection_callback_def accepted_connection_def tcp_connection_def)
  then have "server_stop demo_server = Self_lock \<and> tracked_receive Read_eof 1 demo_server = Done demo_server"
    using server_stop_self_locks [OF demo_server_facts(1)] by (simp add: demo_server_facts(2))
  moreover have "\<exists>s'. tracked_receive Read_eof 1 ?t = Done s' \<and> get_connection 1 s' = None"
    using server_stop_self_locks [OF t(1)] t(2,3) by simp
  ultimately show ?thesis by blast
qed

text \<open>
  An accepted connection starts no read by itself: until somebody calls \<open>start_receive\<close> on it, the server keeps it
  whatever its peer does.
\<close>

lemma accepted_close_unnoticed:
  assumes "distinct_keys (sv_connections s)"
  shows "tracked_receive ev (sv_next_id s) (handle_accept False s) = Done (handle_accept False s)"
    "get_connection (sv_next_id s) (handle_accept False s) \<noteq> None"
proof -
  let ?c = "tc_set_connection_callback (accepted_connection (sv_next_id s))"
  have "um_lookup (sv_connections (handle_accept False s)) (sv_next_id s) = Some ?c"
    using assms by (simp add: handle_accept_def do_accept_def Let_def um.lookup_insert)
  then show "tracked_receive ev (sv_next_id s) (handle_accept False s) = Done (handle_accept False s)"
    "get_connection (sv_next_id s) (handle_accept False s) \<noteq> None"
    by (simp_all add: tracked_receive_def get_connection_def tc_set_connection_callback_def accepted_connection_def tcp_connection_def)
qed

subsection \<open>Broadcasting\<close>

text \<open>
  A broadcast starts one write of the vector of its caller on every live connection, in the order of the map, and none on
  the others; all of them refer to the same memory.
\<close>

lemma server_broadcast_writes:
  "server_broadcast (\<lambda>i a n ws. ws @ [(i, a, n)]) data s ws =
     ws @ map (\<lambda>(i, c). (i, fst data, length (snd data))) (filter (\<lambda>(i, c). tc_connected c) (sv_connections s))"
proof -
  have "fold (\<lambda>(i, c). if tc_connected c then tc_async_send (\<lambda>i a n ws. ws @ [(i, a, n)]) i data else id) cs ws =
      ws @ map (\<lambda>(i, c). (i, fst data, length (snd data))) (filter (\<lambda>(i, c). tc_connected c) cs)" for cs
    by (induction cs arbitrary: ws) (auto simp: tc_async_send_def)
  then show ?thesis by (simp add: server_broadcast_def)
qed

subsection \<open>Starting\<close>

text \<open>
  A failed bind is final: the acceptor stays open, \<open>stop\<close> does nothing while the server is not running,
  and opening an open acceptor throws, so no later start succeeds.
\<close>

lemma failed_bind_is_final:
  assumes open_twice: "open_exn True \<noteq> None"
    and "\<not> sv_running s" "sv_acceptor_open s"
  shows "isl (fst (server_start addr open_exn option_exn bind_ec listen_ec port address s))
    \<and> snd (server_start addr open_exn option_exn bind_ec listen_ec port address s) = s
    \<and> server_stop s = Done s"
  using assms by (auto simp: server_start_def make_tcp_error_def server_stop_def split: option.split)

end
