(* ===== verification/Tcp_Client.thy ===== *)
theory Tcp_Client
  imports Tcp_Connection Containers
begin

text \<open>
  The TCP client with automatic reconnection (modules/p2p: tcp_client.hpp, tcp_client.cpp). Connections are
  reference-counted objects: \<open>cl_heap\<close> holds the live ones by id, \<open>cl_connection\<close> is the pointer
  \<open>connection_\<close>. Besides that pointer an object is kept alive by its outstanding reads and by an attempt
  to connect it that is in progress (\<open>cl_attempts\<close>, with a flag for the attempts made by \<open>do_reconnect\<close>);
  when the last reference goes, the destructor closes it, which may run the connection callback. Other
  owners (copies the user takes with \<open>connection()\<close>) are not modelled. \<open>cl_timer\<close> says that a
  wait of the reconnect timer is pending: setting or cancelling the timer cancels the previous wait.
  \<open>cl_reported\<close> records the calls of the user's connection callback.
\<close>

record TcpClient =
  cl_heap :: "(u64 \<times> TcpConnection) list"
  cl_next_id :: u64
  cl_connection :: "u64 option"
  cl_attempts :: "(u64 \<times> bool) list"
  cl_host :: string
  cl_port :: u16
  cl_auto_reconnect :: bool
  cl_interval :: u64
  cl_timer :: bool
  cl_callback :: bool
  cl_reported :: "bool list"

definition tcp_client :: "u64 \<Rightarrow> TcpClient" where
  "tcp_client i = \<lparr> cl_heap = [], cl_next_id = i, cl_connection = None, cl_attempts = [], cl_host = [], cl_port = 0,
     cl_auto_reconnect = False, cl_interval = 5000, cl_timer = False, cl_callback = False, cl_reported = [] \<rparr>"

subsection \<open>Operations\<close>

definition client_is_connected :: "TcpClient \<Rightarrow> bool" where
  "client_is_connected s =
     (case cl_connection s of
        None \<Rightarrow> False
      | Some i \<Rightarrow> (case um_lookup (cl_heap s) i of None \<Rightarrow> False | Some c \<Rightarrow> tc_connected c))"

definition schedule_reconnect :: "TcpClient \<Rightarrow> TcpClient" where
  "schedule_reconnect s = (if \<not> cl_auto_reconnect s then s else s\<lparr>cl_timer := True\<rparr>)"

text \<open>The callback that the client installs on every connection it makes.\<close>

definition on_connection :: "bool \<Rightarrow> TcpClient \<Rightarrow> TcpClient" where
  "on_connection up s0 =
     (let s = (if cl_callback s0 then s0\<lparr>cl_reported := cl_reported s0 @ [up]\<rparr> else s0)
      in if \<not> up \<and> cl_auto_reconnect s then schedule_reconnect s else s)"

definition close_connection :: "u64 \<Rightarrow> TcpClient \<Rightarrow> TcpClient" where
  "close_connection i s =
     (case um_lookup (cl_heap s) i of
        None \<Rightarrow> s
      | Some c \<Rightarrow> if \<not> tc_connected c then s
                  else on_connection False (s\<lparr>cl_heap := um_insert i (tc_close c) (cl_heap s)\<rparr>))"

text \<open>The end of a reference to the object \<open>i\<close>: the destructor runs when it was the last one.\<close>

definition release :: "u64 \<Rightarrow> TcpClient \<Rightarrow> TcpClient" where
  "release i s =
     (case um_lookup (cl_heap s) i of
        None \<Rightarrow> s
      | Some c \<Rightarrow>
          if cl_connection s = Some i \<or> 0 < tc_pending c \<or> i \<in> fst ` set (cl_attempts s) then s
          else let s1 = close_connection i s in s1\<lparr>cl_heap := um_erase i (cl_heap s1)\<rparr>)"

definition release_opt :: "u64 option \<Rightarrow> TcpClient \<Rightarrow> TcpClient" where
  "release_opt p s = (case p of None \<Rightarrow> s | Some i \<Rightarrow> release i s)"

text \<open>\<open>connection_.reset()\<close>, and \<open>connection_ = TcpConnection::create(...)\<close> with its callback.\<close>

definition reset_connection :: "TcpClient \<Rightarrow> TcpClient" where
  "reset_connection s = release_opt (cl_connection s) (s\<lparr>cl_connection := None\<rparr>)"

definition new_connection :: "TcpClient \<Rightarrow> TcpClient" where
  "new_connection s =
     (let i = cl_next_id s; c = tc_set_connection_callback (tcp_connection i)
      in release_opt (cl_connection s)
           (s\<lparr>cl_heap := um_insert i c (cl_heap s), cl_next_id := i + 1, cl_connection := Some i\<rparr>))"

text \<open>The connection becomes connected; its callback runs.\<close>

definition connected :: "u64 \<Rightarrow> TcpClient \<Rightarrow> TcpClient" where
  "connected i s =
     (case um_lookup (cl_heap s) i of
        None \<Rightarrow> s
      | Some c \<Rightarrow> on_connection True (s\<lparr>cl_heap := um_insert i (tc_async_connected True c) (cl_heap s)\<rparr>))"

definition client_connect :: "unit io \<Rightarrow> string \<Rightarrow> u16 \<Rightarrow> TcpClient \<Rightarrow> unit TcpResult \<times> TcpClient" where
  "client_connect out host port s =
     (if client_is_connected s then (make_tcp_error ALREADY_CONNECTED ''Already connected'', s)
      else
        let s1 = new_connection (s\<lparr>cl_host := host, cl_port := port\<rparr>); i = cl_next_id s
        in case fst (tc_connect out (tcp_connection i)) of
             Inl e \<Rightarrow> (Inl e, reset_connection s1)
           | Inr u \<Rightarrow> (Inr u, connected i s1))"

definition client_connect_timeout ::
  "unit io \<Rightarrow> string \<Rightarrow> u16 \<Rightarrow> u64 \<Rightarrow> TcpClient \<Rightarrow> unit TcpResult \<times> TcpClient" where
  "client_connect_timeout out host port timeout s = client_connect out host port s"

definition start_attempt :: "bool \<Rightarrow> TcpClient \<Rightarrow> TcpClient" where
  "start_attempt again s =
     (let s1 = new_connection s in s1\<lparr>cl_attempts := cl_attempts s1 @ [(cl_next_id s, again)]\<rparr>)"

definition client_async_connect :: "string \<Rightarrow> u16 \<Rightarrow> TcpClient \<Rightarrow> TcpClient" where
  "client_async_connect host port s =
     (if client_is_connected s then s
      else start_attempt False (s\<lparr>cl_host := host, cl_port := port\<rparr>))"

definition do_reconnect :: "TcpClient \<Rightarrow> TcpClient" where
  "do_reconnect s = start_attempt True s"

text \<open>The wait of the timer ends without having been cancelled.\<close>

definition timer_fired :: "TcpClient \<Rightarrow> TcpClient" where
  "timer_fired s0 =
     (let s = s0\<lparr>cl_timer := False\<rparr> in if cl_auto_reconnect s then do_reconnect s else s)"

text \<open>The \<open>n\<close>-th attempt in progress ends; then its handler is destroyed with the reference it holds.\<close>

definition attempt_done :: "nat \<Rightarrow> bool \<Rightarrow> TcpClient \<Rightarrow> TcpClient" where
  "attempt_done n ok s =
     (if n < length (cl_attempts s) then
        let (i, again) = cl_attempts s ! n;
            s1 = (if ok then connected i s else s);
            s2 = (if again \<and> \<not> ok then
                    let s' = reset_connection s1 in if cl_auto_reconnect s' then schedule_reconnect s' else s'
                  else s1)
        in release i (s2\<lparr>cl_attempts := take n (cl_attempts s2) @ drop (Suc n) (cl_attempts s2)\<rparr>)
      else s)"

definition client_disconnect :: "TcpClient \<Rightarrow> TcpClient" where
  "client_disconnect s =
     (let s1 = s\<lparr>cl_auto_reconnect := False, cl_timer := False\<rparr>
      in case cl_connection s1 of
           None \<Rightarrow> s1
         | Some i \<Rightarrow> reset_connection (close_connection i s1))"

definition enable_auto_reconnect :: "u64 \<Rightarrow> TcpClient \<Rightarrow> TcpClient" where
  "enable_auto_reconnect retry_interval s = s\<lparr>cl_auto_reconnect := True, cl_interval := retry_interval\<rparr>"

definition disable_auto_reconnect :: "TcpClient \<Rightarrow> TcpClient" where
  "disable_auto_reconnect s = s\<lparr>cl_auto_reconnect := False, cl_timer := False\<rparr>"

definition client_send :: "nat io \<Rightarrow> TcpClient \<Rightarrow> nat TcpResult" where
  "client_send out s =
     (if \<not> client_is_connected s then make_tcp_error NOT_CONNECTED ''Not connected''
      else case cl_connection s of
        None \<Rightarrow> make_tcp_error NOT_CONNECTED ''Not connected''
      | Some i \<Rightarrow> tc_send out (the (um_lookup (cl_heap s) i)))"

definition on_current :: "(TcpConnection \<Rightarrow> TcpConnection) \<Rightarrow> TcpClient \<Rightarrow> TcpClient" where
  "on_current f s =
     (case cl_connection s of
        None \<Rightarrow> s
      | Some i \<Rightarrow> (case um_lookup (cl_heap s) i of
                     None \<Rightarrow> s | Some c \<Rightarrow> s\<lparr>cl_heap := um_insert i (f c) (cl_heap s)\<rparr>))"

definition client_start_receive :: "TcpClient \<Rightarrow> TcpClient" where
  "client_start_receive s = (if client_is_connected s then on_current tc_start_receive s else s)"

definition client_stop_receive :: "TcpClient \<Rightarrow> TcpClient" where
  "client_stop_receive s = on_current tc_stop_receive s"

definition client_set_connection_callback :: "TcpClient \<Rightarrow> TcpClient" where
  "client_set_connection_callback s = s\<lparr>cl_callback := True\<rparr>"

text \<open>An outstanding read of the object \<open>i\<close> ends.\<close>

definition read_done :: "u64 \<Rightarrow> read_event \<Rightarrow> TcpClient \<Rightarrow> TcpClient" where
  "read_done i ev s =
     (case um_lookup (cl_heap s) i of
        None \<Rightarrow> s
      | Some c \<Rightarrow>
          if tc_pending c = 0 then s
          else
            let s1 = s\<lparr>cl_heap := um_insert i (handle_receive ev c) (cl_heap s)\<rparr>;
                s2 = (case ev of Read_eof \<Rightarrow> on_connection False s1 | Read_reset _ \<Rightarrow> on_connection False s1 | _ \<Rightarrow> s1)
            in release i s2)"

lemmas cl_defs = on_connection_def schedule_reconnect_def close_connection_def release_def release_opt_def
  reset_connection_def new_connection_def connected_def start_attempt_def do_reconnect_def timer_fired_def
  attempt_done_def read_done_def on_current_def

subsection \<open>Runs\<close>

datatype cl_event = Client_connect "unit io" string u16 | Client_async_connect string u16 | Client_disconnect
  | Enable_auto u64 | Disable_auto | Client_start_receive | Client_stop_receive | Set_user_callback
  | Timer_fires | Attempt_done nat bool | Read_done u64 read_event

fun cl_step :: "cl_event \<Rightarrow> TcpClient \<Rightarrow> TcpClient" where
  "cl_step (Client_connect out host port) s = snd (client_connect out host port s)"
| "cl_step (Client_async_connect host port) s = client_async_connect host port s"
| "cl_step Client_disconnect s = client_disconnect s"
| "cl_step (Enable_auto ms) s = enable_auto_reconnect ms s"
| "cl_step Disable_auto s = disable_auto_reconnect s"
| "cl_step Client_start_receive s = client_start_receive s"
| "cl_step Client_stop_receive s = client_stop_receive s"
| "cl_step Set_user_callback s = client_set_connection_callback s"
| "cl_step Timer_fires s = (if cl_timer s then timer_fired s else s)"
| "cl_step (Attempt_done n ok) s = attempt_done n ok s"
| "cl_step (Read_done i ev) s = read_done i ev s"

definition cl_run :: "cl_event list \<Rightarrow> TcpClient \<Rightarrow> TcpClient" where
  "cl_run es s = fold cl_step es s"

lemma cl_run_simps [simp]:
  "cl_run [] s = s" "cl_run (e # es) s = cl_run es (cl_step e s)"
  "cl_run (es @ fs) s = cl_run fs (cl_run es s)"
  by (simp_all add: cl_run_def)

text \<open>The timer only waits while automatic reconnection is on; the pointer is never dangling.\<close>

definition live_pointer :: "(u64 \<times> TcpConnection) list \<Rightarrow> u64 option \<Rightarrow> bool" where
  "live_pointer heap p = (case p of None \<Rightarrow> True | Some i \<Rightarrow> um_lookup heap i \<noteq> None)"

lemma live_pointer_simps [simp]:
  "live_pointer heap None" "live_pointer heap (Some i) \<longleftrightarrow> um_lookup heap i \<noteq> None"
  by (simp_all add: live_pointer_def)

lemma live_pointer_insert: "distinct_keys heap \<Longrightarrow> live_pointer heap p \<Longrightarrow> live_pointer (um_insert i c heap) p"
  by (cases p) (simp_all add: um.lookup_insert)

lemma live_pointer_erase: "distinct_keys heap \<Longrightarrow> live_pointer heap p \<Longrightarrow> p \<noteq> Some i \<Longrightarrow> live_pointer (um_erase i heap) p"
  by (cases p) (simp_all add: um.lookup_erase)

definition client_inv :: "TcpClient \<Rightarrow> bool" where
  "client_inv s \<longleftrightarrow> distinct_keys (cl_heap s) \<and> (cl_timer s \<longrightarrow> cl_auto_reconnect s)
     \<and> live_pointer (cl_heap s) (cl_connection s)"

lemma on_connection_inv [simp]: "client_inv s \<Longrightarrow> client_inv (on_connection up s)"
  by (auto simp: client_inv_def on_connection_def schedule_reconnect_def Let_def)

lemma client_inv_update:
  "client_inv s \<Longrightarrow> client_inv (s\<lparr>cl_heap := um_insert i c (cl_heap s)\<rparr>)"
  by (auto simp: client_inv_def um.invar_insert live_pointer_insert)

lemma close_connection_inv [simp]: "client_inv s \<Longrightarrow> client_inv (close_connection i s)"
  by (auto simp: close_connection_def intro!: on_connection_inv client_inv_update split: option.split)

lemma on_connection_fields [simp]:
  "cl_connection (on_connection up s) = cl_connection s" "cl_heap (on_connection up s) = cl_heap s"
  "cl_auto_reconnect (on_connection up s) = cl_auto_reconnect s" "cl_attempts (on_connection up s) = cl_attempts s"
  "cl_next_id (on_connection up s) = cl_next_id s"
  by (simp_all add: on_connection_def schedule_reconnect_def Let_def)

lemma close_connection_fields [simp]:
  "cl_connection (close_connection i s) = cl_connection s"
  "cl_auto_reconnect (close_connection i s) = cl_auto_reconnect s"
  "cl_attempts (close_connection i s) = cl_attempts s"
  by (simp_all add: close_connection_def split: option.split)

lemma release_fields [simp]:
  "cl_connection (release i s) = cl_connection s" "cl_auto_reconnect (release i s) = cl_auto_reconnect s"
  "cl_attempts (release i s) = cl_attempts s"
  by (simp_all add: release_def Let_def split: option.split)

lemma release_inv [simp]: "client_inv s \<Longrightarrow> client_inv (release i s)"
  using close_connection_inv [of s i]
  by (auto simp: release_def Let_def client_inv_def um.invar_erase live_pointer_erase split: option.splits)

lemma release_opt_inv [simp]: "client_inv s \<Longrightarrow> client_inv (release_opt p s)"
  by (auto simp: release_opt_def split: option.split)

lemma reset_connection_inv [simp]: "client_inv s \<Longrightarrow> client_inv (reset_connection s)"
  unfolding reset_connection_def by (rule release_opt_inv) (simp add: client_inv_def)

lemma new_connection_inv [simp]: "client_inv s \<Longrightarrow> client_inv (new_connection s)"
  unfolding new_connection_def Let_def
  by (rule release_opt_inv) (simp add: client_inv_def um.invar_insert um.lookup_insert)

lemma connected_inv [simp]: "client_inv s \<Longrightarrow> client_inv (connected i s)"
  by (auto simp: connected_def intro!: on_connection_inv client_inv_update split: option.split)

lemma client_inv_attempts [simp]: "client_inv (s\<lparr>cl_attempts := as\<rparr>) = client_inv s"
  by (simp add: client_inv_def)

lemma client_inv_address [simp]: "client_inv (s\<lparr>cl_host := h, cl_port := p\<rparr>) = client_inv s"
  by (simp add: client_inv_def)

lemma start_attempt_inv [simp]: "client_inv s \<Longrightarrow> client_inv (start_attempt b s)"
  by (auto simp: start_attempt_def Let_def)

lemma client_inv_timer: "client_inv s \<Longrightarrow> client_inv (s\<lparr>cl_timer := False\<rparr>)"
  "client_inv s \<Longrightarrow> client_inv (s\<lparr>cl_auto_reconnect := False, cl_timer := False\<rparr>)"
  by (simp_all add: client_inv_def)

lemma schedule_reconnect_inv [simp]: "client_inv s \<Longrightarrow> client_inv (schedule_reconnect s)"
  by (auto simp: client_inv_def schedule_reconnect_def)

lemma on_current_inv [simp]: "client_inv s \<Longrightarrow> client_inv (on_current f s)"
  by (auto simp: on_current_def intro!: client_inv_update split: option.split)

lemma attempt_done_inv: "client_inv s \<Longrightarrow> client_inv (attempt_done n ok s)"
  by (auto simp: attempt_done_def Let_def case_prod_unfold)

lemma read_done_inv: "client_inv s \<Longrightarrow> client_inv (read_done i ev s)"
  by (auto simp: read_done_def Let_def intro!: release_inv on_connection_inv client_inv_update
      split: option.split read_event.split)

lemma cl_step_inv: "client_inv s \<Longrightarrow> client_inv (cl_step e s)"
proof (cases e)
  case (Client_connect out host port)
  moreover assume "client_inv s"
  ultimately show ?thesis by (auto simp: client_connect_def Let_def split: sum.split)
next
  case Client_disconnect
  moreover assume "client_inv s"
  ultimately show ?thesis
    by (auto simp: client_disconnect_def Let_def client_inv_timer split: option.split)
qed (auto simp: client_async_connect_def enable_auto_reconnect_def disable_auto_reconnect_def client_start_receive_def
    client_stop_receive_def client_set_connection_callback_def timer_fired_def do_reconnect_def Let_def
    client_inv_timer attempt_done_inv read_done_inv, (simp add: client_inv_def)+)

text \<open>
  Whatever sequence of calls, completions and timer events a client goes through, it never waits to
  reconnect while automatic reconnection is off, and its connection pointer is never dangling.
\<close>

theorem client_run_inv: "client_inv (cl_run es (tcp_client i))"
proof -
  have "client_inv s \<Longrightarrow> client_inv (cl_run es s)" for s
    by (induction es arbitrary: s) (simp_all add: cl_step_inv)
  then show ?thesis by (simp add: client_inv_def tcp_client_def)
qed

subsection \<open>Reconnection\<close>

text \<open>
  A client between two attempts: automatic reconnection is on, the timer waits, and the only object
  left, if any, is a dead connection.
\<close>

definition retrying :: "TcpClient \<Rightarrow> bool" where
  "retrying s \<longleftrightarrow> cl_auto_reconnect s \<and> cl_timer s \<and> cl_attempts s = [] \<and>
     (case cl_connection s of
        None \<Rightarrow> cl_heap s = []
      | Some i \<Rightarrow> cl_next_id s \<noteq> i \<and>
          (\<exists>c. cl_heap s = [(i, c)] \<and> \<not> tc_connected c \<and> tc_pending c = 0))"

lemma um_single [simp]:
  "um_lookup [(i, c)] j = (if j = i then Some c else None)" "um_lookup [] j = None"
  "um_insert i d [(i, c)] = [(i, d)]" "um_insert i d [] = [(i, d)]" "um_erase i [(i, c)] = []"
  "j \<noteq> i \<Longrightarrow> um_insert j d [(i, c)] = [(i, c), (j, d)]"
  "j \<noteq> i \<Longrightarrow> um_lookup [(i, c), (j, d)] k = (if k = i then Some c else if k = j then Some d else None)"
  "j \<noteq> i \<Longrightarrow> um_erase i [(i, c), (j, d)] = [(j, d)]"
  by (auto simp: um_defs)

lemma timer_retrying:
  assumes "retrying s"
  shows "timer_fired s = s\<lparr>cl_timer := False, cl_next_id := cl_next_id s + 1, cl_connection := Some (cl_next_id s),
     cl_heap := [(cl_next_id s, tc_set_connection_callback (tcp_connection (cl_next_id s)))],
     cl_attempts := [(cl_next_id s, True)]\<rparr>"
  using assms by (auto simp: retrying_def cl_defs Let_def split: option.splits)

lemma retry_fails: "retrying s \<Longrightarrow> retrying (cl_run [Timer_fires, Attempt_done 0 False] s)"
  by (frule timer_retrying) (simp add: retrying_def cl_defs Let_def tc_set_connection_callback_def tcp_connection_def)

lemma retry_succeeds:
  assumes "retrying s"
  shows "let s' = cl_run [Timer_fires, Attempt_done 0 True] s in
    client_is_connected s' \<and> cl_connection s' = Some (cl_next_id s) \<and> \<not> cl_timer s' \<and> cl_attempts s' = []
    \<and> (case um_lookup (cl_heap s') (cl_next_id s) of None \<Rightarrow> False | Some c \<Rightarrow> \<not> tc_receiving c)"
  using timer_retrying [OF assms] assms
  by (simp add: retrying_def cl_defs Let_def client_is_connected_def tc_async_connected_def notify_def
      tc_set_connection_callback_def tcp_connection_def)

lemma retry_rounds: "retrying s \<Longrightarrow> retrying (cl_run (concat (replicate k [Timer_fires, Attempt_done 0 False])) s)"
proof (induction k arbitrary: s)
  case (Suc k)
  then show ?case using retry_fails [of s] by simp
qed simp

text \<open>
  C13. Reconnection comes to an end: a receiving client with automatic reconnection whose peer closes
  is connected again, on a new connection, after any number of failed attempts followed by a successful
  one. The receive loop, however, is not restarted on it.
\<close>

theorem client_reconnects:
  assumes "cl_auto_reconnect s" "cl_attempts s = []" "cl_connection s = Some i" "cl_heap s = [(i, c)]"
    and "cl_next_id s \<noteq> i" "tc_connected c" "tc_receiving c" "tc_pending c = 1"
  shows "let s' = cl_run (Read_done i Read_eof # concat (replicate k [Timer_fires, Attempt_done 0 False])
             @ [Timer_fires, Attempt_done 0 True]) s in
    client_is_connected s' \<and> \<not> cl_timer s' \<and> cl_attempts s' = []
    \<and> (case cl_connection s' of None \<Rightarrow> False | Some j \<Rightarrow>
         (case um_lookup (cl_heap s') j of None \<Rightarrow> False | Some c' \<Rightarrow> \<not> tc_receiving c'))"
proof -
  have "retrying (cl_step (Read_done i Read_eof) s)"
    using assms by (simp add: retrying_def cl_defs Let_def handle_receive_def notify_def)
  then have "retrying (cl_run (Read_done i Read_eof # concat (replicate k [Timer_fires, Attempt_done 0 False])) s)"
    by (simp add: retry_rounds)
  from retry_succeeds [OF this] show ?thesis
    by (simp add: Let_def)
qed

definition demo_client :: TcpClient where
  "demo_client = cl_run [Enable_auto 1000, Client_connect (Io_ok ()) ''node'' 8333, Client_start_receive] (tcp_client 1)"

lemma demo_client_eq:
  "demo_client = (tcp_client 1)\<lparr>cl_host := ''node'', cl_port := 8333, cl_auto_reconnect := True, cl_interval := 1000,
     cl_next_id := 2, cl_connection := Some 1,
     cl_heap := [(1, tc_start_receive (tc_async_connected True (tc_set_connection_callback (tcp_connection 1))))]\<rparr>"
  by (simp add: demo_client_def enable_auto_reconnect_def client_connect_def client_is_connected_def cl_defs
      tc_connect_def client_start_receive_def tcp_client_def tcp_connection_def tc_set_connection_callback_def
      tc_async_connected_def notify_def Let_def)

theorem client_reconnects_witness:
  "client_is_connected (cl_run [Read_done 1 Read_eof, Timer_fires, Attempt_done 0 False, Timer_fires, Attempt_done 0 True]
     demo_client)"
proof -
  let ?c = "tc_start_receive (tc_async_connected True (tc_set_connection_callback (tcp_connection 1)))"
  have "tc_connected ?c" "tc_receiving ?c" "tc_pending ?c = 1"
    by (simp_all add: tc_defs tcp_connection_def)
  with client_reconnects [of demo_client 1 ?c 1] show ?thesis
    by (simp add: demo_client_eq tcp_client_def Let_def)
qed

text \<open>
  Reconnecting never looks at the connection it replaces. If the timer fires while the client is
  connected (the user has connected by hand meanwhile) and no read is outstanding, the good connection
  is destroyed, its callback reports the loss and starts the timer: the client replaces a good connection
  by another one each time the timer fires, for ever.
\<close>

definition idle_waiting :: "TcpClient \<Rightarrow> bool" where
  "idle_waiting s \<longleftrightarrow> cl_auto_reconnect s \<and> cl_timer s \<and> cl_attempts s = [] \<and>
     (\<exists>i c. cl_connection s = Some i \<and> cl_heap s = [(i, c)] \<and> cl_next_id s = i + 1 \<and> tc_connected c \<and> tc_pending c = 0)"

lemma on_connection_timer [simp]:
  "cl_timer (on_connection up s) \<longleftrightarrow> cl_timer s \<or> \<not> up \<and> cl_auto_reconnect s"
  by (simp add: on_connection_def schedule_reconnect_def Let_def)

lemma um_insert_first: "j \<noteq> i \<Longrightarrow> um_insert i e [(i, c), (j, d)] = [(i, e), (j, d)]"
  by (simp add: um_insert_def)

lemma timer_replaces_connection:
  assumes "idle_waiting s" "t = timer_fired s" "n = cl_next_id s"
  shows "cl_auto_reconnect t" "cl_timer t" "cl_attempts t = [(n, True)]" "cl_connection t = Some n"
    "cl_next_id t = n + 1" "cl_heap t = [(n, tc_set_connection_callback (tcp_connection n))]"
  using assms
  by (auto simp: idle_waiting_def timer_fired_def do_reconnect_def start_attempt_def new_connection_def
      release_opt_def release_def close_connection_def um_insert_first Let_def)

lemma reconnect_storm_round:
  assumes "idle_waiting s" "s' = cl_run [Timer_fires, Attempt_done 0 True] s"
  shows "idle_waiting s' \<and> cl_next_id s' = cl_next_id s + 1"
proof -
  have "s' = attempt_done 0 True (timer_fired s)"
    using assms by (simp add: idle_waiting_def)
  then show ?thesis
    using timer_replaces_connection [OF assms(1) refl refl]
    by (simp add: idle_waiting_def attempt_done_def connected_def release_def tc_async_connected_def notify_def
        tc_set_connection_callback_def tcp_connection_def Let_def)
qed

lemma reconnect_storm:
  "idle_waiting s \<Longrightarrow>
    let s' = cl_run (concat (replicate k [Timer_fires, Attempt_done 0 True])) s
    in idle_waiting s' \<and> cl_next_id s' = cl_next_id s + of_nat k"
proof (induction k arbitrary: s)
  case (Suc k)
  from reconnect_storm_round [OF Suc.prems refl] Suc.IH show ?case by (simp add: Let_def)
qed simp

definition quiet :: "TcpClient \<Rightarrow> bool" where
  "quiet s \<longleftrightarrow> \<not> cl_auto_reconnect s \<and> \<not> cl_timer s"

lemma quiet_update [simp]:
  "quiet (s\<lparr>cl_heap := h\<rparr>) = quiet s" "quiet (s\<lparr>cl_connection := p\<rparr>) = quiet s"
  "quiet (s\<lparr>cl_attempts := as\<rparr>) = quiet s" "quiet (s\<lparr>cl_host := host\<rparr>) = quiet s"
  "quiet (s\<lparr>cl_port := port\<rparr>) = quiet s" "quiet (s\<lparr>cl_next_id := n\<rparr>) = quiet s"
  "quiet (s\<lparr>cl_auto_reconnect := False, cl_timer := False\<rparr>)" "quiet (s\<lparr>cl_callback := b\<rparr>) = quiet s"
  by (simp_all add: quiet_def)

lemma quiet_on_connection [simp]: "quiet s \<Longrightarrow> quiet (on_connection up s)"
  by (simp add: quiet_def on_connection_def Let_def)

lemma quiet_close_connection [simp]: "quiet s \<Longrightarrow> quiet (close_connection i s)"
  by (simp add: close_connection_def split: option.split)

lemma quiet_release [simp]: "quiet s \<Longrightarrow> quiet (release i s)" "quiet s \<Longrightarrow> quiet (release_opt p s)"
  by (simp_all add: release_def release_opt_def Let_def split: option.split)

lemma quiet_connection [simp]:
  "quiet s \<Longrightarrow> quiet (reset_connection s)" "quiet s \<Longrightarrow> quiet (new_connection s)" "quiet s \<Longrightarrow> quiet (connected i s)"
  "quiet s \<Longrightarrow> quiet (schedule_reconnect s)"
  by (simp_all add: reset_connection_def new_connection_def connected_def Let_def split: option.split)
    (simp add: quiet_def schedule_reconnect_def)

lemma quiet_step:
  assumes "quiet s" "\<forall>ms. e \<noteq> Enable_auto ms"
  shows "quiet (cl_step e s)"
proof (cases e)
  case (Attempt_done n ok)
  then show ?thesis using assms by (simp add: attempt_done_def Let_def case_prod_unfold)
next
  case (Read_done i ev)
  then show ?thesis using assms by (simp add: read_done_def Let_def split: option.split read_event.split)
next
  case Timer_fires
  then show ?thesis using assms by (simp add: quiet_def)
qed (use assms in \<open>simp_all add: client_connect_def client_async_connect_def client_disconnect_def
    disable_auto_reconnect_def client_start_receive_def client_stop_receive_def on_current_def
    client_set_connection_callback_def start_attempt_def Let_def split: option.split sum.split\<close>)

lemma quiet_run: "quiet s \<Longrightarrow> \<forall>ms. Enable_auto ms \<notin> set es \<Longrightarrow> quiet (cl_run es s)"
proof (induction es arbitrary: s)
  case (Cons e es)
  then have "quiet (cl_step e s)" by (intro quiet_step) auto
  with Cons show ?case by simp
qed simp

text \<open>
  \<open>disconnect\<close> is final: until automatic reconnection is enabled again, whatever completes
  afterwards, the timer is never started and no reconnection is attempted.
\<close>

theorem disconnect_is_final:
  assumes "\<And>ms. Enable_auto ms \<notin> set es"
  shows "\<not> cl_auto_reconnect (cl_run es (client_disconnect s)) \<and> \<not> cl_timer (cl_run es (client_disconnect s))"
proof -
  have "quiet (client_disconnect s)" by (simp add: client_disconnect_def Let_def split: option.split)
  then have "quiet (cl_run es (client_disconnect s))" using assms by (simp add: quiet_run)
  then show ?thesis by (simp add: quiet_def)
qed

theorem disconnect_is_final_witness:
  "\<not> cl_timer (cl_run [Read_done 1 Read_eof, Timer_fires] (client_disconnect demo_client))"
  using disconnect_is_final [of "[Read_done 1 Read_eof, Timer_fires]" demo_client] by simp

end
