(* ===== verification/Udp_Transport.thy ===== *)
theory Udp_Transport
  imports Async_Io
begin

text \<open>
  The UDP transport (modules/p2p: udp_transport.hpp, udp_transport.cpp). As for the connections of
  TCP, the answers of Asio are arguments: \<open>addr\<close> the exception of \<open>make_address\<close>, \<open>open_ec b\<close> the error of
  opening the socket when it is open already (\<open>b\<close>) or not, and so on; \<open>ut_pending\<close> counts the receive
  operations in progress, \<open>ut_delivered\<close> the calls of the receive callback. The socket options
  and the multicast groups of the socket are not part of the state.
\<close>

subsection \<open>Data\<close>

datatype UdpError = UDP_BIND_FAILED | UDP_SEND_FAILED | UDP_RECEIVE_FAILED | UDP_INVALID_ADDRESS | UDP_NOT_BOUND

type_synonym 'a UdpResult = "(UdpError \<times> string) + 'a"

record UdpEndpoint =
  ue_address :: string
  ue_port :: u16

definition udp_endpoint_string :: "UdpEndpoint \<Rightarrow> string" where
  "udp_endpoint_string e = ue_address e @ '':'' @ dec_string (unat (ue_port e))"

record UdpTransport =
  ut_bound :: bool
  ut_receiving :: bool
  ut_port :: u16
  ut_socket_open :: bool
  ut_pending :: nat
  ut_callback :: bool
  ut_delivered :: "(byte_vector \<times> UdpEndpoint) list"

definition make_udp_error :: "UdpError \<Rightarrow> string \<Rightarrow> 'a UdpResult" where
  "make_udp_error code msg = Inl (code, msg)"

definition udp_transport :: UdpTransport where
  "udp_transport = \<lparr> ut_bound = False, ut_receiving = False, ut_port = 0, ut_socket_open = False, ut_pending = 0,
     ut_callback = False, ut_delivered = [] \<rparr>"

subsection \<open>Operations\<close>

definition udp_bind ::
  "string option \<Rightarrow> (bool \<Rightarrow> string option) \<Rightarrow> string option \<Rightarrow> u16 \<Rightarrow> string \<Rightarrow> UdpTransport \<Rightarrow>
   unit UdpResult \<times> UdpTransport" where
  "udp_bind addr open_ec bind_ec port address t =
     (if ut_bound t then (make_udp_error UDP_BIND_FAILED ''Already bound'', t)
      else case addr of
        Some msg \<Rightarrow> (make_udp_error UDP_BIND_FAILED (''Bind exception: '' @ msg), t)
      | None \<Rightarrow> (case open_ec (ut_socket_open t) of
          Some msg \<Rightarrow> (make_udp_error UDP_BIND_FAILED (''Failed to open socket: '' @ msg), t)
        | None \<Rightarrow> let t1 = t\<lparr>ut_socket_open := True\<rparr> in
            (case bind_ec of
              Some msg \<Rightarrow> (make_udp_error UDP_BIND_FAILED
                (''Failed to bind to '' @ address @ '':'' @ dec_string (unat port) @ '': '' @ msg), t1)
            | None \<Rightarrow> (Inr (), t1\<lparr>ut_port := port, ut_bound := True\<rparr>))))"

definition udp_close :: "UdpTransport \<Rightarrow> UdpTransport" where
  "udp_close t = (if \<not> ut_bound t then t else t\<lparr>ut_bound := False, ut_receiving := False, ut_socket_open := False\<rparr>)"

definition send_to :: "string option \<Rightarrow> nat io \<Rightarrow> UdpTransport \<Rightarrow> nat UdpResult" where
  "send_to addr out t =
     (if \<not> ut_bound t then make_udp_error UDP_NOT_BOUND ''Socket not bound''
      else case addr of
        Some msg \<Rightarrow> make_udp_error UDP_SEND_FAILED (''Send exception: '' @ msg)
      | None \<Rightarrow> (case out of
          Io_error msg \<Rightarrow> make_udp_error UDP_SEND_FAILED (''Send failed: '' @ msg)
        | Io_throw msg \<Rightarrow> make_udp_error UDP_SEND_FAILED (''Send exception: '' @ msg)
        | Io_ok n \<Rightarrow> Inr n))"

text \<open>What the handler of \<open>async_send_to\<close> is given; an address that does not parse is reported at once.\<close>

definition async_send_to :: "string option \<Rightarrow> nat io \<Rightarrow> string option \<times> nat" where
  "async_send_to addr out =
     (case addr of
        Some _ \<Rightarrow> (Some ''Invalid argument'', 0)
      | None \<Rightarrow> (case out of
          Io_ok n \<Rightarrow> (None, n)
        | Io_error msg \<Rightarrow> (Some msg, 0)
        | Io_throw _ \<Rightarrow> (Some ''Invalid argument'', 0)))"

definition broadcast :: "string option \<Rightarrow> nat io \<Rightarrow> UdpTransport \<Rightarrow> nat UdpResult" where
  "broadcast option_ec out t =
     (if \<not> ut_bound t then make_udp_error UDP_NOT_BOUND ''Socket not bound''
      else case option_ec of
        Some msg \<Rightarrow> make_udp_error UDP_SEND_FAILED (''Failed to enable broadcast: '' @ msg)
      | None \<Rightarrow> (case out of
          Io_error msg \<Rightarrow> make_udp_error UDP_SEND_FAILED (''Broadcast failed: '' @ msg)
        | Io_throw msg \<Rightarrow> make_udp_error UDP_SEND_FAILED (''Broadcast exception: '' @ msg)
        | Io_ok n \<Rightarrow> Inr n))"

definition join_multicast :: "unit io \<Rightarrow> UdpTransport \<Rightarrow> unit UdpResult" where
  "join_multicast out t =
     (if \<not> ut_bound t then make_udp_error UDP_NOT_BOUND ''Socket not bound''
      else case out of
        Io_error msg \<Rightarrow> make_udp_error UDP_BIND_FAILED (''Failed to join multicast group: '' @ msg)
      | Io_throw msg \<Rightarrow> make_udp_error UDP_BIND_FAILED (''Multicast join exception: '' @ msg)
      | Io_ok u \<Rightarrow> Inr u)"

definition leave_multicast :: "unit io \<Rightarrow> UdpTransport \<Rightarrow> unit UdpResult" where
  "leave_multicast out t =
     (if \<not> ut_bound t then make_udp_error UDP_NOT_BOUND ''Socket not bound''
      else case out of
        Io_error msg \<Rightarrow> make_udp_error UDP_BIND_FAILED (''Failed to leave multicast group: '' @ msg)
      | Io_throw msg \<Rightarrow> make_udp_error UDP_BIND_FAILED (''Multicast leave exception: '' @ msg)
      | Io_ok u \<Rightarrow> Inr u)"

definition local_endpoint :: "UdpEndpoint io \<Rightarrow> UdpEndpoint UdpResult" where
  "local_endpoint out =
     (case out of
        Io_error msg \<Rightarrow> make_udp_error UDP_NOT_BOUND (''Failed to get local endpoint: '' @ msg)
      | Io_throw msg \<Rightarrow> make_udp_error UDP_NOT_BOUND (''Local endpoint exception: '' @ msg)
      | Io_ok e \<Rightarrow> Inr e)"

definition udp_do_receive :: "UdpTransport \<Rightarrow> UdpTransport" where
  "udp_do_receive t =
     (if \<not> ut_receiving t \<or> \<not> ut_bound t then t else t\<lparr>ut_pending := Suc (ut_pending t)\<rparr>)"

definition udp_start_receive :: "UdpTransport \<Rightarrow> UdpTransport" where
  "udp_start_receive t = udp_do_receive (t\<lparr>ut_callback := True, ut_receiving := True\<rparr>)"

definition udp_stop_receive :: "UdpTransport \<Rightarrow> UdpTransport" where
  "udp_stop_receive t = t\<lparr>ut_receiving := False\<rparr>"

text \<open>A receive operation ends: with \<open>None\<close>, an error, or with a datagram and its sender.\<close>

definition udp_handle_receive :: "(byte_vector \<times> UdpEndpoint) option \<Rightarrow> UdpTransport \<Rightarrow> UdpTransport" where
  "udp_handle_receive ev t0 =
     (let t = t0\<lparr>ut_pending := ut_pending t0 - 1\<rparr> in
      case ev of
        None \<Rightarrow> t
      | Some (bs, sender) \<Rightarrow>
          udp_do_receive
            (if ut_callback t \<and> bs \<noteq> [] then t\<lparr>ut_delivered := ut_delivered t @ [(bs, sender)]\<rparr> else t))"

lemmas ut_defs = udp_bind_def udp_close_def udp_do_receive_def udp_start_receive_def udp_stop_receive_def
  udp_handle_receive_def Let_def

subsection \<open>The receive loop\<close>

datatype ut_event = Bind "string option" "bool \<Rightarrow> string option" "string option" u16 string | Udp_close
  | Udp_start_receive | Udp_stop_receive | Datagram "(byte_vector \<times> UdpEndpoint) option"

fun ut_step :: "ut_event \<Rightarrow> UdpTransport \<Rightarrow> UdpTransport" where
  "ut_step (Bind addr open_ec bind_ec port address) t = snd (udp_bind addr open_ec bind_ec port address t)"
| "ut_step Udp_close t = udp_close t"
| "ut_step Udp_start_receive t = udp_start_receive t"
| "ut_step Udp_stop_receive t = udp_stop_receive t"
| "ut_step (Datagram ev) t = (if 0 < ut_pending t then udp_handle_receive ev t else t)"

lemma ut_step_stopped:
  assumes "\<not> ut_receiving t" "e \<noteq> Udp_start_receive"
  shows "\<not> ut_receiving (ut_step e t)
    \<and> length (ut_delivered (ut_step e t)) + ut_pending (ut_step e t) \<le> length (ut_delivered t) + ut_pending t"
  using assms by (cases e) (auto simp: ut_defs split: option.split)

interpretation udp_loop: receive_loop ut_step ut_receiving ut_pending ut_delivered "\<lambda>e. e = Udp_start_receive"
  using ut_step_stopped by unfold_locales auto

lemma udp_stop_bounds_delivery:
  "Udp_start_receive \<notin> set es \<Longrightarrow>
    length (ut_delivered (fold ut_step es (udp_stop_receive t))) \<le> length (ut_delivered t) + ut_pending t"
  using udp_loop.delivery_bound [of "udp_stop_receive t" es] by (force simp: udp_stop_receive_def)

text \<open>
  C35. The receive loop of a bound transport hands every datagram that is not empty to the callback, once,
  in the order of arrival and with its sender, and always has exactly one receive in progress. The first
  receive error ends it for good: nothing that arrives later is delivered, although the transport still
  counts as bound and receiving.
\<close>

theorem udp_receive_loop:
  assumes "ut_bound t" "ut_receiving t" "ut_callback t" "ut_pending t = 1"
  shows "let t' = fold ut_step (map (Datagram \<circ> Some) ds) t;
             t'' = fold ut_step (Datagram None # map Datagram later) t'
         in ut_delivered t' = ut_delivered t @ filter (\<lambda>d. fst d \<noteq> []) ds \<and> ut_pending t' = 1
            \<and> ut_delivered t'' = ut_delivered t' \<and> ut_pending t'' = 0 \<and> ut_bound t'' \<and> ut_receiving t''"
proof -
  have one: "ut_step (Datagram (Some d)) u =
      (if fst d \<noteq> [] then u\<lparr>ut_delivered := ut_delivered u @ [d]\<rparr> else u)"
    if "ut_bound u" "ut_receiving u" "ut_callback u" "ut_pending u = 1" for u d
    using that by (cases d) (simp add: ut_defs)
  have run: "fold ut_step (map (Datagram \<circ> Some) ds) u = u\<lparr>ut_delivered := ut_delivered u @ filter (\<lambda>d. fst d \<noteq> []) ds\<rparr>"
    if "ut_bound u" "ut_receiving u" "ut_callback u" "ut_pending u = 1" for u
    using that by (induction ds arbitrary: u) (simp_all add: one del: ut_step.simps)
  have dead: "ut_pending u = 0 \<Longrightarrow> fold ut_step (map Datagram later) u = u" for u
    by (induction later) simp_all
  show ?thesis
    using assms by (simp add: run dead Let_def udp_handle_receive_def)
qed

theorem udp_receive_loop_witness:
  "let t = udp_start_receive (snd (udp_bind None (\<lambda>_. None) None 30303 ''0.0.0.0'' udp_transport));
       e = \<lparr>ue_address = ''10.0.0.1'', ue_port = 30303\<rparr>
   in ut_delivered (fold ut_step (map (Datagram \<circ> Some) [([1, 2], e), ([], e), ([3], e)]) t) = [([1, 2], e), ([3], e)]"
  using udp_receive_loop [of "udp_start_receive (snd (udp_bind None (\<lambda>_. None) None 30303 ''0.0.0.0'' udp_transport))"
      "[([1, 2], \<lparr>ue_address = ''10.0.0.1'', ue_port = 30303\<rparr>), ([], \<lparr>ue_address = ''10.0.0.1'', ue_port = 30303\<rparr>),
        ([3], \<lparr>ue_address = ''10.0.0.1'', ue_port = 30303\<rparr>)]" "[]"]
  by (simp add: ut_defs udp_transport_def)

subsection \<open>Binding\<close>

text \<open>
  A bind that fails after the socket was opened is final: \<open>close\<close> does nothing on a transport that is not
  bound, and opening an open socket is an error, so no later \<open>bind\<close> succeeds.
\<close>

lemma udp_failed_bind_is_final:
  assumes open_twice: "open_ec True \<noteq> None"
    and "\<not> ut_bound t" "ut_socket_open t"
  shows "udp_close t = t \<and> isl (fst (udp_bind addr open_ec bind_ec port address t))
    \<and> snd (udp_bind addr open_ec bind_ec port address t) = t"
  using assms by (auto simp: udp_close_def udp_bind_def make_udp_error_def split: option.split)

end
