(* ===== verification/Http_Server.thy ===== *)
theory Http_Server
  imports Containers "HOL-Library.Sublist"
begin

text \<open>
  The HTTP server of the RPC module (modules/rpc: http_server.cpp, with the structures of rpc_server.hpp).
  Strings are byte strings. Input streams are modelled by what is left to read. \<open>handle_connection\<close> takes
  the results of the calls of \<open>recv\<close> and returns the bytes it sends, \<open>None\<close> when it closes the socket without an
  answer; the handler is a function that may throw. \<open>alloc\<close> is the largest string that can be allocated.
  Headers are an \<open>unordered_map\<close>; \<open>std::isspace\<close> is that of the C locale. Creating, binding and polling
  sockets (\<open>server_loop\<close>) is not modelled.
\<close>

subsection \<open>Data\<close>

record RpcServerConfig =
  rc_host :: string
  rc_port :: u16
  rc_max_connections :: int
  rc_timeout_seconds :: int
  rc_enable_cors :: bool
  rc_allowed_origins :: "string list"

definition default_rpc_config :: RpcServerConfig where
  "default_rpc_config = \<lparr> rc_host = ''127.0.0.1'', rc_port = 8545, rc_max_connections = 100, rc_timeout_seconds = 30,
     rc_enable_cors = True, rc_allowed_origins = [''*''] \<rparr>"

record HttpRequest =
  hr_method :: string
  hr_path :: string
  hr_body :: string
  hr_headers :: "(string \<times> string) list"
  hr_query_params :: "(string \<times> string) list"

record HttpResponse =
  hp_status_code :: nat
  hp_status_message :: string
  hp_body :: string
  hp_headers :: "(string \<times> string) list"
  hp_content_type :: string

abbreviation NUL :: char where "NUL \<equiv> CHR 0x00"
abbreviation CR :: char where "CR \<equiv> CHR 0x0D"
abbreviation LF :: char where "LF \<equiv> CHR 0x0A"

subsection \<open>Reading streams\<close>

text \<open>\<open>std::getline\<close> up to a delimiter; it fails at the end of the stream.\<close>

definition getline :: "char \<Rightarrow> string \<Rightarrow> (string \<times> string) option" where
  "getline d s = (if s = [] then None else Some (takeWhile (\<lambda>c. c \<noteq> d) s, drop 1 (dropWhile (\<lambda>c. c \<noteq> d) s)))"

lemma getline_shorter: "getline d s = Some (l, r) \<Longrightarrow> length r < length s"
proof -
  assume "getline d s = Some (l, r)"
  then have "s \<noteq> []" "r = drop 1 (dropWhile (\<lambda>c. c \<noteq> d) s)" by (auto simp: getline_def split: if_splits)
  moreover have "length (dropWhile (\<lambda>c. c \<noteq> d) s) \<le> length s" by (rule length_dropWhile_le)
  ultimately show ?thesis by (cases s) auto
qed

text \<open>\<open>stream >> string\<close>: the next word, and what follows it.\<close>

definition next_word :: "string \<Rightarrow> string \<times> string" where
  "next_word s = (let t = dropWhile is_space s in (takeWhile (\<lambda>c. \<not> is_space c) t, dropWhile (\<lambda>c. \<not> is_space c) t))"

text \<open>The text before and after the first occurrence of a character.\<close>

definition split_at :: "char \<Rightarrow> string \<Rightarrow> (string \<times> string) option" where
  "split_at d s = (if d \<in> set s then Some (takeWhile (\<lambda>c. c \<noteq> d) s, tl (dropWhile (\<lambda>c. c \<noteq> d) s)) else None)"

definition trim :: "string \<Rightarrow> string" where
  "trim s = rev (dropWhile is_space (rev (dropWhile is_space s)))"

subsection \<open>Parsing\<close>

function parse_query_string :: "string \<Rightarrow> (string \<times> string) list \<Rightarrow> (string \<times> string) list" where
  "parse_query_string query params =
     (case getline (CHR ''&'') query of
        None \<Rightarrow> params
      | Some (pair, rest) \<Rightarrow>
          parse_query_string rest
            (case split_at (CHR ''='') pair of None \<Rightarrow> params | Some (key, v) \<Rightarrow> um_insert key v params))"
  by pat_completeness auto
termination
  by (relation "measure (length \<circ> fst)") (auto dest: getline_shorter)

declare parse_query_string.simps [simp del]

fun parse_headers :: "string list \<Rightarrow> (string \<times> string) list \<Rightarrow> (string \<times> string) list" where
  "parse_headers [] headers = headers"
| "parse_headers (line # lines) headers =
     parse_headers lines
       (case split_at (CHR '':'') line of
          None \<Rightarrow> headers
        | Some (key, v) \<Rightarrow> um_insert (trim key) (trim v) headers)"

text \<open>
  The header lines, without a carriage return at their end, and the rest of the stream; \<open>None\<close> when
  the loop ended because the stream did, which then refuses any further read.
\<close>

definition drop_cr :: "string \<Rightarrow> string" where
  "drop_cr line = (if line \<noteq> [] \<and> last line = CR then butlast line else line)"

function header_lines :: "string \<Rightarrow> string list \<times> string option" where
  "header_lines s =
     (case getline LF s of
        None \<Rightarrow> ([], None)
      | Some (line, rest) \<Rightarrow>
          if line = [] then ([], Some rest)
          else let (lines, r) = header_lines rest; l = drop_cr line
               in (if l \<noteq> [] then l # lines else lines, r))"
  by pat_completeness auto
termination
  by (relation "measure length") (auto dest: getline_shorter)

declare header_lines.simps [simp del]

definition parse_request_line :: "string \<Rightarrow> HttpRequest" where
  "parse_request_line line =
     (let (method, r1) = next_word line; (path, r2) = next_word r1;
          request = \<lparr> hr_method = method, hr_path = path, hr_body = [], hr_headers = [], hr_query_params = [] \<rparr>
      in case split_at (CHR ''?'') path of
           None \<Rightarrow> request
         | Some (p, query) \<Rightarrow> request\<lparr>hr_query_params := parse_query_string query [], hr_path := p\<rparr>)"

text \<open>\<open>stream.read\<close> into a string of \<open>n\<close> zero bytes.\<close>

definition read_body :: "nat \<Rightarrow> string option \<Rightarrow> string" where
  "read_body n rest =
     (case rest of None \<Rightarrow> replicate n NUL | Some s \<Rightarrow> take n s @ replicate (n - length s) NUL)"

definition parse_http_request :: "nat \<Rightarrow> string \<Rightarrow> HttpRequest" where
  "parse_http_request alloc request_data =
     (let (request, s) =
        (case getline LF request_data of
           None \<Rightarrow> (parse_request_line [], [])
         | Some (line, rest) \<Rightarrow> (parse_request_line line, rest));
        (lines, rest) = header_lines s;
        headers = parse_headers lines []
      in if hr_method request \<noteq> ''POST'' then request\<lparr>hr_headers := headers\<rparr>
         else
           let headers' = (case um_lookup headers ''Content-Length'' of
                             None \<Rightarrow> um_insert ''Content-Length'' [] headers | Some _ \<Rightarrow> headers);
               len = (case um_lookup headers' ''Content-Length'' of None \<Rightarrow> [] | Some v \<Rightarrow> v)
           in request\<lparr>hr_headers := headers',
                hr_body := (if len = [] then []
                            else case stoul 10 len of
                                   Inl _ \<Rightarrow> []
                                 | Inr n \<Rightarrow> if alloc < unat n then [] else read_body (unat n) rest)\<rparr>)"

subsection \<open>Responses\<close>

definition http_reply :: "nat \<Rightarrow> string \<Rightarrow> string \<Rightarrow> string \<Rightarrow> HttpResponse" where
  "http_reply code msg body content_type =
     \<lparr> hp_status_code = code, hp_status_message = msg, hp_body = body,
       hp_headers = um_insert ''Content-Length'' (dec_string (length body)) (um_insert ''Content-Type'' content_type []),
       hp_content_type = content_type \<rparr>"

definition http_ok :: "string \<Rightarrow> HttpResponse" where
  "http_ok body = http_reply 200 ''OK'' body ''application/json''"

definition http_not_found :: "string \<Rightarrow> HttpResponse" where
  "http_not_found msg = http_reply 404 ''Not Found'' msg ''text/plain''"

definition format_headers :: "(string \<times> string) list \<Rightarrow> string" where
  "format_headers headers = concat (map (\<lambda>(key, v). key @ '': '' @ v @ [CR, LF]) headers)"

definition format_http_response :: "HttpResponse \<Rightarrow> string" where
  "format_http_response response =
     ''HTTP/1.1 '' @ dec_string (hp_status_code response) @ '' '' @ hp_status_message response @ [CR, LF]
     @ format_headers (hp_headers response)
     @ (if um_lookup (hp_headers response) ''Content-Type'' = None
        then ''Content-Type: '' @ hp_content_type response @ [CR, LF] else [])
     @ (if um_lookup (hp_headers response) ''Content-Length'' = None
        then ''Content-Length: '' @ dec_string (length (hp_body response)) @ [CR, LF] else [])
     @ [CR, LF] @ hp_body response"

subsection \<open>Connections\<close>

datatype recv_result = Received string | Peer_closed | Recv_error

text \<open>
  The loop of \<open>recv\<close>; \<open>request_data += buffer\<close> appends a C string, so it stops at a zero byte. When
  the results end, the peer has closed. \<open>None\<close> is a negative result.
\<close>

fun read_request :: "string \<Rightarrow> recv_result list \<Rightarrow> string option" where
  "read_request acc [] = Some acc"
| "read_request acc (Peer_closed # rs) = Some acc"
| "read_request acc (Recv_error # rs) = None"
| "read_request acc (Received bytes # rs) =
     (let acc' = acc @ takeWhile (\<lambda>c. c \<noteq> NUL) bytes
      in if sublist [CR, LF, CR, LF] acc' then Some acc' else read_request acc' rs)"

definition handle_connection ::
  "nat \<Rightarrow> (HttpRequest \<Rightarrow> string + HttpResponse) option \<Rightarrow> recv_result list \<Rightarrow> string option" where
  "handle_connection alloc handler rs =
     (case read_request [] rs of
        None \<Rightarrow> None
      | Some data \<Rightarrow>
          (case (case handler of
                   None \<Rightarrow> Inr (http_not_found ''No request handler configured'')
                 | Some f \<Rightarrow> f (parse_http_request alloc data)) of
             Inl _ \<Rightarrow> None
           | Inr response \<Rightarrow> Some (format_http_response response)))"

subsection \<open>Requests with CR LF line ends\<close>

lemma getline_line: "d \<notin> set l \<Longrightarrow> getline d (l @ d # s) = Some (l, s)"
proof -
  assume d: "d \<notin> set l"
  have "takeWhile (\<lambda>c. c \<noteq> d) (l @ d # s) = l" using d by (subst takeWhile_append2) auto
  moreover have "dropWhile (\<lambda>c. c \<noteq> d) (l @ d # s) = d # s" using d by (subst dropWhile_append2) auto
  ultimately show ?thesis by (simp add: getline_def)
qed

lemma getline_last: "d \<notin> set l \<Longrightarrow> l \<noteq> [] \<Longrightarrow> getline d l = Some (l, [])"
proof -
  assume d: "d \<notin> set l" "l \<noteq> []"
  have "takeWhile (\<lambda>c. c \<noteq> d) l = l" using d by (intro takeWhile_eq_all_conv [THEN iffD2]) auto
  moreover have "dropWhile (\<lambda>c. c \<noteq> d) l = []" using d by (intro dropWhile_eq_Nil_conv [THEN iffD2]) auto
  ultimately show ?thesis using d by (simp add: getline_def del: takeWhile_eq_all_conv dropWhile_eq_Nil_conv)
qed

definition crlf_lines :: "string list \<Rightarrow> string" where
  "crlf_lines lines = concat (map (\<lambda>l. l @ [CR, LF]) lines)"

definition lf_lines :: "string list \<Rightarrow> string" where
  "lf_lines lines = concat (map (\<lambda>l. l @ [LF]) lines)"

text \<open>With CR LF no line is empty, so the header loop never stops before the end of the data.\<close>

lemma header_lines_crlf_rest:
  "\<forall>l \<in> set lines. LF \<notin> set l \<Longrightarrow> LF \<notin> set body \<Longrightarrow> snd (header_lines (crlf_lines lines @ body)) = None"
proof (induction lines)
  case Nil
  have "snd (header_lines []) = None" by (simp add: header_lines.simps getline_def)
  moreover have "body \<noteq> [] \<Longrightarrow> snd (header_lines body) = snd (header_lines [])"
    using getline_last [of LF body] Nil by (subst header_lines.simps) (simp add: Let_def case_prod_unfold)
  ultimately show ?case by (cases "body = []") (simp_all add: crlf_lines_def)
next
  case (Cons l lines)
  then have "getline LF (crlf_lines (l # lines) @ body) = Some (l @ [CR], crlf_lines lines @ body)"
    using getline_line [of LF "l @ [CR]" "crlf_lines lines @ body"] by (simp add: crlf_lines_def)
  with Cons show ?case by (subst header_lines.simps) (simp add: Let_def case_prod_unfold)
qed

text \<open>
  The body of a request in the form that HTTP prescribes, with CR LF at the end of every line, is
  lost: the blank line before the body is not recognized, the body is consumed as another header line, and every
  byte of the body that the handler gets is zero, whatever its length.
\<close>

lemma crlf_body_zero:
  assumes "LF \<notin> set request_line" "\<forall>l \<in> set headers. LF \<notin> set l" "LF \<notin> set body"
  shows "set (hr_body (parse_http_request alloc (crlf_lines (request_line # headers @ [[]]) @ body))) \<subseteq> {NUL}"
proof -
  have "getline LF (crlf_lines (request_line # headers @ [[]]) @ body)
      = Some (request_line @ [CR], crlf_lines (headers @ [[]]) @ body)"
    using getline_line [of LF "request_line @ [CR]" "crlf_lines (headers @ [[]]) @ body"] assms(1)
    by (simp add: crlf_lines_def)
  moreover have "snd (header_lines (crlf_lines (headers @ [[]]) @ body)) = None"
    using assms(2,3) by (intro header_lines_crlf_rest) auto
  moreover have "hr_body (parse_request_line l) = []" for l
    by (simp add: parse_request_line_def Let_def case_prod_unfold split: option.split)
  ultimately show ?thesis
    by (auto simp: parse_http_request_def Let_def case_prod_unfold read_body_def split: sum.split)
qed

subsection \<open>Requests with LF line ends\<close>

lemma is_space_simps [simp]: "is_space (CHR '' '')" "is_space CR"
  by (simp_all add: is_space_def)

lemma next_word_word:
  assumes "\<forall>c \<in> set w. \<not> is_space c"
  shows "next_word (w @ CHR '' '' # s) = (if w = [] then next_word s else (w, CHR '' '' # s))"
proof (cases w)
  case (Cons c cs)
  then have "dropWhile is_space (w @ CHR '' '' # s) = w @ CHR '' '' # s" using assms by simp
  moreover have "takeWhile (\<lambda>c. \<not> is_space c) (w @ CHR '' '' # s) = w"
    using assms by (subst takeWhile_append2) auto
  moreover have "dropWhile (\<lambda>c. \<not> is_space c) (w @ CHR '' '' # s) = CHR '' '' # s"
    using assms by (subst dropWhile_append2) auto
  ultimately show ?thesis using Cons by (simp add: next_word_def)
qed (simp add: next_word_def)

lemma next_word_skip: "next_word (CHR '' '' # s) = next_word s"
  by (simp add: next_word_def)

lemma split_at_key: "d \<notin> set k \<Longrightarrow> split_at d (k @ d # v) = Some (k, v)"
proof -
  assume d: "d \<notin> set k"
  have "takeWhile (\<lambda>c. c \<noteq> d) (k @ d # v) = k" using d by (subst takeWhile_append2) auto
  moreover have "dropWhile (\<lambda>c. c \<noteq> d) (k @ d # v) = d # v" using d by (subst dropWhile_append2) auto
  ultimately show ?thesis by (simp add: split_at_def)
qed

lemma trim_space: "trim (CHR '' '' # s) = trim s"
  by (simp add: trim_def)

definition trimmed :: "string \<Rightarrow> bool" where
  "trimmed s \<longleftrightarrow> s = [] \<or> \<not> is_space (hd s) \<and> \<not> is_space (last s)"

lemma trim_trimmed: "trimmed s \<Longrightarrow> trim s = s"
proof -
  have keep: "t = [] \<or> \<not> is_space (hd t) \<Longrightarrow> dropWhile is_space t = t" for t by (cases t) auto
  assume "trimmed s"
  then have "dropWhile is_space s = s" "dropWhile is_space (rev s) = rev s"
    by (auto simp: trimmed_def hd_rev intro!: keep)
  then show ?thesis by (simp add: trim_def)
qed

text \<open>A header line as a client writes it, and what makes it unambiguous.\<close>

definition header_line :: "string \<times> string \<Rightarrow> string" where
  "header_line h = fst h @ '': '' @ snd h"

definition plain_header :: "string \<times> string \<Rightarrow> bool" where
  "plain_header h \<longleftrightarrow> CHR '':'' \<notin> set (fst h) \<and> trimmed (fst h) \<and> trimmed (snd h) \<and> LF \<notin> set (fst h) \<and> LF \<notin> set (snd h)"

lemma drop_cr_header: "plain_header h \<Longrightarrow> drop_cr (header_line h) = header_line h"
  by (cases "snd h" rule: rev_cases) (auto simp: drop_cr_def header_line_def plain_header_def trimmed_def)

lemma header_lines_lf:
  "\<forall>h \<in> set hs. plain_header h \<Longrightarrow>
    header_lines (lf_lines (map header_line hs @ [[]]) @ body) = (map header_line hs, Some body)"
proof (induction hs)
  case Nil
  show ?case by (subst header_lines.simps) (simp add: lf_lines_def getline_def)
next
  case (Cons h hs)
  then have p: "plain_header h" by simp
  then have "LF \<notin> set (header_line h)" by (simp add: header_line_def plain_header_def)
  then have "getline LF (lf_lines (map header_line (h # hs) @ [[]]) @ body)
      = Some (header_line h, lf_lines (map header_line hs @ [[]]) @ body)"
    using getline_line [of LF "header_line h" "lf_lines (map header_line hs @ [[]]) @ body"]
    by (simp add: lf_lines_def)
  moreover have "header_line h \<noteq> []" by (simp add: header_line_def)
  ultimately show ?case
    using Cons drop_cr_header [OF p] by (subst header_lines.simps) simp
qed

lemma parse_headers_lines:
  "\<forall>h \<in> set hs. plain_header h \<Longrightarrow> distinct_keys (headers @ hs) \<Longrightarrow>
    parse_headers (map header_line hs) headers = headers @ hs"
proof (induction hs arbitrary: headers)
  case (Cons h hs)
  obtain k v where h: "h = (k, v)" by (cases h)
  have "split_at (CHR '':'') (header_line h) = Some (k, CHR '' '' # v)"
    using Cons.prems(1) split_at_key [of "CHR '':''" k "CHR '' '' # v"] by (simp add: h header_line_def plain_header_def)
  moreover have "trim k = k" "trim v = v"
    using Cons.prems(1) by (simp_all add: h plain_header_def trim_trimmed)
  moreover have "um_lookup headers k = None"
    using Cons.prems(2) by (auto simp: h um_lookup_None)
  ultimately show ?case
    using Cons.IH [of "headers @ [h]"] Cons.prems by (simp add: h trim_space um_insert_new)
qed simp

lemma parse_request_line_words:
  assumes "\<forall>c \<in> set m. \<not> is_space c" "\<forall>c \<in> set p. \<not> is_space c" "m \<noteq> []" "p \<noteq> []" "CHR ''?'' \<notin> set p"
  shows "parse_request_line (m @ CHR '' '' # p @ CHR '' '' # version)
    = \<lparr> hr_method = m, hr_path = p, hr_body = [], hr_headers = [], hr_query_params = [] \<rparr>"
  using assms by (simp add: parse_request_line_def next_word_word next_word_skip split_at_def)

lemma parse_http_request_post:
  assumes "getline LF D = Some (line, s)" "parse_request_line line = r" "hr_method r = ''POST''"
    and "header_lines s = (lines, rest)" "parse_headers lines [] = hs" "um_lookup hs ''Content-Length'' = Some len"
    and "len \<noteq> []" "stoul 10 len = Inr n" "unat n \<le> alloc"
  shows "parse_http_request alloc D = r\<lparr>hr_headers := hs, hr_body := read_body (unat n) rest\<rparr>"
  using assms by (simp add: parse_http_request_def Let_def)

text \<open>
  A POST request whose lines end in LF alone is parsed completely: method, path, headers and body are those the
  client wrote, provided the headers are unambiguous and announce the length of the body.
\<close>

lemma lf_post_request:
  assumes "\<forall>c \<in> set path. \<not> is_space c" "path \<noteq> []" "CHR ''?'' \<notin> set path" "LF \<notin> set version"
    and "\<forall>h \<in> set hs. plain_header h" "distinct_keys hs"
    and "map_of hs ''Content-Length'' = Some (dec_string (length body))" "length body \<le> alloc" "length body < 2 ^ 64"
  shows "parse_http_request alloc
      (lf_lines ((''POST '' @ path @ '' '' @ version) # map header_line hs @ [[]]) @ body)
    = \<lparr> hr_method = ''POST'', hr_path = path, hr_body = body, hr_headers = hs, hr_query_params = [] \<rparr>"
proof -
  let ?line = "''POST '' @ path @ '' '' @ version"
  have "LF \<notin> set path" using assms(1) by (auto simp: is_space_def)
  then have "LF \<notin> set ?line" using assms(4) by simp
  then have "getline LF (lf_lines (?line # map header_line hs @ [[]]) @ body)
      = Some (?line, lf_lines (map header_line hs @ [[]]) @ body)"
    using getline_line [of LF ?line "lf_lines (map header_line hs @ [[]]) @ body"] by (simp add: lf_lines_def)
  moreover have "parse_request_line ?line
      = \<lparr> hr_method = ''POST'', hr_path = path, hr_body = [], hr_headers = [], hr_query_params = [] \<rparr>"
    using parse_request_line_words [of "''POST''" path version] assms(1-3) by (simp add: is_space_def)
  moreover have "um_lookup hs ''Content-Length'' = Some (dec_string (length body))"
    using assms(7) by (simp add: um_lookup_def)
  moreover have "dec_string (length body) \<noteq> []" by (simp add: dec_string_def)
  moreover have "stoul 10 (dec_string (length body)) = Inr (of_nat (length body))"
    using stoull_dec_string [OF assms(9)] assms(9)
    by (simp add: stoul_def stoull_def split: option.splits prod.splits if_splits)
  moreover have "unat (of_nat (length body) :: u64) = length body"
    using assms(9) by (simp add: unsigned_of_nat take_bit_nat_eq_self)
  moreover have "parse_headers (map header_line hs) [] = hs"
    using parse_headers_lines [OF assms(5), of "[]"] assms(6) by simp
  ultimately show ?thesis
    using parse_http_request_post [OF _ _ _ header_lines_lf [OF assms(5)]] assms(8)
    by (simp only: read_body_def option.case) simp
qed

text \<open>
  Both forms reach the server through \<open>read_request\<close>, which waits for CR LF CR LF: a request with LF line ends
  is answered only after the client has closed its side of the connection.
\<close>

lemma read_request_waits:
  "\<not> sublist [CR, LF, CR, LF] (acc @ takeWhile (\<lambda>c. c \<noteq> NUL) bytes) \<Longrightarrow>
    read_request acc (Received bytes # rs) = read_request (acc @ takeWhile (\<lambda>c. c \<noteq> NUL) bytes) rs"
  by (simp add: Let_def)

end
