(* ===== verification/Rpc_Server.thy ===== *)
theory Rpc_Server
  imports Http_Server Json
begin

text \<open>
  The JSON-RPC server (modules/rpc: rpc_server.hpp, rpc_server_impl.cpp). JSON documents are the values of the
  data model of JSON; reading and printing them is the package nlohmann::json, whose functions \<open>parse\<close> and
  \<open>dump\<close> are arguments (\<open>None\<close>: they throw). \<open>f2i\<close> is the conversion of a \<open>double\<close> to \<open>int\<close>. A method handler
  returns a response or throws an exception, given by its message. The HTTP server below is present or
  absent, and running or not; \<open>http_started\<close> is what its \<open>start\<close> returned.
\<close>

subsection \<open>Data\<close>

record JsonRpcError =
  je_code :: int
  je_message :: string
  je_data :: "json option"

record JsonRpcRequest =
  jr_jsonrpc :: string
  jr_method :: string
  jr_params :: json
  jr_id :: "string option"

record JsonRpcResponse =
  js_jsonrpc :: string
  js_result :: "json option"
  js_error :: "JsonRpcError option"
  js_id :: "string option"

type_synonym rpc_handler = "json \<Rightarrow> string + JsonRpcResponse"

record RpcServerImpl =
  rs_config :: RpcServerConfig
  rs_http_server :: "bool option"
  rs_methods :: "(string \<times> rpc_handler) list"

definition json_rpc_error :: "int \<Rightarrow> string \<Rightarrow> JsonRpcError" where
  "json_rpc_error code msg = \<lparr> je_code = code, je_message = msg, je_data = None \<rparr>"

definition result_response :: "json \<Rightarrow> JsonRpcResponse" where
  "result_response v = \<lparr> js_jsonrpc = ''2.0'', js_result = Some v, js_error = None, js_id = None \<rparr>"

definition error_response :: "int \<Rightarrow> string \<Rightarrow> JsonRpcResponse" where
  "error_response code msg =
     \<lparr> js_jsonrpc = ''2.0'', js_result = None, js_error = Some (json_rpc_error code msg), js_id = None \<rparr>"

subsection \<open>Requests and responses as documents\<close>

definition request_id :: "(f64 \<Rightarrow> int) \<Rightarrow> json option \<Rightarrow> string option" where
  "request_id f2i v =
     (case v of
        Some (Jstring s) \<Rightarrow> Some s
      | Some (Jint n) \<Rightarrow> Some (int_string (sint (of_int n :: 32 word)))
      | Some (Jfloat x) \<Rightarrow> Some (int_string (f2i x))
      | _ \<Rightarrow> None)"

definition request_from_json :: "(string \<Rightarrow> json option) \<Rightarrow> (f64 \<Rightarrow> int) \<Rightarrow> string \<Rightarrow> JsonRpcRequest option" where
  "request_from_json parse f2i str =
     (case parse str of
        Some (Jobject obj) \<Rightarrow>
          (case (um_lookup obj ''jsonrpc'', um_lookup obj ''method'') of
             (Some (Jstring version), Some (Jstring method)) \<Rightarrow>
               Some \<lparr> jr_jsonrpc = version, jr_method = method,
                 jr_params = (case um_lookup obj ''params'' of None \<Rightarrow> Jnull | Some p \<Rightarrow> p),
                 jr_id = request_id f2i (um_lookup obj ''id'') \<rparr>
           | _ \<Rightarrow> None)
      | _ \<Rightarrow> None)"

definition request_to_json :: "JsonRpcRequest \<Rightarrow> json" where
  "request_to_json r =
     Jobject
       (let obj = um_insert ''params'' (jr_params r)
              (um_insert ''method'' (Jstring (jr_method r)) (um_insert ''jsonrpc'' (Jstring (jr_jsonrpc r)) []))
        in case jr_id r of None \<Rightarrow> obj | Some i \<Rightarrow> um_insert ''id'' (Jstring i) obj)"

definition error_to_json :: "JsonRpcError \<Rightarrow> json" where
  "error_to_json e =
     Jobject
       (let obj = um_insert ''message'' (Jstring (je_message e)) (um_insert ''code'' (Jint (je_code e)) [])
        in case je_data e of None \<Rightarrow> obj | Some d \<Rightarrow> um_insert ''data'' d obj)"

definition response_to_json :: "JsonRpcResponse \<Rightarrow> json" where
  "response_to_json r =
     Jobject
       (let obj1 = um_insert ''jsonrpc'' (Jstring (js_jsonrpc r)) [];
            obj2 = (case js_result r of None \<Rightarrow> obj1 | Some v \<Rightarrow> um_insert ''result'' v obj1);
            obj3 = (case js_error r of None \<Rightarrow> obj2 | Some e \<Rightarrow> um_insert ''error'' (error_to_json e) obj2)
        in case js_id r of None \<Rightarrow> obj3 | Some i \<Rightarrow> um_insert ''id'' (Jstring i) obj3)"

subsection \<open>The server\<close>

definition rpc_server :: "RpcServerImpl" where
  "rpc_server = \<lparr> rs_config = default_rpc_config, rs_http_server = None, rs_methods = [] \<rparr>"

definition rpc_start :: "bool \<Rightarrow> RpcServerConfig \<Rightarrow> RpcServerImpl \<Rightarrow> bool \<times> RpcServerImpl" where
  "rpc_start http_started config s = (http_started, s\<lparr>rs_config := config, rs_http_server := Some http_started\<rparr>)"

definition rpc_stop :: "RpcServerImpl \<Rightarrow> RpcServerImpl" where
  "rpc_stop s = s\<lparr>rs_http_server := None\<rparr>"

definition register_method :: "string \<Rightarrow> rpc_handler \<Rightarrow> RpcServerImpl \<Rightarrow> RpcServerImpl" where
  "register_method name handler s = s\<lparr>rs_methods := um_insert name handler (rs_methods s)\<rparr>"

definition unregister_method :: "string \<Rightarrow> RpcServerImpl \<Rightarrow> RpcServerImpl" where
  "unregister_method name s = s\<lparr>rs_methods := um_erase name (rs_methods s)\<rparr>"

definition has_method :: "string \<Rightarrow> RpcServerImpl \<Rightarrow> bool" where
  "has_method name s = (um_lookup (rs_methods s) name \<noteq> None)"

definition get_server_info :: "RpcServerImpl \<Rightarrow> string" where
  "get_server_info s =
     ''ChainForge RPC Server v0.1.0'' @ [LF] @ ''Host: '' @ rc_host (rs_config s) @ [LF]
     @ ''Port: '' @ dec_string (unat (rc_port (rs_config s))) @ [LF]
     @ ''Methods registered: '' @ dec_string (length (rs_methods s)) @ [LF]"

definition add_cors_headers :: "RpcServerConfig \<Rightarrow> HttpResponse \<Rightarrow> HttpResponse" where
  "add_cors_headers cfg response =
     (if \<not> rc_enable_cors cfg then response
      else response\<lparr>hp_headers :=
        um_insert ''Access-Control-Max-Age'' ''86400''
        (um_insert ''Access-Control-Allow-Headers'' ''Content-Type''
        (um_insert ''Access-Control-Allow-Methods'' ''POST, OPTIONS''
        (um_insert ''Access-Control-Allow-Origin''
           (case rc_allowed_origins cfg of [] \<Rightarrow> ''*'' | origin # _ \<Rightarrow> origin) (hp_headers response))))\<rparr>)"

text \<open>
  The table is locked twice, for the check and for the call, and \<open>methods_[...]\<close> inserts an empty function
  under a name that is missing by then; calling it throws.
\<close>

definition method_missing :: "RpcServerImpl \<Rightarrow> JsonRpcRequest \<Rightarrow> JsonRpcResponse option" where
  "method_missing s request =
     (if jr_jsonrpc request \<noteq> ''2.0'' \<or> jr_method request = [] then Some (error_response (- 32600) ''Invalid request'')
      else if \<not> has_method (jr_method request) s then Some (error_response (- 32601) ''Method not found'')
      else None)"

definition execute_method :: "RpcServerImpl \<Rightarrow> JsonRpcRequest \<Rightarrow> JsonRpcResponse \<times> RpcServerImpl" where
  "execute_method s request =
     (let s1 = (if has_method (jr_method request) s then s
                else register_method (jr_method request) (\<lambda>_. Inl ''bad_function_call'') s)
      in case um_lookup (rs_methods s1) (jr_method request) of
           None \<Rightarrow> (error_response (- 32603) ''bad_function_call'', s1)
         | Some handler \<Rightarrow>
             (case handler (jr_params request) of
                Inl what \<Rightarrow> (error_response (- 32603) what, s1)
              | Inr response \<Rightarrow> (response, s1)))"

definition process_jsonrpc_request :: "RpcServerImpl \<Rightarrow> JsonRpcRequest \<Rightarrow> JsonRpcResponse" where
  "process_jsonrpc_request s request =
     (case method_missing s request of
        Some response \<Rightarrow> response
      | None \<Rightarrow> fst (execute_method s request))"

text \<open>The reply with a document; \<open>dump\<close> throws on strings that are not UTF-8.\<close>

definition json_reply :: "(json \<Rightarrow> string option) \<Rightarrow> (string \<Rightarrow> HttpResponse) \<Rightarrow> json \<Rightarrow> string + HttpResponse" where
  "json_reply dump reply v = (case dump v of None \<Rightarrow> Inl ''[json.exception.type_error.316]'' | Some body \<Rightarrow> Inr (reply body))"

definition http_bad_request :: "(json \<Rightarrow> string option) \<Rightarrow> string \<Rightarrow> string + HttpResponse" where
  "http_bad_request dump msg =
     json_reply dump (\<lambda>body. http_reply 400 ''Bad Request'' body ''application/json'')
       (Jobject [(''error'', Jobject [(''code'', Jint (- 32600)), (''message'', Jstring msg)])])"

definition handle_http_request ::
  "(string \<Rightarrow> json option) \<Rightarrow> (json \<Rightarrow> string option) \<Rightarrow> (f64 \<Rightarrow> int) \<Rightarrow> RpcServerImpl \<Rightarrow> HttpRequest \<Rightarrow>
   string + HttpResponse" where
  "handle_http_request parse dump f2i s request =
     (if hr_method request = ''OPTIONS'' then Inr (add_cors_headers (rs_config s) (http_ok []))
      else if hr_method request \<noteq> ''POST'' then http_bad_request dump ''Only POST requests are supported''
      else case request_from_json parse f2i (hr_body request) of
        None \<Rightarrow> json_reply dump http_ok (response_to_json (error_response (- 32700) ''Parse error''))
      | Some r \<Rightarrow>
          let response = process_jsonrpc_request s r;
              response' = (if jr_id r \<noteq> None then response\<lparr>js_id := jr_id r\<rparr> else response)
          in json_reply dump (\<lambda>body. add_cors_headers (rs_config s) (http_ok body)) (response_to_json response'))"

subsection \<open>Dispatch\<close>

lemma execute_method_keeps: "has_method (jr_method r) s \<Longrightarrow> snd (execute_method s r) = s"
  by (simp add: execute_method_def Let_def has_method_def split: option.split sum.split)

text \<open>
  A method that is unregistered between the check and the call is answered by an internal error, and stays
  registered as an empty function from then on.
\<close>

lemma unregister_race:
  assumes "distinct_keys (rs_methods s)" "s1 = unregister_method (jr_method r) s"
  shows "fst (execute_method s1 r) = error_response (- 32603) ''bad_function_call''
    \<and> \<not> has_method (jr_method r) s1 \<and> has_method (jr_method r) (snd (execute_method s1 r))"
  using assms
  by (simp add: execute_method_def unregister_method_def register_method_def has_method_def Let_def um.lookup_erase
      um.lookup_insert um.invar_erase)

text \<open>
  A request that is printed as a document and read again is the same request, whatever its parameters, if
  its text is read back as the document that was printed.
\<close>

lemma request_from_json_to_json:
  assumes "parse text = Some (request_to_json r)"
  shows "request_from_json parse f2i text = Some r"
  using assms
  by (cases r) (auto simp: request_from_json_def request_to_json_def request_id_def um_defs Let_def split: option.splits)

subsection \<open>JSON-RPC over HTTP\<close>

lemma crlf_request_complete: "sublist [CR, LF, CR, LF] (crlf_lines (l # ls @ [[]]) @ body)"
proof -
  obtain ls' l' where "l # ls = ls' @ [l']" by (cases "l # ls" rule: rev_cases) auto
  then have "crlf_lines (l # ls @ [[]]) @ body = (crlf_lines ls' @ l') @ [CR, LF, CR, LF] @ body"
    by (simp add: crlf_lines_def flip: append_Cons)
  then show ?thesis by (metis sublist_appendI)
qed

lemma read_request_once:
  assumes "NUL \<notin> set data" "sublist [CR, LF, CR, LF] data"
  shows "read_request [] (Received data # rs) = Some data"
proof -
  have "takeWhile (\<lambda>c. c \<noteq> NUL) data = data" using assms(1) by (intro takeWhile_eq_all_conv [THEN iffD2]) auto
  then show ?thesis using assms(2) by (simp add: Let_def del: takeWhile_eq_all_conv)
qed

lemma parse_http_request_method:
  "getline LF D = Some (line, s) \<Longrightarrow> hr_method (parse_http_request alloc D) = hr_method (parse_request_line line)"
  by (simp add: parse_http_request_def Let_def case_prod_unfold)

lemma crlf_post_method:
  assumes "\<forall>c \<in> set path. \<not> is_space c" "path \<noteq> []" "CHR ''?'' \<notin> set path" "LF \<notin> set version"
  shows "hr_method (parse_http_request alloc (crlf_lines ((''POST '' @ path @ '' '' @ version) # ls) @ body)) = ''POST''"
proof -
  let ?line = "''POST '' @ path @ '' '' @ version"
  have "LF \<notin> set path" using assms(1) by (auto simp: is_space_def)
  then have "LF \<notin> set (?line @ [CR])" using assms(4) by simp
  then have "getline LF (crlf_lines (?line # ls) @ body) = Some (?line @ [CR], crlf_lines ls @ body)"
    using getline_line [of LF "?line @ [CR]" "crlf_lines ls @ body"] by (simp add: crlf_lines_def)
  moreover have "hr_method (parse_request_line (?line @ [CR])) = ''POST''"
    using parse_request_line_words [of "''POST''" path "version @ [CR]"] assms(1-3) by (simp add: is_space_def)
  ultimately show ?thesis by (simp only: parse_http_request_method)
qed

text \<open>The answer to a request whose body is not a request document.\<close>

definition parse_error_answer :: "(json \<Rightarrow> string option) \<Rightarrow> string option" where
  "parse_error_answer dump =
     map_option (format_http_response \<circ> http_ok) (dump (response_to_json (error_response (- 32700) ''Parse error'')))"

text \<open>
  C19. Over HTTP as it is specified no method is ever called: a POST request with CR LF line ends is answered by
  ``Parse error'', whatever it asks for and whatever methods are registered, because the JSON reader gets
  zero bytes only, which are not a document.
\<close>

theorem crlf_rpc_parse_error:
  assumes nul_rejected: "\<And>n. parse (replicate n NUL) = None"
    and "\<forall>c \<in> set path. \<not> is_space c" "path \<noteq> []" "CHR ''?'' \<notin> set path" "LF \<notin> set version"
    and "\<forall>l \<in> set headers. LF \<notin> set l" "LF \<notin> set body"
    and "NUL \<notin> set (crlf_lines ((''POST '' @ path @ '' '' @ version) # headers @ [[]]) @ body)"
  shows "handle_connection alloc (Some (handle_http_request parse dump f2i s))
      (Received (crlf_lines ((''POST '' @ path @ '' '' @ version) # headers @ [[]]) @ body) # rs)
    = parse_error_answer dump"
proof -
  let ?line = "''POST '' @ path @ '' '' @ version"
  define D where "D = crlf_lines (?line # headers @ [[]]) @ body"
  let ?r = "parse_http_request alloc D"
  have "LF \<notin> set path" using assms(2) by (auto simp: is_space_def)
  then have "LF \<notin> set ?line" using assms(5) by simp
  then have "set (hr_body ?r) \<subseteq> {NUL}" unfolding D_def using assms(6,7) by (intro crlf_body_zero)
  then have "hr_body ?r = replicate (length (hr_body ?r)) NUL"
    by (intro replicate_eqI [symmetric, THEN sym] refl) auto
  then have "parse (hr_body ?r) = None" using nul_rejected by metis
  moreover have "hr_method ?r = ''POST''" unfolding D_def using assms(2-5) by (intro crlf_post_method)
  ultimately have "handle_http_request parse dump f2i s ?r =
      json_reply dump http_ok (response_to_json (error_response (- 32700) ''Parse error''))"
    by (simp add: handle_http_request_def request_from_json_def)
  moreover have "read_request [] (Received D # rs) = Some D"
    using assms(8) crlf_request_complete by (intro read_request_once) (simp_all add: D_def)
  ultimately show ?thesis
    unfolding D_def [symmetric]
    by (simp add: handle_connection_def json_reply_def parse_error_answer_def split: option.split del: read_request.simps)
qed

definition demo_parse :: "json \<Rightarrow> string \<Rightarrow> json option" where
  "demo_parse v text = (if text = [] \<or> NUL \<in> set text then None else Some v)"

theorem crlf_rpc_parse_error_witness:
  "handle_connection 1000 (Some (handle_http_request (demo_parse Jnull) (\<lambda>_. Some ''err'') (\<lambda>_. 0) rpc_server))
     [Received (crlf_lines ((''POST '' @ ''/'' @ '' '' @ ''HTTP/1.1'') # [''Content-Length: 2''] @ [[]]) @ ''{}'')]
   = parse_error_answer (\<lambda>_. Some ''err'')"
proof (rule crlf_rpc_parse_error)
  show "demo_parse Jnull (replicate n NUL) = None" for n by (cases n) (simp_all add: demo_parse_def)
qed (simp_all add: is_space_def crlf_lines_def)

text \<open>
  C20. Over a connection with LF line ends, which the client half-closes, the server does what it promises: the
  registered method is called with the parameters of the request, and its response, or the error for an
  exception, is sent back under the id of the request.
\<close>

theorem lf_rpc_dispatched:
  assumes "\<forall>c \<in> set path. \<not> is_space c" "path \<noteq> []" "CHR ''?'' \<notin> set path" "LF \<notin> set version"
    and "\<forall>h \<in> set hs. plain_header h" "distinct_keys hs"
    and "map_of hs ''Content-Length'' = Some (dec_string (length body))" "length body \<le> alloc" "length body < 2 ^ 64"
    and "D = lf_lines ((''POST '' @ path @ '' '' @ version) # map header_line hs @ [[]]) @ body"
    and "NUL \<notin> set D" "CR \<notin> set D"
    and "parse body = Some (request_to_json r)" "jr_jsonrpc r = ''2.0''" "jr_id r = Some i" "jr_method r \<noteq> []"
    and "um_lookup (rs_methods s) (jr_method r) = Some handler"
  shows "handle_connection alloc (Some (handle_http_request parse dump f2i s)) [Received D, Peer_closed] =
    map_option (\<lambda>text. format_http_response (add_cors_headers (rs_config s) (http_ok text)))
      (dump (response_to_json
        ((case handler (jr_params r) of Inl what \<Rightarrow> error_response (- 32603) what | Inr response \<Rightarrow> response)
          \<lparr>js_id := Some i\<rparr>)))"
proof -
  have "takeWhile (\<lambda>c. c \<noteq> NUL) D = D" using assms(11) by (intro takeWhile_eq_all_conv [THEN iffD2]) auto
  moreover have "\<not> sublist [CR, LF, CR, LF] D" using assms(12) set_mono_sublist [of "[CR, LF, CR, LF]" D] by auto
  ultimately have "read_request [] [Received D, Peer_closed] = Some D"
    by (simp add: Let_def del: takeWhile_eq_all_conv)
  moreover have "parse_http_request alloc D
      = \<lparr> hr_method = ''POST'', hr_path = path, hr_body = body, hr_headers = hs, hr_query_params = [] \<rparr>"
    unfolding assms(10) using assms(1-9) by (intro lf_post_request)
  moreover have "request_from_json parse f2i body = Some r"
    using assms(13) by (rule request_from_json_to_json)
  moreover have "process_jsonrpc_request s r =
      (case handler (jr_params r) of Inl what \<Rightarrow> error_response (- 32603) what | Inr response \<Rightarrow> response)"
    using assms(14,16,17)
    by (simp add: process_jsonrpc_request_def method_missing_def execute_method_def has_method_def split: sum.split)
  ultimately show ?thesis
    using assms(15)
    by (simp add: handle_connection_def handle_http_request_def json_reply_def Let_def split: option.split
        del: read_request.simps)
qed

definition demo_request :: JsonRpcRequest where
  "demo_request = \<lparr> jr_jsonrpc = ''2.0'', jr_method = ''eth_chainId'', jr_params = Jarray [], jr_id = Some ''7'' \<rparr>"

definition demo_rpc_server :: RpcServerImpl where
  "demo_rpc_server = register_method ''eth_chainId'' (\<lambda>_. Inr (result_response (Jstring ''0x1''))) rpc_server"

theorem lf_rpc_dispatched_witness:
  "handle_connection 1000
     (Some (handle_http_request (demo_parse (request_to_json demo_request)) (\<lambda>_. Some ''ok'') (\<lambda>_. 0) demo_rpc_server))
     [Received (lf_lines ((''POST '' @ ''/'' @ '' '' @ ''HTTP/1.1'') # map header_line [(''Content-Length'', ''2'')] @ [[]]) @ ''{}''),
      Peer_closed]
   = Some (format_http_response (add_cors_headers default_rpc_config (http_ok ''ok'')))"
proof -
  let ?D = "lf_lines ((''POST '' @ ''/'' @ '' '' @ ''HTTP/1.1'') # map header_line [(''Content-Length'', ''2'')] @ [[]]) @ ''{}''"
  have "dec_string (length ''{}'') = ''2''"
    by (simp add: dec_string_def show_base.simps digit_char_def)
  moreover have "plain_header (''Content-Length'', ''2'')" by (simp add: plain_header_def trimmed_def is_space_def)
  moreover have "\<not> is_space (CHR ''/'')" by (simp add: is_space_def)
  moreover have "NUL \<notin> set ?D" "CR \<notin> set ?D" by (simp_all add: lf_lines_def header_line_def)
  moreover have "um_lookup (rs_methods demo_rpc_server) (jr_method demo_request)
      = Some (\<lambda>_. Inr (result_response (Jstring ''0x1'')))"
    by (simp add: demo_rpc_server_def demo_request_def register_method_def rpc_server_def um_defs)
  ultimately have "handle_connection 1000
     (Some (handle_http_request (demo_parse (request_to_json demo_request)) (\<lambda>_. Some ''ok'') (\<lambda>_. 0) demo_rpc_server))
     [Received ?D, Peer_closed]
     = map_option (\<lambda>text. format_http_response (add_cors_headers (rs_config demo_rpc_server) (http_ok text))) (Some ''ok'')"
    by (intro lf_rpc_dispatched [where path = "''/''" and version = "''HTTP/1.1''" and body = "''{}''"
          and hs = "[(''Content-Length'', ''2'')]" and r = demo_request and i = "''7''"
          and handler = "\<lambda>_. Inr (result_response (Jstring ''0x1''))"])
      (simp_all add: demo_parse_def demo_request_def)
  then show ?thesis by (simp add: demo_rpc_server_def register_method_def rpc_server_def)
qed

end
