(* ===== verification/Rpc_Methods.thy ===== *)
theory Rpc_Methods
  imports Rpc_Server
begin

text \<open>
  The Ethereum-style methods over mock data (modules/rpc: blockchain_rpc_methods.hpp,
  blockchain_rpc_methods.cpp). A method is a handler of Rpc_Server: it returns a response or throws what
  the access to a JSON value throws, given by its message; \<open>type_error\<close> is the message the package
  nlohmann::json has for a value of the wrong type. \<open>now\<close> is \<open>std::time\<close>, and \<open>junk\<close> what the undefined
  conversion of a \<open>double\<close> out of range to \<open>uint64_t\<close> gives. \<open>is_valid_hex\<close> and \<open>create_mock_transaction\<close> have
  no caller and are left out, as are \<open>eth_gasPrice\<close> and \<open>web3_clientVersion\<close>, which return a constant string.
\<close>

subsection \<open>Access to JSON values\<close>

text \<open>\<open>v[0]\<close> on a constant value that is not empty, and \<open>v.size() > 1 ? v[1].get<bool>() : false\<close> on an array.\<close>

definition json_first :: "(json \<Rightarrow> string) \<Rightarrow> json \<Rightarrow> string + json" where
  "json_first type_error v = (case v of Jarray (x # xs) \<Rightarrow> Inr x | _ \<Rightarrow> Inl (type_error v))"

definition json_second_bool :: "(json \<Rightarrow> string) \<Rightarrow> json \<Rightarrow> string + bool" where
  "json_second_bool type_error v =
     (case v of
        Jarray (x # y # xs) \<Rightarrow> (case y of Jbool b \<Rightarrow> Inr b | _ \<Rightarrow> Inl (type_error y))
      | _ \<Rightarrow> Inr False)"

subsection \<open>Numbers in hexadecimal\<close>

definition number_to_hex :: "u64 \<Rightarrow> string" where
  "number_to_hex n = ''0x'' @ hex_string (unat n)"

definition hex_to_number :: "string \<Rightarrow> u64" where
  "hex_to_number hex =
     (if length hex < 3 \<or> take 2 hex \<noteq> ''0x'' then 0
      else case stoull 16 (drop 2 hex) of Inl _ \<Rightarrow> 0 | Inr n \<Rightarrow> n)"

subsection \<open>Methods\<close>

record BlockchainRpcMethodsImpl =
  bm_chain_id :: u64
  bm_network_version :: string
  bm_blocks :: "(string \<times> json) list"
  bm_transactions :: "(string \<times> json) list"
  bm_balances :: "(string \<times> string) list"

abbreviation zero_hash_hex :: string where
  "zero_hash_hex \<equiv> ''0x'' @ replicate 64 CHR ''0''"

definition create_mock_block :: "u64 \<Rightarrow> u64 \<Rightarrow> string \<Rightarrow> json" where
  "create_mock_block now number hash =
     Jobject
       [(''number'', Jstring (number_to_hex number)), (''hash'', Jstring hash), (''parentHash'', Jstring zero_hash_hex),
        (''nonce'', Jstring ''0x0000000000000000''),
        (''sha3Uncles'', Jstring ''0x1dcc4de8dec75d7aab85b567b6ccd41ad312451b948a7413f0a142fd40d49347''),
        (''logsBloom'', Jstring (''0x'' @ replicate 512 CHR ''0'')),
        (''transactionsRoot'', Jstring ''0x56e81f171bcc55a6ff8345e692c0f86e5b48e01b996cadc001622fb5e363b421''),
        (''stateRoot'', Jstring zero_hash_hex),
        (''receiptsRoot'', Jstring ''0x56e81f171bcc55a6ff8345e692c0f86e5b48e01b996cadc001622fb5e363b421''),
        (''miner'', Jstring (''0x'' @ replicate 40 CHR ''0'')), (''difficulty'', Jstring ''0x0''),
        (''totalDifficulty'', Jstring ''0x0''), (''extraData'', Jstring ''0x''), (''size'', Jstring ''0x3e8''),
        (''gasLimit'', Jstring ''0x6691b7''), (''gasUsed'', Jstring ''0x0''),
        (''timestamp'', Jstring (number_to_hex now)), (''transactions'', Jarray []), (''uncles'', Jarray [])]"

definition blockchain_rpc_methods :: "u64 \<Rightarrow> BlockchainRpcMethodsImpl" where
  "blockchain_rpc_methods now =
     \<lparr> bm_chain_id = 1, bm_network_version = ''1'',
       bm_blocks = [(zero_hash_hex, create_mock_block now 0 zero_hash_hex)], bm_transactions = [],
       bm_balances = [(''0x742d35cc6634c0532925a3b844bc454e4438f44e'', ''0x1000000000000000000''),
                      (''0x742d35cc6634c0532925a3b844bc454e4438f44f'', ''0x500000000000000000'')] \<rparr>"

text \<open>What the methods with a string as first parameter share.\<close>

definition with_string :: "(json \<Rightarrow> string) \<Rightarrow> string \<Rightarrow> json \<Rightarrow> (string \<Rightarrow> string + JsonRpcResponse) \<Rightarrow> string + JsonRpcResponse" where
  "with_string type_error msg params f =
     (if json_empty params then Inr (error_response (- 32602) msg)
      else case json_first type_error params of
        Inl what \<Rightarrow> Inl what
      | Inr (Jstring s) \<Rightarrow> f s
      | Inr _ \<Rightarrow> Inr (error_response (- 32602) msg))"

definition eth_getBlockByHash :: "(json \<Rightarrow> string) \<Rightarrow> BlockchainRpcMethodsImpl \<Rightarrow> rpc_handler" where
  "eth_getBlockByHash type_error m params =
     with_string type_error ''Block hash required'' params (\<lambda>hash.
       case json_second_bool type_error params of
         Inl what \<Rightarrow> Inl what
       | Inr _ \<Rightarrow> Inr (result_response (case um_lookup (bm_blocks m) hash of None \<Rightarrow> Jnull | Some b \<Rightarrow> b)))"

definition eth_getBlockByNumber :: "(json \<Rightarrow> string) \<Rightarrow> u64 \<Rightarrow> u64 \<Rightarrow> rpc_handler" where
  "eth_getBlockByNumber type_error now junk params =
     (let block = (\<lambda>n. Inr (result_response (create_mock_block now n zero_hash_hex)))
      in if json_empty params then Inr (error_response (- 32602) ''Block number required'')
         else case json_first type_error params of
           Inl what \<Rightarrow> Inl what
         | Inr (Jstring s) \<Rightarrow>
             block (if s = ''latest'' then 0 else if s = ''earliest'' then 0 else if s = ''pending'' then 1
                    else hex_to_number s)
         | Inr (Jint n) \<Rightarrow> block (of_int n)
         | Inr (Jfloat x) \<Rightarrow> block (case f64_to_u64 x of None \<Rightarrow> junk | Some n \<Rightarrow> n)
         | Inr _ \<Rightarrow> Inr (error_response (- 32602) ''Invalid block number format''))"

definition eth_blockNumber :: rpc_handler where
  "eth_blockNumber params = Inr (result_response (Jstring (number_to_hex 0)))"

definition eth_getTransactionByHash :: "(json \<Rightarrow> string) \<Rightarrow> BlockchainRpcMethodsImpl \<Rightarrow> rpc_handler" where
  "eth_getTransactionByHash type_error m params =
     with_string type_error ''Transaction hash required'' params (\<lambda>hash.
       Inr (result_response (case um_lookup (bm_transactions m) hash of None \<Rightarrow> Jnull | Some t \<Rightarrow> t)))"

definition eth_getTransactionReceipt :: "(json \<Rightarrow> string) \<Rightarrow> rpc_handler" where
  "eth_getTransactionReceipt type_error params =
     with_string type_error ''Transaction hash required'' params (\<lambda>hash.
       Inr (result_response (Jobject
         [(''transactionHash'', Jstring hash), (''transactionIndex'', Jstring ''0x0''), (''blockHash'', Jstring zero_hash_hex),
          (''blockNumber'', Jstring ''0x0''), (''from'', Jstring ''0x742d35cc6634c0532925a3b844bc454e4438f44e''),
          (''to'', Jstring ''0x742d35cc6634c0532925a3b844bc454e4438f44f''), (''cumulativeGasUsed'', Jstring ''0x5208''),
          (''gasUsed'', Jstring ''0x5208''), (''contractAddress'', Jnull), (''logs'', Jarray []),
          (''logsBloom'', Jstring (''0x'' @ replicate 512 CHR ''0'')), (''status'', Jstring ''0x1'')])))"

definition eth_sendRawTransaction :: "(json \<Rightarrow> string) \<Rightarrow> rpc_handler" where
  "eth_sendRawTransaction type_error params =
     with_string type_error ''Raw transaction data required'' params (\<lambda>_. Inr (result_response (Jstring zero_hash_hex)))"

definition eth_getBalance :: "(json \<Rightarrow> string) \<Rightarrow> BlockchainRpcMethodsImpl \<Rightarrow> rpc_handler" where
  "eth_getBalance type_error m params =
     with_string type_error ''Account address required'' params (\<lambda>address.
       Inr (result_response (Jstring (case um_lookup (bm_balances m) address of None \<Rightarrow> ''0x0'' | Some b \<Rightarrow> b))))"

definition eth_getTransactionCount :: "(json \<Rightarrow> string) \<Rightarrow> rpc_handler" where
  "eth_getTransactionCount type_error params =
     with_string type_error ''Account address required'' params (\<lambda>_. Inr (result_response (Jstring ''0x0'')))"

definition net_version :: "BlockchainRpcMethodsImpl \<Rightarrow> rpc_handler" where
  "net_version m params = Inr (result_response (Jstring (bm_network_version m)))"

definition eth_chainId :: "BlockchainRpcMethodsImpl \<Rightarrow> rpc_handler" where
  "eth_chainId m params = Inr (result_response (Jstring (number_to_hex (bm_chain_id m))))"

subsection \<open>Numbers survive their print\<close>

lemma hex_string_nonempty: "hex_string n \<noteq> []"
  by (simp add: hex_string_def)

lemma hex_to_number_to_hex: "hex_to_number (number_to_hex n) = n"
proof -
  have "stoull 16 (hex_string (unat n)) = Inr n"
    using stoull_hex_string [of "unat n"] unsigned_less [of n] by simp
  then show ?thesis by (simp add: hex_to_number_def number_to_hex_def hex_string_nonempty)
qed

text \<open>
  The block a client asks for by a printed number is the block with that number: the answer to
  eth_getBlockByNumber carries the number as it was given, for every 64-bit number, and a JSON integer asks
  for the same block as its print does.
\<close>

theorem block_by_number_round_trip:
  "eth_getBlockByNumber type_error now junk (Jarray (Jstring (number_to_hex n) # rest))
     = Inr (result_response (create_mock_block now n zero_hash_hex))
   \<and> eth_getBlockByNumber type_error now junk (Jarray (Jint (uint n) # rest))
     = eth_getBlockByNumber type_error now junk (Jarray (Jstring (number_to_hex n) # rest))"
proof -
  have "number_to_hex n \<noteq> ''latest'' \<and> number_to_hex n \<noteq> ''earliest'' \<and> number_to_hex n \<noteq> ''pending''"
    by (simp add: number_to_hex_def)
  then show ?thesis
    by (simp add: eth_getBlockByNumber_def json_empty_def json_first_def hex_to_number_to_hex)
qed

text \<open>
  The outcome of a method that takes a string: it answers by its body exactly on an array whose first element
  is a string, by an error when there are no parameters or the first one is no string, and by an exception on
  parameters by name.
\<close>

lemma with_string_cases:
  "with_string type_error msg params f =
     (case params of
        Jarray (Jstring s # xs) \<Rightarrow> f s
      | Jarray _ \<Rightarrow> Inr (error_response (- 32602) msg)
      | Jnull \<Rightarrow> Inr (error_response (- 32602) msg)
      | Jobject [] \<Rightarrow> Inr (error_response (- 32602) msg)
      | _ \<Rightarrow> Inl (type_error params))"
  by (auto simp: with_string_def json_empty_def json_first_def split: json.splits list.splits)

end
