(* ===== verification/Http_Lifecycle.thy ===== *)
theory Http_Lifecycle
  imports Main
begin

text \<open>
  Starting and stopping the HTTP server (modules/rpc/src/http_server.cpp: start, stop, server_loop). Two threads share
  \<open>running_\<close>: the caller of \<open>start\<close> and \<open>stop\<close>, and the server thread that runs \<open>server_loop\<close>. The state holds where each
  of them is; an event is one step of one of them, with what the operating system answers. The sockets are
  blocking (\<open>set_non_blocking\<close> is never called), so \<open>accept\<close> returns only when a client connects or it fails. Each client
  gets a detached thread that runs \<open>handle_connection\<close> on its socket; \<open>hs_handlers\<close> is the number of those that have not
  closed it yet. Creating such a thread succeeds.
\<close>

datatype server_pc = Created | Opened | Looping | Accepting | Finished
datatype caller_pc = Idle | Sleeping | Joining | Terminated

text \<open>\<open>hs_thread\<close> is \<open>None\<close> when \<open>server_thread_\<close> is not joinable; a thread that has finished is joinable until it is joined.\<close>

record HttpServer =
  hs_running :: bool
  hs_thread :: "server_pc option"
  hs_socket :: bool
  hs_handlers :: nat
  hs_caller :: caller_pc

definition http_server :: HttpServer where
  "http_server = \<lparr> hs_running = False, hs_thread = None, hs_socket = False, hs_handlers = 0, hs_caller = Idle \<rparr>"

text \<open>
  \<open>start\<close> up to its sleep: \<open>created\<close> tells whether the thread could be created. Assigning to a joinable
  \<open>std::thread\<close> terminates the process.
\<close>

definition http_start :: "bool \<Rightarrow> HttpServer \<Rightarrow> HttpServer" where
  "http_start created s =
     (if hs_running s \<or> \<not> created then s
      else case hs_thread s of
        Some _ \<Rightarrow> s\<lparr>hs_caller := Terminated\<rparr>
      | None \<Rightarrow> s\<lparr>hs_thread := Some Created, hs_caller := Sleeping\<rparr>)"

definition http_stop :: "HttpServer \<Rightarrow> HttpServer" where
  "http_stop s = s\<lparr>hs_running := False, hs_caller := (if hs_thread s = None then Idle else Joining)\<rparr>"

definition loop_end :: "HttpServer \<Rightarrow> HttpServer" where
  "loop_end s = s\<lparr>hs_socket := False, hs_running := False, hs_thread := Some Finished\<rparr>"

definition server_loop :: "bool \<Rightarrow> HttpServer \<Rightarrow> HttpServer option" where
  "server_loop ok s =
     (case hs_thread s of
        Some Created \<Rightarrow>
          Some (if ok then s\<lparr>hs_socket := True, hs_thread := Some Opened\<rparr> else s\<lparr>hs_thread := Some Finished\<rparr>)
      | Some Opened \<Rightarrow>
          Some (if ok then s\<lparr>hs_running := True, hs_thread := Some Looping\<rparr>
                else s\<lparr>hs_socket := False, hs_thread := Some Finished\<rparr>)
      | Some Looping \<Rightarrow> Some (if hs_running s then s\<lparr>hs_thread := Some Accepting\<rparr> else loop_end s)
      | Some Accepting \<Rightarrow>
          Some (if ok then s\<lparr>hs_handlers := Suc (hs_handlers s), hs_thread := Some Looping\<rparr>
                else if hs_running s then s\<lparr>hs_thread := Some Looping\<rparr> else loop_end s)
      | _ \<Rightarrow> None)"

text \<open>The last step of \<open>handle_connection\<close> on every path: it closes the socket of its client.\<close>

definition handler_end :: "HttpServer \<Rightarrow> HttpServer option" where
  "handler_end s = (if hs_handlers s = 0 then None else Some (s\<lparr>hs_handlers := hs_handlers s - 1\<rparr>))"

datatype http_event = Call_start bool | Wake | Call_stop | Join | Server bool | Handler

fun http_step :: "http_event \<Rightarrow> HttpServer \<Rightarrow> HttpServer option" where
  "http_step (Call_start created) s = (if hs_caller s = Idle then Some (http_start created s) else None)"
| "http_step Wake s = (if hs_caller s = Sleeping then Some (s\<lparr>hs_caller := Idle\<rparr>) else None)"
| "http_step Call_stop s = (if hs_caller s = Idle then Some (http_stop s) else None)"
| "http_step Join s =
     (if hs_caller s = Joining \<and> hs_thread s = Some Finished then Some (s\<lparr>hs_thread := None, hs_caller := Idle\<rparr>) else None)"
| "http_step (Server ok) s = (if hs_caller s = Terminated then None else server_loop ok s)"
| "http_step Handler s = (if hs_caller s = Terminated then None else handler_end s)"

inductive http_steps :: "HttpServer \<Rightarrow> HttpServer \<Rightarrow> bool" for s where
  none: "http_steps s s"
| more: "http_steps s t \<Longrightarrow> http_step e t = Some u \<Longrightarrow> http_steps s u"

fun run_http :: "http_event list \<Rightarrow> HttpServer \<Rightarrow> HttpServer option" where
  "run_http [] s = Some s"
| "run_http (e # es) s = (case http_step e s of None \<Rightarrow> None | Some t \<Rightarrow> run_http es t)"

lemma http_steps_trans: "http_steps t u \<Longrightarrow> http_steps s t \<Longrightarrow> http_steps s u"
  by (induction rule: http_steps.induct) (auto intro: http_steps.more)

lemma run_http_steps: "run_http es s = Some t \<Longrightarrow> http_steps s t"
proof (induction es arbitrary: s)
  case (Cons e es)
  then obtain u where "http_step e s = Some u" "http_steps u t" by (auto split: option.splits)
  then show ?case by (meson http_steps.intros http_steps_trans)
qed (simp add: http_steps.none)

subsection \<open>What is guaranteed\<close>

text \<open>The socket is open exactly while the server thread is between creating it and closing it.\<close>

definition http_inv :: "HttpServer \<Rightarrow> bool" where
  "http_inv s \<longleftrightarrow> (hs_running s \<longrightarrow> hs_thread s \<in> {Some Looping, Some Accepting})
     \<and> (hs_socket s \<longleftrightarrow> hs_thread s \<in> {Some Opened, Some Looping, Some Accepting})
     \<and> (hs_caller s = Joining \<longrightarrow> hs_thread s \<noteq> None)"

lemma http_step_inv: "http_inv s \<Longrightarrow> http_step e s = Some t \<Longrightarrow> http_inv t"
  by (cases e) (auto simp: http_inv_def http_start_def http_stop_def server_loop_def loop_end_def handler_end_def
      split: if_splits option.splits server_pc.splits)

lemma http_reachable_inv: "http_steps http_server s \<Longrightarrow> http_inv s"
proof (induction rule: http_steps.induct)
  case none
  show ?case by (simp add: http_inv_def http_server_def)
next
  case (more t e u)
  then show ?case using http_step_inv by blast
qed

text \<open>
  C23. In every state that an interleaving of the threads reaches, the server reports that it runs only while its loop is
  running on an open listening socket. Whenever \<open>stop\<close> returns from its join, the server thread is gone, the listening socket
  is closed and the server does not report that it runs; the threads of the connections are not waited for, and as
  many of them, each with the socket of its client, are left as there were.
\<close>

theorem http_stop_joins_server:
  assumes "http_steps http_server s"
  shows "(hs_running s \<longrightarrow> hs_socket s \<and> hs_thread s \<in> {Some Looping, Some Accepting})
    \<and> (\<forall>t. http_step Join s = Some t \<longrightarrow>
         hs_thread t = None \<and> \<not> hs_running t \<and> \<not> hs_socket t \<and> hs_caller t = Idle \<and> hs_handlers t = hs_handlers s)"
  using http_reachable_inv [OF assms] by (auto simp: http_inv_def split: if_splits)

text \<open>A run in which a client is accepted and \<open>stop\<close> returns while it is still being served.\<close>

definition late_client_run :: "http_event list" where
  "late_client_run = [Call_start True, Server True, Server True, Wake, Server True, Server True, Call_stop, Server True]"

lemmas http_defs = http_server_def http_start_def http_stop_def server_loop_def loop_end_def handler_end_def

lemma late_client_reached:
  "http_steps http_server \<lparr> hs_running = False, hs_thread = Some Finished, hs_socket = False, hs_handlers = 1, hs_caller = Joining \<rparr>"
  by (rule run_http_steps [of late_client_run]) (simp add: late_client_run_def http_defs)

theorem http_stop_joins_server_witness:
  "\<exists>t. http_step Join \<lparr> hs_running = False, hs_thread = Some Finished, hs_socket = False, hs_handlers = 1, hs_caller = Joining \<rparr> = Some t
     \<and> hs_thread t = None \<and> \<not> hs_socket t \<and> hs_handlers t = 1"
proof -
  define s where
    "s = \<lparr> hs_running = False, hs_thread = Some Finished, hs_socket = False, hs_handlers = 1, hs_caller = Joining \<rparr>"
  have join: "http_step Join s = Some (s\<lparr>hs_thread := None, hs_caller := Idle\<rparr>)" and one: "hs_handlers s = 1"
    by (simp_all add: s_def)
  have "http_steps http_server s" unfolding s_def by (rule late_client_reached)
  from http_stop_joins_server [OF this, THEN conjunct2, rule_format, OF join] show ?thesis
    unfolding s_def [symmetric] using join one by (intro exI conjI) (assumption | simp)+
qed

subsection \<open>What is not\<close>

definition stuck_joining :: "HttpServer \<Rightarrow> bool" where
  "stuck_joining s \<longleftrightarrow> hs_caller s = Joining \<and> hs_running s \<and> hs_thread s \<in> {Some Looping, Some Accepting}"

lemma stuck_joining_step: "stuck_joining s \<Longrightarrow> http_step e s = Some t \<Longrightarrow> stuck_joining t"
  by (cases e) (auto simp: stuck_joining_def server_loop_def handler_end_def split: if_splits)

lemma stuck_joining_forever: "http_steps s t \<Longrightarrow> stuck_joining s \<Longrightarrow> stuck_joining t"
  by (induction rule: http_steps.induct) (auto dest: stuck_joining_step)

text \<open>
  C22. \<open>stop\<close> can hang for ever: when it is called before the server thread has come to set \<open>running_\<close>, which happens when
  opening the socket takes longer than the tenth of a second \<open>start\<close> waits, the server thread sets the flag
  after \<open>stop\<close> has cleared it, and from then on no step of either thread, and no client, ends the join.
\<close>

theorem http_stop_can_hang:
  "\<exists>s. http_steps http_server s \<and> hs_caller ` {t. http_steps s t} = {Joining}"
proof -
  let ?es = "[Call_start True, Server True, Wake, Call_stop, Server True]"
  let ?s = "\<lparr> hs_running = True, hs_thread = Some Looping, hs_socket = True, hs_handlers = 0, hs_caller = Joining \<rparr>"
  have "http_steps http_server ?s"
    by (rule run_http_steps [of ?es]) (simp add: http_server_def http_start_def http_stop_def server_loop_def)
  moreover have "stuck_joining ?s" by (simp add: stuck_joining_def)
  then have "hs_caller t = Joining" if "http_steps ?s t" for t
    using stuck_joining_forever [OF that] by (simp add: stuck_joining_def)
  then have "hs_caller ` {t. http_steps ?s t} = {Joining}" using http_steps.none [of ?s] by force
  ultimately show ?thesis by blast
qed

text \<open>Without that race, a server that waits for a client leaves its loop only after \<open>accept\<close> returns.\<close>

lemma stop_waits_for_client:
  assumes "hs_caller s = Joining" "hs_thread s = Some Accepting"
  shows "http_step e s \<noteq> None \<longleftrightarrow> (\<exists>ok. e = Server ok) \<or> e = Handler \<and> 0 < hs_handlers s"
  using assms by (cases e) (auto simp: server_loop_def handler_end_def)

text \<open>A second \<open>start\<close> after one that failed, for example because the port is taken, terminates the process.\<close>

lemma second_start_terminates:
  "map_option hs_caller (run_http [Call_start True, Server True, Server False, Wake, Call_start True] http_server) = Some Terminated"
  by (simp add: http_server_def http_start_def server_loop_def)

end
