(* ===== verification/Log_Config.thy ===== *)
theory Log_Config
  imports Json Http_Server
begin

text \<open>
  Configuration of logging (modules/logging: config_loader.cpp, with the structures of logger.hpp and
  log_manager.hpp). A configuration file is given by its lines, or by the JSON document the package reads from
  it; \<open>None\<close> stands for a file that cannot be opened. \<open>type_error\<close> is what the package says about a value of the
  wrong type and \<open>junk\<close> what a conversion out of the range of \<open>size_t\<close> gives.
\<close>

subsection \<open>Numbers with a fraction\<close>

text \<open>
  \<open>std::stod\<close>: white space, a sign, then \<open>inf\<close>, \<open>nan\<close>, or digits with an optional point and exponent, in
  hexadecimal after \<open>0x\<close>. \<open>scan_fraction\<close> reads digits, a point and digits: the digits as one number, how many
  of them follow the point, and the rest; \<open>None\<close> when there is no digit.
\<close>

definition leading_digits :: "nat \<Rightarrow> string \<Rightarrow> string" where
  "leading_digits base s = takeWhile (\<lambda>c. digit_value base c \<noteq> None) s"

definition scan_fraction :: "nat \<Rightarrow> string \<Rightarrow> (nat \<times> nat \<times> string) option" where
  "scan_fraction base s =
     (let whole = leading_digits base s; rest = drop (length whole) s;
          frac = (case rest of c # cs \<Rightarrow> if c = CHR ''.'' then leading_digits base cs else [] | [] \<Rightarrow> []);
          rest' = (case rest of c # cs \<Rightarrow> if c = CHR ''.'' then drop (length frac) cs else rest | [] \<Rightarrow> [])
      in if whole @ frac = [] then None else Some (scan_digits base 0 (whole @ frac), length frac, rest'))"

definition scan_exponent :: "string \<Rightarrow> string \<Rightarrow> int" where
  "scan_exponent marks s =
     (case s of
        [] \<Rightarrow> 0
      | c # cs \<Rightarrow>
          (let (neg, ds) = scan_sign cs
           in if c \<in> set marks \<and> starts_digit 10 ds
              then (if neg then - int (scan_digits 10 0 ds) else int (scan_digits 10 0 ds)) else 0))"

definition to_lower :: "char \<Rightarrow> char" where
  "to_lower c = (if 65 \<le> (of_char c :: nat) \<and> (of_char c :: nat) \<le> 90 then char_of ((of_char c :: nat) + 32) else c)"

definition scan_real :: "string \<Rightarrow> rat option" where
  "scan_real s =
     (if map to_lower (take 2 s) = ''0x'' \<and> scan_fraction 16 (drop 2 s) \<noteq> None
      then (case scan_fraction 16 (drop 2 s) of
              None \<Rightarrow> None
            | Some (m, k, rest) \<Rightarrow> Some (of_nat m * 2 powi (scan_exponent ''pP'' rest - 4 * int k)))
      else (case scan_fraction 10 s of
              None \<Rightarrow> None
            | Some (m, k, rest) \<Rightarrow> Some (of_nat m * 10 powi (scan_exponent ''eE'' rest - int k))))"

definition stod :: "string \<Rightarrow> f64 throws" where
  "stod str =
     (let (neg, s) = scan_sign (dropWhile is_space str)
      in if map to_lower (take 3 s) = ''inf'' then Inr (if neg then NInf else PInf)
         else if map to_lower (take 3 s) = ''nan'' then Inr NaN
         else case scan_real s of
           None \<Rightarrow> Inl (Invalid_argument ''stod'')
         | Some q \<Rightarrow>
             if 2 ^ 1024 \<le> fl q \<or> (fl q \<noteq> q \<and> fl q < 2 powi (- 1022)) then Inl (Out_of_range ''stod'')
             else Inr (Fin (if neg then - fl q else fl q)))"

definition stoll :: "string \<Rightarrow> int throws" where
  "stoll s = (case c_strto 10 s of
       None \<Rightarrow> Inl (Invalid_argument ''stoll'')
     | Some (neg, m) \<Rightarrow>
         (let v = (if neg then - int m else int m)
          in if v < - (2 ^ 63) \<or> 2 ^ 63 - 1 < v then Inl (Out_of_range ''stoll'') else Inr v))"

subsection \<open>Configuration\<close>

datatype LogLevel = TRACE | DEBUG | INFO | WARN | ERROR | CRITICAL | OFF

record LogConfig =
  lc_console_level :: LogLevel
  lc_file_level :: LogLevel
  lc_log_directory :: string
  lc_log_file_pattern :: string
  lc_max_file_size :: u64
  lc_max_files :: u64
  lc_enable_json_format :: bool
  lc_enable_console_output :: bool
  lc_enable_file_output :: bool
  lc_pretty_print_console :: bool
  lc_pretty_print_file :: bool
  lc_global_fields :: json

definition create_default :: LogConfig where
  "create_default =
     \<lparr> lc_console_level = INFO, lc_file_level = DEBUG, lc_log_directory = ''logs'',
       lc_log_file_pattern = ''chainforge.log'', lc_max_file_size = 10 * 1024 * 1024, lc_max_files = 5,
       lc_enable_json_format = True, lc_enable_console_output = True, lc_enable_file_output = True,
       lc_pretty_print_console = False, lc_pretty_print_file = False,
       lc_global_fields = json_put ''version'' (Jstring ''1.0.0'') (json_put ''service'' (Jstring ''chainforge'') Jnull) \<rparr>"

definition parse_log_level :: "string \<Rightarrow> LogLevel" where
  "parse_log_level level_str =
     (let level_lower = map to_lower level_str
      in if level_lower = ''trace'' then TRACE
         else if level_lower = ''debug'' then DEBUG
         else if level_lower = ''info'' then INFO
         else if level_lower = ''warn'' \<or> level_lower = ''warning'' then WARN
         else if level_lower = ''error'' then ERROR
         else if level_lower = ''critical'' \<or> level_lower = ''fatal'' then CRITICAL
         else if level_lower = ''off'' \<or> level_lower = ''none'' then OFF
         else INFO)"

text \<open>
  The regular expression: digits, a point with digits or nothing, white space, a unit or nothing. It has one
  match at most: the number as it is handed to \<open>stod\<close>, and the unit in lower case.
\<close>

definition size_match :: "string \<Rightarrow> (string \<times> string) option" where
  "size_match s =
     (let whole = leading_digits 10 s; rest = drop (length whole) s;
          frac = (case rest of c # cs \<Rightarrow> if c = CHR ''.'' then leading_digits 10 cs else [] | [] \<Rightarrow> []);
          num = (if frac = [] then whole else whole @ ''.'' @ frac);
          unit = map to_lower (dropWhile is_space (drop (length num) s))
      in if whole \<noteq> [] \<and> unit \<in> {[], ''b'', ''kb'', ''mb'', ''gb'', ''tb''} then Some (num, unit) else None)"

definition size_multiplier :: "string \<Rightarrow> u64" where
  "size_multiplier unit =
     (if unit = ''kb'' then 1024 else if unit = ''mb'' then 1024 * 1024 else if unit = ''gb'' then 1024 * 1024 * 1024
      else if unit = ''tb'' then 1024 * 1024 * 1024 * 1024 else 1)"

definition parse_size_string :: "string \<Rightarrow> u64 option throws" where
  "parse_size_string size_str =
     (case size_match size_str of
        None \<Rightarrow> Inl (Invalid_argument (''Invalid size format: '' @ size_str))
      | Some (num, unit) \<Rightarrow>
          bind_exn (stod num) (\<lambda>x. Inr (f64_to_u64 (f64_mul x (f64_of_u64 (size_multiplier unit))))))"

subsection \<open>Reading a document\<close>

text \<open>\<^verbatim>\<open>if (v.contains(key)) { config.field = v[key].get<T>(); }\<close>, and the same for a section of fields.\<close>

definition set_field :: "json \<Rightarrow> string \<Rightarrow> (json \<Rightarrow> string + 'a) \<Rightarrow> ('a \<Rightarrow> LogConfig \<Rightarrow> LogConfig) \<Rightarrow>
    LogConfig \<Rightarrow> string + LogConfig" where
  "set_field v key get upd config =
     (case json_member v key of None \<Rightarrow> Inr config | Some x \<Rightarrow> on_value (get x) (\<lambda>a. Inr (upd a config)))"

definition set_section :: "json \<Rightarrow> string \<Rightarrow> (json \<Rightarrow> (LogConfig \<Rightarrow> string + LogConfig) list) \<Rightarrow>
    LogConfig \<Rightarrow> string + LogConfig" where
  "set_section v key steps config =
     (case json_member v key of None \<Rightarrow> Inr config | Some x \<Rightarrow> run_steps (steps x) config)"

definition get_size_string :: "(json \<Rightarrow> string) \<Rightarrow> u64 \<Rightarrow> json \<Rightarrow> string + u64" where
  "get_size_string type_error junk v =
     on_value (json_get_string type_error v) (\<lambda>s.
       case parse_size_string s of Inl e \<Rightarrow> Inl (exn_what e) | Inr None \<Rightarrow> Inr junk | Inr (Some n) \<Rightarrow> Inr n)"

definition load_from_json :: "(json \<Rightarrow> string) \<Rightarrow> u64 \<Rightarrow> json \<Rightarrow> string + LogConfig" where
  "load_from_json type_error junk config_json =
     (case json_member config_json ''logging'' of
        None \<Rightarrow> Inr create_default
      | Some logging_config \<Rightarrow>
          (let bool = json_get_bool type_error; str = json_get_string type_error;
               level = (\<lambda>v. on_value (str v) (\<lambda>s. Inr (parse_log_level s)))
           in run_steps
             [set_section logging_config ''console'' (\<lambda>c.
                [set_field c ''enabled'' bool (\<lambda>b r. r\<lparr>lc_enable_console_output := b\<rparr>),
                 set_field c ''level'' level (\<lambda>l r. r\<lparr>lc_console_level := l\<rparr>),
                 set_field c ''pretty_print'' bool (\<lambda>b r. r\<lparr>lc_pretty_print_console := b\<rparr>)]),
              set_section logging_config ''file'' (\<lambda>f.
                [set_field f ''enabled'' bool (\<lambda>b r. r\<lparr>lc_enable_file_output := b\<rparr>),
                 set_field f ''level'' level (\<lambda>l r. r\<lparr>lc_file_level := l\<rparr>),
                 set_field f ''directory'' str (\<lambda>s r. r\<lparr>lc_log_directory := s\<rparr>),
                 set_field f ''filename'' str (\<lambda>s r. r\<lparr>lc_log_file_pattern := s\<rparr>),
                 set_field f ''max_size'' (get_size_string type_error junk) (\<lambda>n r. r\<lparr>lc_max_file_size := n\<rparr>),
                 set_field f ''max_files'' (json_get_size type_error junk) (\<lambda>n r. r\<lparr>lc_max_files := n\<rparr>),
                 set_field f ''pretty_print'' bool (\<lambda>b r. r\<lparr>lc_pretty_print_file := b\<rparr>)]),
              set_field logging_config ''format'' str (\<lambda>s r. r\<lparr>lc_enable_json_format := (s = ''json'')\<rparr>),
              set_field logging_config ''global_fields'' Inr (\<lambda>v r. r\<lparr>lc_global_fields := v\<rparr>)]
             create_default))"

subsection \<open>Reading YAML\<close>

text \<open>
  A pointer into the document is the path of the keys that lead to it; the pointers the reader keeps
  lead to objects that it has made and that it does not replace while it keeps them.
\<close>

fun put_at :: "string list \<Rightarrow> string \<Rightarrow> json \<Rightarrow> json \<Rightarrow> json" where
  "put_at [] key x v = json_put key x v"
| "put_at (p # ps) key x v =
     json_put p (put_at ps key x (case json_member v p of None \<Rightarrow> Jnull | Some w \<Rightarrow> w)) v"

definition is_blank :: "char \<Rightarrow> bool" where
  "is_blank c \<longleftrightarrow> c = CHR '' '' \<or> c = CHR 0x09"

definition trim_blanks :: "string \<Rightarrow> string" where
  "trim_blanks s = rev (dropWhile is_blank (rev (dropWhile is_blank s)))"

definition yaml_scalar :: "string \<Rightarrow> json" where
  "yaml_scalar s =
     (if (hd s = CHR 0x22 \<and> last s = CHR 0x22) \<or> (hd s = CHR 0x27 \<and> last s = CHR 0x27) then Jstring (butlast (tl s))
      else if s = ''true'' then Jbool True
      else if s = ''false'' then Jbool False
      else if s = ''null'' then Jnull
      else if CHR ''.'' \<in> set s then (case stod s of Inl _ \<Rightarrow> Jstring s | Inr x \<Rightarrow> Jfloat x)
      else (case stoll s of Inl _ \<Rightarrow> Jstring s | Inr n \<Rightarrow> Jint n))"

record yaml_state =
  ys_result :: json
  ys_current :: "string list"
  ys_objects :: "string list list"
  ys_indents :: "nat list"

text \<open>The loop that leaves sections; the last element of a vector is the head of the list.\<close>

fun unwind :: "nat \<Rightarrow> nat list \<Rightarrow> string list list \<Rightarrow> string list \<Rightarrow> nat list \<times> string list list \<times> string list" where
  "unwind indent (i # is) (p # ps) current =
     (if indent \<le> i then unwind indent is ps (case ps of [] \<Rightarrow> [] | q # _ \<Rightarrow> q) else (i # is, p # ps, current))"
| "unwind indent is ps current = (is, ps, current)"

definition yaml_line :: "string \<Rightarrow> yaml_state \<Rightarrow> yaml_state" where
  "yaml_line line s =
     (if list_all (\<lambda>c. is_blank c \<or> c = CHR ''#'') line then s
      else
        let indent = length (takeWhile (\<lambda>c. c = CHR '' '') line);
            (is, ps, current) = unwind indent (ys_indents s) (ys_objects s) (ys_current s);
            s1 = s\<lparr>ys_indents := is, ys_objects := ps, ys_current := current\<rparr>
        in case split_at (CHR '':'') (dropWhile is_blank line) of
             None \<Rightarrow> s1
           | Some (k, v) \<Rightarrow>
               (let key = trim_blanks k; val = trim_blanks v
                in if val = []
                   then s1\<lparr>ys_result := put_at current key (Jobject []) (ys_result s1), ys_objects := current # ps,
                           ys_current := current @ [key], ys_indents := indent # is\<rparr>
                   else s1\<lparr>ys_result := put_at current key (yaml_scalar val) (ys_result s1)\<rparr>))"

definition yaml_to_json :: "string list \<Rightarrow> json" where
  "yaml_to_json lines =
     ys_result (fold yaml_line lines \<lparr> ys_result = Jnull, ys_current = [], ys_objects = [], ys_indents = [] \<rparr>)"

subsection \<open>Sizes\<close>

lemma digit_facts:
  assumes "d < 10"
  shows "digit_value 10 (digit_char d) = Some d" "to_lower (digit_char d) = digit_char d"
    "\<not> is_space (digit_char d)" "digit_char d \<notin> set ''+-.inx''"
proof -
  have "d \<in> set [0, 1, 2, 3, 4, 5, 6, 7, 8, 9]" using assms by (simp, presburger)
  then show "digit_value 10 (digit_char d) = Some d" "to_lower (digit_char d) = digit_char d"
    "\<not> is_space (digit_char d)" "digit_char d \<notin> set ''+-.inx''"
    by (auto simp: digit_char_def digit_value_def to_lower_def is_space_def)
qed

lemma leading_digits_dec_string:
  assumes "rest = [] \<or> digit_value 10 (hd rest) = None"
  shows "leading_digits 10 (dec_string n @ rest) = dec_string n"
proof -
  have "\<forall>c \<in> set (dec_string n). digit_value 10 c \<noteq> None"
    using dec_string_digits [of n] digit_facts(1) by fastforce
  moreover have "takeWhile (\<lambda>c. digit_value 10 c \<noteq> None) rest = []"
    using assms by (cases rest) auto
  ultimately show ?thesis by (simp add: leading_digits_def takeWhile_append2)
qed

lemma scan_digits_dec_string: "scan_digits 10 0 (dec_string n) = n"
  using scan_show_base [OF digit_value_10, of n] by (simp add: dec_string_def)

lemma scan_real_dec_string: "scan_real (dec_string n) = Some (of_nat n)"
proof -
  obtain d cs where d: "d < 10" "dec_string n = digit_char d # cs" and cs: "\<forall>c \<in> set cs. \<exists>d<10. c = digit_char d"
    using dec_string_digits [of n] by (cases "dec_string n") (auto simp: dec_string_def)
  have "map to_lower (take 2 (dec_string n)) \<noteq> ''0x''"
  proof (cases cs)
    case (Cons c cs')
    then obtain e where "e < 10" "c = digit_char e" using cs by auto
    then show ?thesis using Cons d digit_facts(2,4) [of e] by (auto simp: numeral_2_eq_2)
  qed (simp add: d)
  moreover have "scan_fraction 10 (dec_string n) = Some (n, 0, [])"
    using leading_digits_dec_string [of "[]" n] scan_digits_dec_string [of n] d
    by (simp add: scan_fraction_def Let_def)
  ultimately show ?thesis by (simp add: scan_real_def scan_exponent_def)
qed

lemma stod_dec_string:
  assumes "n < 2 ^ 53"
  shows "stod (dec_string n) = Inr (Fin (of_nat n))"
proof -
  obtain d cs where d: "d < 10" "dec_string n = digit_char d # cs"
    using dec_string_digits [of n] by (cases "dec_string n") (auto simp: dec_string_def)
  have plain: "scan_sign (dropWhile is_space (dec_string n)) = (False, dec_string n)"
    using d digit_facts [OF d(1)] by (simp add: scan_sign_def)
  have "map to_lower (take 3 (dec_string n)) \<noteq> ''inf'' \<and> map to_lower (take 3 (dec_string n)) \<noteq> ''nan''"
    using d digit_facts [OF d(1)] by (auto simp: numeral_3_eq_3)
  moreover have "(of_nat n :: rat) < 2 ^ 1024"
  proof -
    have "(of_nat n :: rat) < of_nat (2 ^ 53)" using assms by (simp only: of_nat_less_iff)
    also have "\<dots> \<le> 2 ^ 1024" by (simp add: power_increasing)
    finally show ?thesis .
  qed
  ultimately show ?thesis
    using plain scan_real_dec_string [of n] fl_of_nat [OF assms] by (simp add: stod_def)
qed

abbreviation size_units :: "string set" where
  "size_units \<equiv> {[], ''b'', ''kb'', ''mb'', ''gb'', ''tb''}"

lemma to_lower_digit_space:
  "digit_value 10 c \<noteq> None \<Longrightarrow> to_lower c = c" "is_space c \<Longrightarrow> to_lower c = c" "is_space c \<Longrightarrow> digit_value 10 c = None"
  "to_lower (CHR ''.'') = CHR ''.''"
  by (auto simp: digit_value_def to_lower_def is_space_def Let_def split: if_splits)

lemma unit_start:
  assumes "map to_lower u \<in> size_units" "u \<noteq> []"
  shows "digit_value 10 (hd u) = None" "\<not> is_space (hd u)" "hd u \<noteq> CHR ''.''"
proof -
  have "to_lower (hd u) \<in> set ''bkmgt''" using assms by (cases u) auto
  then have n: "\<not> (digit_value 10 (to_lower (hd u)) \<noteq> None \<or> is_space (to_lower (hd u)) \<or> to_lower (hd u) = CHR ''.'')"
    by (auto simp: digit_value_def is_space_def)
  then show "digit_value 10 (hd u) = None" "\<not> is_space (hd u)" "hd u \<noteq> CHR ''.''"
    using to_lower_digit_space(1,2) [of "hd u"] to_lower_digit_space(4) by metis+
qed

lemma size_match_number:
  assumes "map to_lower u \<in> size_units" "list_all is_space ws"
  shows "size_match (dec_string n @ ws @ u) = Some (dec_string n, map to_lower u)"
proof -
  have hd_rest: "ws @ u = [] \<or> (digit_value 10 (hd (ws @ u)) = None \<and> hd (ws @ u) \<noteq> CHR ''.'')"
    using assms(2) unit_start [OF assms(1)] to_lower_digit_space(3)
    by (cases ws) (auto simp: is_space_def)
  then have "leading_digits 10 (dec_string n @ ws @ u) = dec_string n"
    by (intro leading_digits_dec_string) auto
  moreover have "dropWhile is_space (ws @ u) = u"
    using assms(2) unit_start(2) [OF assms(1)] by (cases u) (auto simp: list_all_iff dropWhile_append)
  moreover have "(case ws @ u of c # cs \<Rightarrow> if c = CHR ''.'' then leading_digits 10 cs else [] | [] \<Rightarrow> []) = []"
    using hd_rest by (cases "ws @ u") auto
  ultimately show ?thesis
    using assms(1) by (simp add: size_match_def Let_def dec_string_def del: dropWhile_eq_Nil_conv)
qed

lemma size_multiplier_pos: "1 \<le> unat (size_multiplier u)"
  by (simp add: size_multiplier_def)

lemma scaled_size:
  assumes "n * unat m < 2 ^ 53" "n < 2 ^ 53" "unat m < 2 ^ 53"
  shows "f64_to_u64 (f64_mul (Fin (of_nat n)) (f64_of_u64 m)) = Some (of_nat n * m)"
proof -
  have r: "round64 (of_nat k) = Fin (of_nat k)" if "k < 2 ^ 53" for k
  proof -
    have "(of_nat k :: rat) \<le> of_nat (2 ^ 53)" using that by (simp only: of_nat_le_iff)
    also have "\<dots> \<le> 2 ^ 1000" by (simp add: power_increasing)
    finally have "(of_nat k :: rat) \<le> 2 ^ 1000" .
    moreover have "(of_nat k :: rat) = 0 \<or> 2 powi (- 1022) \<le> (of_nat k :: rat)" using small_range by (cases k) auto
    ultimately show ?thesis using round64_Fin fl_of_nat [OF that] by simp
  qed
  have "f64_mul (Fin (of_nat n)) (f64_of_u64 m) = round64 (of_nat (n * unat m))"
    using r [OF assms(3)] by (simp add: f64_of_u64_def)
  then have "f64_mul (Fin (of_nat n)) (f64_of_u64 m) = Fin (of_nat (n * unat m))" using r [OF assms(1)] by simp
  moreover have "(of_nat (n * unat m) :: u64) = of_nat n * m" by simp
  ultimately show ?thesis using f64_to_u64_nat [of "n * unat m"] assms(1) by simp
qed

text \<open>
  A size in the configuration means what it says: a decimal number, white space and a unit in any case, \<open>B\<close>
  to \<open>TB\<close> or none, is read as the number times the power of 1024 that the unit names, as long as that is less
  than \<open>2 ^ 53\<close>.
\<close>

theorem parse_size_string_exact:
  assumes "map to_lower u \<in> size_units" "list_all is_space ws"
    and "n * unat (size_multiplier (map to_lower u)) < 2 ^ 53"
  shows "parse_size_string (dec_string n @ ws @ u) = Inr (Some (of_nat n * size_multiplier (map to_lower u)))"
proof -
  have m: "unat (size_multiplier (map to_lower u)) < 2 ^ 53" by (simp add: size_multiplier_def)
  have "n * 1 \<le> n * unat (size_multiplier (map to_lower u))" using size_multiplier_pos by (intro mult_le_mono2)
  then have n: "n < 2 ^ 53" using assms(3) by linarith
  show ?thesis
    unfolding parse_size_string_def size_match_number [OF assms(1,2)]
    using stod_dec_string [OF n] scaled_size [OF assms(3) n m] by simp
qed

theorem parse_size_string_exact_witness:
  "parse_size_string (dec_string 10 @ '' '' @ ''MB'') = Inr (Some (10 * 1048576))"
proof -
  have "map to_lower ''MB'' = ''mb''" by code_simp
  then show ?thesis
    using parse_size_string_exact [of "''MB''" "'' ''" 10] by (simp add: is_space_def size_multiplier_def)
qed

subsection \<open>Sections of a YAML file\<close>

text \<open>A section with its fields as it is written two levels below the top of a file, and as a value.\<close>

type_synonym yaml_section = "string \<times> (string \<times> string) list"

definition section_lines :: "yaml_section \<Rightarrow> string list" where
  "section_lines s = (''  '' @ fst s @ '':'') # map (\<lambda>(k, v). ''    '' @ k @ '': '' @ v) (snd s)"

definition section_fields :: "(string \<times> string) list \<Rightarrow> (string \<times> json) list \<Rightarrow> (string \<times> json) list" where
  "section_fields fs m = fold (\<lambda>(k, v). um_insert k (yaml_scalar v)) fs m"

abbreviation section_value :: "yaml_section \<Rightarrow> json" where
  "section_value s \<equiv> Jobject (section_fields (snd s) [])"

definition unpadded :: "string \<Rightarrow> bool" where
  "unpadded s \<longleftrightarrow> s \<noteq> [] \<and> \<not> is_blank (hd s) \<and> \<not> is_blank (last s)"

definition plain_key :: "string \<Rightarrow> bool" where
  "plain_key k \<longleftrightarrow> unpadded k \<and> CHR '':'' \<notin> set k \<and> hd k \<noteq> CHR ''#''"

definition plain_section :: "yaml_section \<Rightarrow> bool" where
  "plain_section s \<longleftrightarrow> plain_key (fst s) \<and> (\<forall>(k, v) \<in> set (snd s). plain_key k \<and> unpadded v)"

lemma trim_blanks_unpadded:
  assumes "unpadded s"
  shows "trim_blanks s = s" "trim_blanks (CHR '' '' # s) = s" "trim_blanks [] = []"
proof -
  have "dropWhile is_blank s = s" using assms by (cases s) (auto simp: unpadded_def)
  moreover have "dropWhile is_blank (rev s) = rev s" using assms by (cases s rule: rev_cases) (auto simp: unpadded_def)
  ultimately show "trim_blanks s = s" "trim_blanks (CHR '' '' # s) = s" "trim_blanks [] = []"
    by (simp_all add: trim_blanks_def is_blank_def [of "CHR '' ''"])
qed

lemma split_at_append: "d \<notin> set k \<Longrightarrow> split_at d (k @ d # v) = Some (k, v)"
proof -
  assume "d \<notin> set k"
  then have "takeWhile (\<lambda>c. c \<noteq> d) (k @ d # v) = k \<and> dropWhile (\<lambda>c. c \<noteq> d) (k @ d # v) = d # v"
    by (induction k) auto
  then show ?thesis by (simp add: split_at_def)
qed

lemma key_line:
  assumes "plain_key k"
  shows "list_all (\<lambda>c. is_blank c \<or> c = CHR ''#'') k = False"
    "length (takeWhile (\<lambda>c. c = CHR '' '') (replicate n CHR '' '' @ k @ rest)) = n"
    "split_at (CHR '':'') (dropWhile is_blank (replicate n CHR '' '' @ k @ CHR '':'' # v)) = Some (k, v)"
proof -
  obtain c cs where k: "k = c # cs" "\<not> is_blank c" "c \<noteq> CHR ''#''" and colon: "CHR '':'' \<notin> set k"
    using assms by (cases k) (auto simp: plain_key_def unpadded_def)
  show "list_all (\<lambda>c. is_blank c \<or> c = CHR ''#'') k = False"
    using k by simp
  show "length (takeWhile (\<lambda>c. c = CHR '' '') (replicate n CHR '' '' @ k @ rest)) = n"
    using k(1,2) by (induction n) (simp_all add: is_blank_def)
  have "dropWhile is_blank (replicate n CHR '' '' @ k @ CHR '':'' # v) = k @ CHR '':'' # v"
    using k(1,2) by (induction n) (simp_all add: is_blank_def)
  then show "split_at (CHR '':'') (dropWhile is_blank (replicate n CHR '' '' @ k @ CHR '':'' # v)) = Some (k, v)"
    using split_at_append [OF colon] by simp
qed

lemma yaml_section_start:
  assumes "plain_key k" "unwind n (ys_indents s) (ys_objects s) (ys_current s) = (is, ps, current)"
  shows "yaml_line (replicate n CHR '' '' @ k @ '':'') s =
    s\<lparr>ys_result := put_at current k (Jobject []) (ys_result s), ys_objects := current # ps,
      ys_current := current @ [k], ys_indents := n # is\<rparr>"
  using key_line(1) [OF assms(1)] key_line(2) [OF assms(1), of n "'':''"] key_line(3) [OF assms(1), of n "[]"] assms
    trim_blanks_unpadded(1) [of k] trim_blanks_unpadded(3) [of k]
  by (simp add: yaml_line_def Let_def plain_key_def)

lemma yaml_field:
  assumes "plain_key k" "unpadded v"
    and "unwind n (ys_indents s) (ys_objects s) (ys_current s) = (ys_indents s, ys_objects s, ys_current s)"
  shows "yaml_line (replicate n CHR '' '' @ k @ '': '' @ v) s =
    s\<lparr>ys_result := put_at (ys_current s) k (yaml_scalar v) (ys_result s)\<rparr>"
  using key_line(1) [OF assms(1)] key_line(2) [OF assms(1), of n "'': '' @ v"] key_line(3) [OF assms(1), of n "CHR '' '' # v"] assms
    trim_blanks_unpadded(1) [of k] trim_blanks_unpadded(2) [of v]
  by (simp add: yaml_line_def Let_def plain_key_def unpadded_def)

lemma json_put_put [simp]: "json_put p a (json_put p b v) = json_put p a v"
proof -
  have "um_insert p a (um_insert p b m) = um_insert p a m" for m :: "(string \<times> json) list"
    by (induction m) (auto simp: um_insert_def)
  then show ?thesis by (simp add: json_put_def um_insert_def split: json.split)
qed

lemma json_member_put_same [simp]: "json_member (json_put p a v) p = Some a"
  by (auto simp: json_member_def json_put_def um_defs AList.update_conv' split: json.split)

lemma json_member_put_other: "j \<noteq> p \<Longrightarrow> json_member (json_put p a (Jobject m)) j = json_member (Jobject m) j"
  by (simp add: json_member_def json_put_def um_defs AList.update_conv')

lemma fold_put_at:
  "fold (\<lambda>(k, v). put_at (p # ps) k (yaml_scalar v)) fs (json_put p w doc)
    = json_put p (fold (\<lambda>(k, v). put_at ps k (yaml_scalar v)) fs w) doc"
  by (induction fs arbitrary: w) (auto split: prod.split)

lemma fold_put_here:
  "fold (\<lambda>(k, v). put_at [] k (yaml_scalar v)) fs (Jobject m) = Jobject (section_fields fs m)"
  by (induction fs arbitrary: m) (auto simp: section_fields_def json_put_def)

text \<open>The fields of a section go to the current object and leave the stacks alone.\<close>

lemma yaml_fields:
  assumes "\<forall>(k, v) \<in> set fs. plain_key k \<and> unpadded v"
    and "ys_indents s = 2 # is" "ys_objects s = q # ps"
  shows "fold yaml_line (map (\<lambda>(k, v). ''    '' @ k @ '': '' @ v) fs) s
    = s\<lparr>ys_result := fold (\<lambda>(k, v). put_at (ys_current s) k (yaml_scalar v)) fs (ys_result s)\<rparr>"
  using assms
proof (induction fs arbitrary: s)
  case (Cons f fs)
  obtain k v where f: "f = (k, v)" by (cases f)
  have "yaml_line (''    '' @ k @ '': '' @ v) s = s\<lparr>ys_result := put_at (ys_current s) k (yaml_scalar v) (ys_result s)\<rparr>"
    using yaml_field [of k v 4 s] Cons.prems by (simp add: f eval_nat_numeral)
  then show ?case
    using Cons.IH [of "s\<lparr>ys_result := put_at (ys_current s) k (yaml_scalar v) (ys_result s)\<rparr>"] Cons.prems
    by (simp add: f)
qed simp

lemma yaml_section:
  assumes "plain_section x" "unwind 2 (ys_indents s) (ys_objects s) (ys_current s) = (is, ps, current)"
  shows "fold yaml_line (section_lines x) s =
    s\<lparr>ys_result := fold (\<lambda>(k, v). put_at (current @ [fst x]) k (yaml_scalar v)) (snd x)
          (put_at current (fst x) (Jobject []) (ys_result s)),
      ys_objects := current # ps, ys_current := current @ [fst x], ys_indents := 2 # is\<rparr>"
proof -
  have "yaml_line (''  '' @ fst x @ '':'') s =
    s\<lparr>ys_result := put_at current (fst x) (Jobject []) (ys_result s), ys_objects := current # ps,
      ys_current := current @ [fst x], ys_indents := 2 # is\<rparr>"
    using yaml_section_start [of "fst x" 2 s] assms by (simp add: plain_section_def numeral_2_eq_2)
  then show ?thesis
    using yaml_fields [of "snd x"] assms(1) by (simp add: section_lines_def plain_section_def)
qed

text \<open>Once the reader has come back from a section, every further one starts at the top of the document.\<close>

lemma yaml_more_sections:
  assumes "\<forall>x \<in> set xs. plain_section x"
    and "ys_indents s = [2, 0]" "ys_objects s = [q, []]"
  shows "ys_result (fold yaml_line (concat (map section_lines xs)) s)
    = fold (\<lambda>x. json_put (fst x) (section_value x)) xs (ys_result s)"
  using assms
proof (induction xs arbitrary: s q)
  case (Cons x xs)
  have "fold yaml_line (section_lines x) s =
    s\<lparr>ys_result := json_put (fst x) (section_value x) (ys_result s), ys_objects := [[], []],
      ys_current := [fst x], ys_indents := [2, 0]\<rparr>"
    using yaml_section [of x s "[0]" "[[]]" "[]"] Cons.prems
    by (simp add: fold_put_at fold_put_here)
  then show ?case
    using Cons.IH [of "fold yaml_line (section_lines x) s" "[]"] Cons.prems(1) by simp
qed simp

lemma yaml_document:
  assumes "plain_key name" "\<forall>y \<in> set (x # xs). plain_section y"
  shows "yaml_to_json ((name @ '':'') # concat (map section_lines (x # xs)))
    = fold (\<lambda>y. json_put (fst y) (section_value y)) xs (Jobject [(name, Jobject [(fst x, section_value x)])])"
proof -
  define s where "s = \<lparr> ys_result = Jobject [(name, Jobject [])], ys_current = [name], ys_objects = [[]], ys_indents = [0] \<rparr>"
  have start: "yaml_line (name @ '':'') \<lparr> ys_result = Jnull, ys_current = [], ys_objects = [], ys_indents = [] \<rparr> = s"
    using yaml_section_start [of name 0 "\<lparr> ys_result = Jnull, ys_current = [], ys_objects = [], ys_indents = [] \<rparr>" "[]" "[]" "[]"]
      assms(1) by (simp add: s_def json_put_def)
  have obj: "Jobject [(name, w)] = json_put name w Jnull" for w by (simp add: json_put_def)
  have first: "fold yaml_line (section_lines x) s =
    s\<lparr>ys_result := Jobject [(name, Jobject [(fst x, section_value x)])], ys_objects := [[name], []],
      ys_current := [name, fst x], ys_indents := [2, 0]\<rparr>"
    using yaml_section [of x s "[0]" "[[]]" "[name]"] assms(2)
    by (simp add: s_def obj fold_put_at) (simp add: json_put_def [of _ _ Jnull] json_put_def [of _ _ "Jobject []"] fold_put_at fold_put_here um_insert_def)
  show ?thesis
    using yaml_more_sections [of xs "fold yaml_line (section_lines x) s" "[name]"] assms(2) start
    by (simp add: yaml_to_json_def first)
qed

lemma json_member_fold_put:
  assumes "\<forall>y \<in> set xs. fst y \<noteq> j"
  shows "json_member (fold (\<lambda>y. json_put (fst y) (section_value y)) xs (Jobject m)) j = json_member (Jobject m) j"
  using assms
proof (induction xs arbitrary: m)
  case (Cons x xs)
  have "json_put (fst x) (section_value x) (Jobject m) = Jobject (um_insert (fst x) (section_value x) m)"
    by (simp add: json_put_def)
  then show ?case
    using Cons.IH [of "um_insert (fst x) (section_value x) m"] Cons.prems json_member_put_other [of j "fst x" "section_value x" m]
    by (auto simp: json_put_def)
qed simp

lemma load_from_json_member:
  "json_member a ''logging'' = json_member b ''logging'' \<Longrightarrow> load_from_json te junk a = load_from_json te junk b"
  by (simp add: load_from_json_def)

text \<open>
  A YAML file configures one section only: whatever sections follow the first one below \<open>logging:\<close>, the
  configuration is the one the file with the first section alone gives, or fails as it does. The reader
  returns from a section to the parent of its parent, so the others end up beside \<open>logging\<close>.
\<close>

theorem yaml_later_sections_ignored:
  assumes "\<forall>y \<in> set (x # xs). plain_section y" "\<forall>y \<in> set xs. fst y \<noteq> ''logging''"
  shows "load_from_json type_error junk (yaml_to_json (''logging:'' # concat (map section_lines (x # xs))))
    = load_from_json type_error junk (yaml_to_json (''logging:'' # section_lines x))"
proof (rule load_from_json_member)
  have key: "plain_key ''logging''" by (simp add: plain_key_def unpadded_def is_blank_def)
  have "yaml_to_json (''logging:'' # concat (map section_lines (x # ys)))
      = fold (\<lambda>y. json_put (fst y) (section_value y)) ys (Jobject [(''logging'', Jobject [(fst x, section_value x)])])"
    if "\<forall>y \<in> set (x # ys). plain_section y" for ys
    using yaml_document [OF key that] by simp
  from this [OF assms(1)] this [of "[]"] show "json_member (yaml_to_json (''logging:'' # concat (map section_lines (x # xs)))) ''logging''
      = json_member (yaml_to_json (''logging:'' # section_lines x)) ''logging''"
    using assms json_member_fold_put [of xs "''logging''"] by simp
qed

theorem yaml_later_sections_ignored_witness:
  "\<exists>c. load_from_json (\<lambda>_. ''type'') 0 (yaml_to_json
      [''logging:'', ''  console:'', ''    level: debug'', ''  file:'', ''    enabled: false'']) = Inr c
    \<and> lc_console_level c = DEBUG \<and> lc_enable_file_output c"
proof -
  have "load_from_json (\<lambda>_. ''type'') 0 (yaml_to_json
      [''logging:'', ''  console:'', ''    level: debug'', ''  file:'', ''    enabled: false''])
    = load_from_json (\<lambda>_. ''type'') 0 (yaml_to_json [''logging:'', ''  console:'', ''    level: debug''])"
    using yaml_later_sections_ignored [of "(''console'', [(''level'', ''debug'')])" "[(''file'', [(''enabled'', ''false'')])]"]
    by (simp add: plain_section_def plain_key_def unpadded_def is_blank_def section_lines_def)
  moreover have "yaml_to_json [''logging:'', ''  console:'', ''    level: debug'']
      = Jobject [(''logging'', Jobject [(''console'', Jobject [(''level'', Jstring ''debug'')])])]"
    by code_simp
  moreover have "parse_log_level ''debug'' = DEBUG" by code_simp
  ultimately show ?thesis
    by (simp add: load_from_json_def json_member_def um_lookup_def Let_def set_section_def set_field_def
        json_get_string_def create_default_def)
qed

text \<open>A size without quotes is read as the number it starts with, and then refused as a size.\<close>

lemma yaml_unquoted_size:
  "yaml_scalar ''10MB'' = Jint 10" "get_size_string type_error junk (Jint 10) = Inl (type_error (Jint 10))"
proof -
  have "stoll ''10MB'' = Inr 10" by code_simp
  then show "yaml_scalar ''10MB'' = Jint 10" by (simp add: yaml_scalar_def)
qed (simp add: get_size_string_def json_get_string_def)

text \<open>A comment that contains a colon is read as a field.\<close>

lemma yaml_comment_is_field: "yaml_to_json [''# level: debug''] = Jobject [(''# level'', Jstring ''debug'')]"
  by code_simp

end
