(* ===== verification/Log_Manager.thy ===== *)
theory Log_Manager
  imports Log_Config
begin

text \<open>
  The log manager, its loggers and the JSON formatter (modules/logging: log_manager.cpp, logger.cpp,
  json_formatter.cpp, and the entry points of config_loader.cpp). The package spdlog is the argument \<open>spd\<close>: its
  registry has the state \<open>'r\<close>; registering a logger may throw (\<open>None\<close>). Levels of spdlog are the levels of
  LogLevel, which \<open>to_spdlog_level\<close> maps one to one. \<open>mkdir\<close> and \<open>open_log\<close> are what creating the log directory and
  opening the log file say when they throw; \<open>parse\<close> and \<open>dump\<close> are the functions of nlohmann::json.
\<close>

subsection \<open>Formatter\<close>

record JsonFormatter =
  jf_pretty_print :: bool
  jf_global_fields :: json

definition add_global_field :: "string \<Rightarrow> json \<Rightarrow> JsonFormatter \<Rightarrow> JsonFormatter" where
  "add_global_field key v f = f\<lparr>jf_global_fields := json_put key v (jf_global_fields f)\<rparr>"

definition remove_global_field :: "string \<Rightarrow> JsonFormatter \<Rightarrow> JsonFormatter" where
  "remove_global_field key f =
     f\<lparr>jf_global_fields := (case jf_global_fields f of Jobject m \<Rightarrow> Jobject (um_erase key m) | v \<Rightarrow> v)\<rparr>"

definition json_formatter :: "bool \<Rightarrow> JsonFormatter" where
  "json_formatter pretty_print =
     add_global_field ''version'' (Jstring ''1.0.0'') (add_global_field ''service'' (Jstring ''chainforge'')
       \<lparr> jf_pretty_print = pretty_print, jf_global_fields = Jnull \<rparr>)"

text \<open>A message as spdlog hands it on; its time is printed by \<open>format_timestamp\<close>.\<close>

record log_msg =
  msg_time :: string
  msg_level :: LogLevel
  msg_logger_name :: string
  msg_thread_id :: int
  msg_source :: "(string \<times> int \<times> string) option"
  msg_payload :: string

fun level_to_string :: "LogLevel \<Rightarrow> string" where
  "level_to_string TRACE = ''TRACE''"
| "level_to_string DEBUG = ''DEBUG''"
| "level_to_string INFO = ''INFO''"
| "level_to_string WARN = ''WARN''"
| "level_to_string ERROR = ''ERROR''"
| "level_to_string CRITICAL = ''CRITICAL''"
| "level_to_string OFF = ''OFF''"

text \<open>The record before the global fields, and the whole record.\<close>

definition message_fields :: "(string \<Rightarrow> json option) \<Rightarrow> string \<Rightarrow> json \<Rightarrow> json" where
  "message_fields parse payload r =
     (let structured_data = (case parse payload of None \<Rightarrow> Jnull | Some v \<Rightarrow> v)
      in case json_member structured_data ''message'' of
           None \<Rightarrow> json_put ''message'' (Jstring payload) r
         | Some m \<Rightarrow>
             (case json_member structured_data ''fields'' of
                None \<Rightarrow> json_put ''message'' m r
              | Some f \<Rightarrow> json_put ''fields'' f (json_put ''message'' m r)))"

definition record_header :: "log_msg \<Rightarrow> json" where
  "record_header msg =
     (let r = json_put ''thread_id'' (Jint (msg_thread_id msg))
                (json_put ''logger'' (Jstring (msg_logger_name msg))
                (json_put ''level'' (Jstring (level_to_string (msg_level msg)))
                (json_put ''timestamp'' (Jstring (msg_time msg)) Jnull)))
      in case msg_source msg of
           None \<Rightarrow> r
         | Some (file, line, func) \<Rightarrow>
             json_put ''source'' (json_put ''function'' (Jstring func) (json_put ''line'' (Jint line)
               (json_put ''file'' (Jstring file) Jnull))) r)"

definition log_record :: "(string \<Rightarrow> json option) \<Rightarrow> JsonFormatter \<Rightarrow> log_msg \<Rightarrow> json" where
  "log_record parse f msg =
     fold (\<lambda>(key, v). json_put key v) (json_items (jf_global_fields f))
       (message_fields parse (msg_payload msg) (record_header msg))"

definition format :: "(string \<Rightarrow> json option) \<Rightarrow> (bool \<Rightarrow> json \<Rightarrow> string option) \<Rightarrow> JsonFormatter \<Rightarrow> log_msg \<Rightarrow> string option" where
  "format parse dump f msg = map_option (\<lambda>s. s @ [LF]) (dump (jf_pretty_print f) (log_record parse f msg))"

subsection \<open>Loggers\<close>

fun level_value :: "LogLevel \<Rightarrow> nat" where
  "level_value TRACE = 0"
| "level_value DEBUG = 1"
| "level_value INFO = 2"
| "level_value WARN = 3"
| "level_value ERROR = 4"
| "level_value CRITICAL = 5"
| "level_value OFF = 6"

datatype sink_target = Console | Rotating_file string u64 u64
datatype sink_format = Json_format JsonFormatter | Pattern string

record log_sink =
  sk_target :: sink_target
  sk_level :: LogLevel
  sk_format :: sink_format

record spd_logger =
  sp_name :: string
  sp_sinks :: "log_sink list"
  sp_level :: LogLevel
  sp_flush_on :: LogLevel

record 'r spdlog =
  sd_register :: "spd_logger \<Rightarrow> 'r \<Rightarrow> 'r option"
  sd_set_level :: "LogLevel \<Rightarrow> 'r \<Rightarrow> 'r"
  sd_shutdown :: "'r \<Rightarrow> 'r"

record Logger =
  lg_name :: string
  lg_logger :: spd_logger

text \<open>\<open>stdout_color_mt\<close> makes a logger with a console sink and registers it under its name.\<close>

definition make_logger :: "'r spdlog \<Rightarrow> string \<Rightarrow> 'r \<Rightarrow> (Logger \<times> 'r) option" where
  "make_logger spd name r =
     (let sp = \<lparr> sp_name = name, sp_sinks = [\<lparr> sk_target = Console, sk_level = TRACE,
                   sk_format = Pattern ''[%Y-%m-%d %H:%M:%S.%e] [%n] [%^%l%$] %v'' \<rparr>],
                 sp_level = INFO, sp_flush_on = OFF \<rparr>
      in map_option (\<lambda>r'. (\<lparr> lg_name = name, lg_logger = sp \<rparr>, r')) (sd_register spd sp r))"

definition logger_set_level :: "LogLevel \<Rightarrow> Logger \<Rightarrow> Logger" where
  "logger_set_level level l = l\<lparr>lg_logger := (lg_logger l)\<lparr>sp_level := level\<rparr>\<rparr>"

definition should_log :: "Logger \<Rightarrow> LogLevel \<Rightarrow> bool" where
  "should_log l level \<longleftrightarrow> level_value (sp_level (lg_logger l)) \<le> level_value level"

text \<open>What a logger passes on for a message: nothing, or the payload; \<open>Inl ()\<close> when printing it throws.\<close>

definition log_entry :: "string \<Rightarrow> json \<Rightarrow> json" where
  "log_entry message context = json_put ''fields'' context (json_put ''message'' (Jstring message) Jnull)"

definition log_message :: "(bool \<Rightarrow> json \<Rightarrow> string option) \<Rightarrow> Logger \<Rightarrow> LogLevel \<Rightarrow> string \<Rightarrow> json \<Rightarrow> unit + string option" where
  "log_message dump l level message context =
     (if \<not> should_log l level then Inr None
      else if json_empty context then Inr (Some message)
      else case dump False (log_entry message context) of None \<Rightarrow> Inl () | Some payload \<Rightarrow> Inr (Some payload))"

subsection \<open>Manager\<close>

record LogManager =
  lm_config :: LogConfig
  lm_initialized :: bool
  lm_loggers :: "(string \<times> Logger) list"
  lm_sinks :: "log_sink list"
  lm_console_sink :: "log_sink option"
  lm_file_sink :: "log_sink option"

definition log_manager :: LogManager where
  "log_manager = \<lparr> lm_config = create_default\<lparr>lc_global_fields := Jnull\<rparr>, lm_initialized = False, lm_loggers = [], lm_sinks = [],
     lm_console_sink = None, lm_file_sink = None \<rparr>"

definition sink_formatter :: "LogConfig \<Rightarrow> bool \<Rightarrow> string \<Rightarrow> sink_format" where
  "sink_formatter config pretty pattern =
     (if lc_enable_json_format config
      then Json_format (fold (\<lambda>(key, v). add_global_field key v) (json_items (lc_global_fields config)) (json_formatter pretty))
      else Pattern pattern)"

text \<open>\<open>operator/\<close> of \<open>std::filesystem::path\<close>.\<close>

definition path_join :: "string \<Rightarrow> string \<Rightarrow> string" where
  "path_join dir file =
     (if file \<noteq> [] \<and> hd file = CHR ''/'' then file
      else if dir = [] \<or> last dir = CHR ''/'' then dir @ file else dir @ ''/'' @ file)"

definition create_sinks :: "(string \<Rightarrow> string option) \<Rightarrow> LogManager \<Rightarrow> string option \<times> LogManager" where
  "create_sinks open_log m =
     (let config = lm_config m;
          console = \<lparr> sk_target = Console, sk_level = lc_console_level config, sk_format = sink_formatter config
            (lc_pretty_print_console config) ''[%Y-%m-%d %H:%M:%S.%e] [%n] [%^%l%$] %v'' \<rparr>;
          m1 = (if lc_enable_console_output config then m\<lparr>lm_sinks := [console], lm_console_sink := Some console\<rparr>
                else m\<lparr>lm_sinks := []\<rparr>);
          log_path = path_join (lc_log_directory config) (lc_log_file_pattern config);
          file = \<lparr> sk_target = Rotating_file log_path (lc_max_file_size config) (lc_max_files config),
            sk_level = lc_file_level config, sk_format = sink_formatter config
            (lc_pretty_print_file config) ''[%Y-%m-%d %H:%M:%S.%e] [%n] [%l] %v'' \<rparr>
      in if \<not> lc_enable_file_output config then (None, m1)
         else case open_log log_path of
           Some what \<Rightarrow> (Some what, m1)
         | None \<Rightarrow> (None, m1\<lparr>lm_sinks := lm_sinks m1 @ [file], lm_file_sink := Some file\<rparr>))"

definition min_level :: "LogConfig \<Rightarrow> LogLevel" where
  "min_level config =
     (if level_value (lc_file_level config) < level_value (lc_console_level config) then lc_file_level config
      else lc_console_level config)"

definition lm_initialize ::
  "'r spdlog \<Rightarrow> (string \<Rightarrow> string option) \<Rightarrow> (string \<Rightarrow> string option) \<Rightarrow> LogConfig \<Rightarrow> LogManager \<times> 'r \<Rightarrow>
   string option \<times> LogManager \<times> 'r" where
  "lm_initialize spd mkdir open_log config s =
     (let m = (fst s)\<lparr>lm_config := config\<rparr>;
          made = (if lc_enable_file_output config then mkdir (lc_log_directory config) else None)
      in case made of
           Some what \<Rightarrow> (Some what, m, snd s)
         | None \<Rightarrow>
             (case create_sinks open_log m of
                (Some what, m1) \<Rightarrow> (Some what, m1, snd s)
              | (None, m1) \<Rightarrow>
                  (None, m1\<lparr>lm_loggers := [], lm_initialized := True\<rparr>, sd_set_level spd (min_level config) (snd s))))"

definition lm_shutdown :: "'r spdlog \<Rightarrow> LogManager \<times> 'r \<Rightarrow> LogManager \<times> 'r" where
  "lm_shutdown spd s =
     ((fst s)\<lparr>lm_loggers := [], lm_sinks := [], lm_console_sink := None, lm_file_sink := None, lm_initialized := False\<rparr>,
      sd_shutdown spd (snd s))"

definition setup_logger :: "'r spdlog \<Rightarrow> LogManager \<Rightarrow> string \<Rightarrow> 'r \<Rightarrow> 'r option" where
  "setup_logger spd m name r =
     sd_register spd \<lparr> sp_name = name, sp_sinks = lm_sinks m, sp_level = min_level (lm_config m), sp_flush_on = ERROR \<rparr> r"

text \<open>
  \<^verbatim>\<open>logger->spdlog_logger() = spdlog_logger\<close> assigns to the copy of the pointer that \<open>spdlog_logger()\<close> returns,
  so the new object keeps the logger its constructor made. The result is \<open>None\<close> when an exception leaves it.
\<close>

definition lm_get_logger :: "'r spdlog \<Rightarrow> string \<Rightarrow> LogManager \<times> 'r \<Rightarrow> Logger option \<times> LogManager \<times> 'r" where
  "lm_get_logger spd name s =
     (case um_lookup (lm_loggers (fst s)) name of
        Some l \<Rightarrow> (Some l, s)
      | None \<Rightarrow>
          (case setup_logger spd (fst s) name (snd s) of
             None \<Rightarrow> (None, s)
           | Some r1 \<Rightarrow>
               (case make_logger spd name r1 of
                  None \<Rightarrow> (None, fst s, r1)
                | Some (l, r2) \<Rightarrow> (Some l, (fst s)\<lparr>lm_loggers := um_insert name l (lm_loggers (fst s))\<rparr>, r2))))"

definition set_global_level :: "'r spdlog \<Rightarrow> LogLevel \<Rightarrow> LogManager \<times> 'r \<Rightarrow> LogManager \<times> 'r" where
  "set_global_level spd level s =
     ((fst s)\<lparr>lm_loggers := map (\<lambda>(name, l). (name, logger_set_level level l)) (lm_loggers (fst s))\<rparr>,
      sd_set_level spd level (snd s))"

subsection \<open>Entry points\<close>

definition initialize_logging_with_defaults ::
  "'r spdlog \<Rightarrow> (string \<Rightarrow> string option) \<Rightarrow> (string \<Rightarrow> string option) \<Rightarrow> LogManager \<times> 'r \<Rightarrow> bool \<times> LogManager \<times> 'r" where
  "initialize_logging_with_defaults spd mkdir open_log s =
     (let (err, s') = lm_initialize spd mkdir open_log create_default s in (err = None, s'))"

text \<open>The extension of the last component of a path; a name that starts with its only dot has none.\<close>

definition path_extension :: "string \<Rightarrow> string" where
  "path_extension path =
     (let name = rev (takeWhile (\<lambda>c. c \<noteq> CHR ''/'') (rev path)); ext = rev (takeWhile (\<lambda>c. c \<noteq> CHR ''.'') (rev name))
      in if name = ''..'' \<or> length name \<le> Suc (length ext) then [] else CHR ''.'' # ext)"

text \<open>
  \<open>lines\<close> is the file as lines and \<open>doc\<close> the document the package reads from it, or what it says when it throws;
  both are \<open>None\<close> when the file cannot be opened.
\<close>

definition load_config :: "(json \<Rightarrow> string) \<Rightarrow> u64 \<Rightarrow> string \<Rightarrow> string list option \<Rightarrow> (string + json) option \<Rightarrow> string + LogConfig" where
  "load_config type_error junk path lines doc =
     (let extension = map to_lower (path_extension path)
      in if extension = ''.yaml'' \<or> extension = ''.yml'' then
           (case lines of None \<Rightarrow> Inl (''Cannot open YAML file: '' @ path)
            | Some ls \<Rightarrow> load_from_json type_error junk (yaml_to_json ls))
         else if extension = ''.json'' then
           (case doc of None \<Rightarrow> Inl (''Cannot open config file: '' @ path)
            | Some d \<Rightarrow> on_value d (load_from_json type_error junk))
         else Inl (''Unsupported config file format: '' @ extension))"

definition initialize_logging_from_config ::
  "(json \<Rightarrow> string) \<Rightarrow> u64 \<Rightarrow> 'r spdlog \<Rightarrow> (string \<Rightarrow> string option) \<Rightarrow> (string \<Rightarrow> string option) \<Rightarrow>
   string \<Rightarrow> string list option \<Rightarrow> (string + json) option \<Rightarrow> LogManager \<times> 'r \<Rightarrow> bool \<times> LogManager \<times> 'r" where
  "initialize_logging_from_config type_error junk spd mkdir open_log path lines doc s =
     (case load_config type_error junk path lines doc of
        Inl _ \<Rightarrow> initialize_logging_with_defaults spd mkdir open_log s
      | Inr config \<Rightarrow>
          (case lm_initialize spd mkdir open_log config s of
             (None, s') \<Rightarrow> (True, s')
           | (Some _, s') \<Rightarrow> initialize_logging_with_defaults spd mkdir open_log s'))"

subsection \<open>No logger is handed out\<close>

text \<open>What spdlog documents of its registry: a name is registered once.\<close>

definition registers_once :: "'r spdlog \<Rightarrow> bool" where
  "registers_once spd \<longleftrightarrow>
     (\<forall>l l' r r'. sd_register spd l r = Some r' \<longrightarrow> sp_name l' = sp_name l \<longrightarrow> sd_register spd l' r' = None)"

inductive reachable_manager :: "'r spdlog \<Rightarrow> 'r \<Rightarrow> LogManager \<times> 'r \<Rightarrow> bool" for spd r0 where
  start: "reachable_manager spd r0 (log_manager, r0)"
| init: "reachable_manager spd r0 s \<Longrightarrow> lm_initialize spd mkdir open_log config s = (err, s') \<Longrightarrow> reachable_manager spd r0 s'"
| get: "reachable_manager spd r0 s \<Longrightarrow> lm_get_logger spd name s = (l, s') \<Longrightarrow> reachable_manager spd r0 s'"
| level: "reachable_manager spd r0 s \<Longrightarrow> reachable_manager spd r0 (set_global_level spd lv s)"
| shut: "reachable_manager spd r0 s \<Longrightarrow> reachable_manager spd r0 (lm_shutdown spd s)"

lemma create_sinks_loggers: "create_sinks open_log m = (err, m') \<Longrightarrow> lm_loggers m' = lm_loggers m"
  by (auto simp: create_sinks_def Let_def split: option.splits if_splits)

lemma registers_onceD:
  "registers_once spd \<Longrightarrow> sd_register spd l r = Some r' \<Longrightarrow> sp_name l' = sp_name l \<Longrightarrow> sd_register spd l' r' = None"
  unfolding registers_once_def by blast

lemma get_logger_fresh:
  assumes "registers_once spd" "lm_loggers (fst s) = []"
  shows "\<exists>r. lm_get_logger spd name s = (None, fst s, r)"
proof (cases "setup_logger spd (fst s) name (snd s)")
  case None
  then show ?thesis using assms(2) by (cases s) (simp add: lm_get_logger_def um_lookup_def)
next
  case (Some r1)
  then have "make_logger spd name r1 = None"
    using registers_onceD [OF assms(1)] by (simp add: setup_logger_def make_logger_def Let_def)
  then show ?thesis using Some assms(2) by (simp add: lm_get_logger_def um_lookup_def)
qed

lemma reachable_no_loggers:
  "reachable_manager spd r0 s \<Longrightarrow> registers_once spd \<Longrightarrow> lm_loggers (fst s) = []"
proof (induction rule: reachable_manager.induct)
  case (init s mkdir open_log config err s')
  then show ?case
    by (auto simp: lm_initialize_def Let_def split: option.splits prod.splits if_splits dest!: create_sinks_loggers)
next
  case (get s name l s')
  then show ?case using get_logger_fresh [of spd s name] by auto
qed (simp_all add: log_manager_def set_global_level_def lm_shutdown_def)

text \<open>
  C24. No logger is ever handed out: however the manager is used, \<open>get_logger\<close> throws and the table of loggers
  stays empty, because the manager registers a logger under the name and the constructor of \<open>Logger\<close>
  registers another one under the same name, which spdlog refuses.
\<close>

theorem get_logger_never_returns:
  assumes "registers_once spd" "reachable_manager spd r0 s"
  shows "fst (lm_get_logger spd name s) = None \<and> lm_loggers (fst (snd (lm_get_logger spd name s))) = []"
  using get_logger_fresh [OF assms(1) reachable_no_loggers [OF assms(2,1)], of name]
    reachable_no_loggers [OF assms(2,1)] by auto

definition demo_spdlog :: "string list spdlog" where
  "demo_spdlog = \<lparr> sd_register = (\<lambda>l r. if sp_name l \<in> set r then None else Some (sp_name l # r)),
     sd_set_level = (\<lambda>_ r. r), sd_shutdown = (\<lambda>_. []) \<rparr>"

theorem get_logger_never_returns_witness:
  "registers_once demo_spdlog \<and> fst (lm_get_logger demo_spdlog ''chainforge'' (log_manager, [])) = None"
proof -
  have "registers_once demo_spdlog" by (auto simp: registers_once_def demo_spdlog_def split: if_splits)
  then show ?thesis
    using get_logger_never_returns [OF _ reachable_manager.start, of demo_spdlog "''chainforge''" "[]"] by simp
qed

subsection \<open>Fallback to the defaults\<close>

lemma initialize_config: "lm_config (fst (snd (lm_initialize spd mkdir open_log config s))) = config"
  by (auto simp: lm_initialize_def create_sinks_def Let_def split: option.splits prod.splits)

text \<open>
  Starting from a configuration file succeeds unless even the defaults cannot be set up: the result is
  \<open>true\<close> when the directory and the file of the default configuration can be made, whatever the file holds, and
  a file that cannot be read, has another extension or a wrong value leaves the default configuration.
\<close>

theorem config_fallback:
  assumes "mkdir ''logs'' = None" "open_log ''logs/chainforge.log'' = None"
  shows "fst (initialize_logging_from_config type_error junk spd mkdir open_log path lines doc s)
    \<and> (\<forall>what. load_config type_error junk path lines doc = Inl what \<longrightarrow>
         lm_config (fst (snd (initialize_logging_from_config type_error junk spd mkdir open_log path lines doc s)))
           = create_default)"
proof -
  have d: "fst (lm_initialize spd mkdir open_log create_default t) = None" for t
    using assms by (simp add: lm_initialize_def create_sinks_def create_default_def path_join_def Let_def)
  then show ?thesis
    using initialize_config [of spd mkdir open_log create_default s]
    by (auto simp: initialize_logging_from_config_def initialize_logging_with_defaults_def case_prod_unfold
        split: sum.split option.split)
qed

theorem config_fallback_witness:
  "fst (initialize_logging_from_config (\<lambda>_. ''type'') 0 demo_spdlog (\<lambda>_. None) (\<lambda>_. None) ''node.toml'' (Some []) None
     (log_manager, []))"
  using config_fallback [of "\<lambda>_. None" "\<lambda>_. None" "\<lambda>_. ''type''" 0 demo_spdlog "''node.toml''" "Some []" None
      "(log_manager, [])"] by simp

subsection \<open>From the logger to the record\<close>

lemma json_put_object: "\<exists>m. json_put k x v = Jobject m"
  by (simp add: json_put_def split: json.split)

lemma json_member_put_put [simp]:
  "json_member (json_put k x (json_put k' y v)) j = (if j = k then Some x else json_member (json_put k' y v) j)"
  using json_put_object by (intro json_member_put) blast

lemma json_member_put_null [simp]: "json_member (json_put k x Jnull) j = (if j = k then Some x else None)"
  by (simp add: json_member_def json_put_def um_lookup_def)

lemma json_member_fold_items:
  "json_member (fold (\<lambda>(key, v). json_put key v) items (Jobject m)) j
     = (case map_of (rev items) j of None \<Rightarrow> json_member (Jobject m) j | Some y \<Rightarrow> Some y)"
proof (induction items arbitrary: m)
  case (Cons p items)
  obtain k y where p: "p = (k, y)" by (cases p)
  have "json_put k y (Jobject m) = Jobject (um_insert k y m)" by (simp add: json_put_def)
  then show ?case
    using Cons.IH [of "um_insert k y m"]
    by (simp add: p map_add_def json_member_def um_defs AList.update_conv' split: option.split)
qed simp

lemma record_header_put: "\<exists>k x v. record_header msg = json_put k x v"
  by (auto simp: record_header_def Let_def split: option.split)

lemma log_record_member:
  "json_member (log_record parse f msg) j =
    (case map_of (rev (json_items (jf_global_fields f))) j of
       None \<Rightarrow> json_member (message_fields parse (msg_payload msg) (record_header msg)) j | Some x \<Rightarrow> Some x)"
proof -
  have "\<exists>m. message_fields parse (msg_payload msg) (record_header msg) = Jobject m"
    using json_put_object by (simp add: message_fields_def Let_def split: option.split)
  then obtain m where "message_fields parse (msg_payload msg) (record_header msg) = Jobject m" by blast
  then show ?thesis by (simp add: log_record_def json_member_fold_items split: option.split)
qed

text \<open>Every global field is in the record, in the place of what the message had there.\<close>

lemma log_record_global:
  assumes "distinct_keys (json_items (jf_global_fields f))" "(k, x) \<in> set (json_items (jf_global_fields f))"
  shows "json_member (log_record parse f msg) k = Some x"
proof -
  have "map_of (rev (json_items (jf_global_fields f))) k = Some x"
    using assms by (intro map_of_is_SomeI) (simp_all add: rev_map [symmetric])
  then show ?thesis by (simp add: log_record_member)
qed

text \<open>A message that is the text of an object with a member \<open>message\<close> is replaced by that member.\<close>

lemma plain_message_replaced:
  assumes "parse text = Some v" "json_member v ''message'' = Some x" "json_items (jf_global_fields f) = []"
  shows "json_member (log_record parse f (msg\<lparr>msg_payload := text\<rparr>)) ''message'' = Some x"
  using assms record_header_put [of "msg\<lparr>msg_payload := text\<rparr>"]
  by (auto simp: log_record_member message_fields_def split: option.split)

text \<open>
  What is logged with a context arrives in the record: if the JSON package reads what it prints, the text that
  the logger passes on is turned into a record with the same message and the same fields, as long as no
  global field has one of these two names.
\<close>

theorem structured_message_recovered:
  assumes "should_log l level" "\<not> json_empty context"
    and "dump False (log_entry message context) = Some p" "parse p = Some (log_entry message context)"
    and "''message'' \<notin> fst ` set (json_items (jf_global_fields f))"
    and "''fields'' \<notin> fst ` set (json_items (jf_global_fields f))"
  shows "log_message dump l level message context = Inr (Some p)
    \<and> json_member (log_record parse f (msg\<lparr>msg_payload := p\<rparr>)) ''message'' = Some (Jstring message)
    \<and> json_member (log_record parse f (msg\<lparr>msg_payload := p\<rparr>)) ''fields'' = Some context"
proof -
  have "map_of (rev (json_items (jf_global_fields f))) j = None" if "j \<notin> fst ` set (json_items (jf_global_fields f))" for j
    using that by (simp add: map_of_eq_None_iff)
  moreover obtain k x v where "record_header (msg\<lparr>msg_payload := p\<rparr>) = json_put k x v" using record_header_put by blast
  moreover have "json_member (log_entry message context) ''message'' = Some (Jstring message)"
    "json_member (log_entry message context) ''fields'' = Some context"
    by (simp_all add: log_entry_def)
  ultimately show ?thesis
    using assms by (simp add: log_record_member message_fields_def log_message_def)
qed

theorem structured_message_recovered_witness:
  "\<exists>r. log_record (\<lambda>_. Some (log_entry ''block mined'' (Jobject [(''height'', Jint 7)]))) (json_formatter False)
      \<lparr> msg_time = ''now'', msg_level = INFO, msg_logger_name = ''node'', msg_thread_id = 1, msg_source = None,
        msg_payload = ''p'' \<rparr> = r
    \<and> json_member r ''message'' = Some (Jstring ''block mined'') \<and> json_member r ''fields'' = Some (Jobject [(''height'', Jint 7)])"
  using structured_message_recovered [of "\<lparr> lg_name = ''node'', lg_logger = \<lparr> sp_name = ''node'', sp_sinks = [], sp_level = INFO, sp_flush_on = OFF \<rparr> \<rparr>"
      INFO "Jobject [(''height'', Jint 7)]" "\<lambda>_ _. Some ''p''" "''block mined''" "''p''"
      "\<lambda>_. Some (log_entry ''block mined'' (Jobject [(''height'', Jint 7)]))" "json_formatter False"
      "\<lparr> msg_time = ''now'', msg_level = INFO, msg_logger_name = ''node'', msg_thread_id = 1, msg_source = None,
        msg_payload = ''p'' \<rparr>"]
  by (simp add: should_log_def json_empty_def json_formatter_def add_global_field_def json_put_def json_items_def um_insert_def)

end
