(* ===== verification/Performance_Log.thy ===== *)
theory Performance_Log
  imports Log_Manager
begin

text \<open>
  Timers and performance figures (modules/logging: performance_logger.cpp). What is logged is the list of the
  calls of \<open>Logger::log\<close> with level, message and context. \<open>fmt2\<close> is how the package fmt prints a number with two
  decimals. Durations are integers, microseconds; \<open>now\<close> and \<open>start\<close> are readings of the steady clock in them.
\<close>

type_synonym log_call = "LogLevel \<times> string \<times> json"

definition milliseconds_of :: "int \<Rightarrow> f64" where
  "milliseconds_of us = f64_div (f64_of_int us) (Fin 1000)"

definition with_fields :: "(string \<times> json) list \<Rightarrow> json" where
  "with_fields kvs = fold (\<lambda>(key, v). json_put key v) kvs Jnull"

subsection \<open>Scoped timers\<close>

definition timer_start :: "Logger \<Rightarrow> string \<Rightarrow> LogLevel \<Rightarrow> log_call list" where
  "timer_start l operation level =
     (if should_log l level
      then [(level, ''Starting operation: '' @ operation,
             with_fields [(''operation'', Jstring operation), (''event'', Jstring ''start'')])]
      else [])"

definition timer_done :: "(f64 \<Rightarrow> string) \<Rightarrow> Logger \<Rightarrow> string \<Rightarrow> LogLevel \<Rightarrow> int \<Rightarrow> int \<Rightarrow> log_call list" where
  "timer_done fmt2 l operation level start now =
     (let us = now - start
      in if should_log l level
         then [(level, ''Completed operation: '' @ operation @ '' in '' @ fmt2 (milliseconds_of us) @ ''ms'',
                with_fields [(''operation'', Jstring operation), (''event'', Jstring ''complete''),
                  (''duration_us'', Jint us), (''duration_ms'', Jfloat (milliseconds_of us))])]
         else [])"

definition timer_checkpoint :: "(f64 \<Rightarrow> string) \<Rightarrow> Logger \<Rightarrow> string \<Rightarrow> LogLevel \<Rightarrow> string \<Rightarrow> int \<Rightarrow> int \<Rightarrow> log_call list" where
  "timer_checkpoint fmt2 l operation level checkpoint_name start now =
     (let us = now - start
      in if should_log l level
         then [(level, ''Checkpoint '' @ checkpoint_name @ '' in operation '' @ operation @ '': ''
                  @ fmt2 (milliseconds_of us) @ ''ms'',
                with_fields [(''operation'', Jstring operation), (''event'', Jstring ''checkpoint''),
                  (''checkpoint'', Jstring checkpoint_name), (''duration_us'', Jint us),
                  (''duration_ms'', Jfloat (milliseconds_of us))])]
         else [])"

subsection \<open>Figures\<close>

record OperationStats =
  op_count :: u64
  op_total :: int
  op_min :: int
  op_max :: int

definition empty_stats :: OperationStats where
  "empty_stats = \<lparr> op_count = 0, op_total = 0, op_min = 2 ^ 63 - 1, op_max = 0 \<rparr>"

record PerformanceMetrics =
  pm_operation_stats :: "(string \<times> OperationStats) list"
  pm_counters :: "(string \<times> u64) list"
  pm_memory_usage :: "(string \<times> u64) list"
  pm_throughput :: "(string \<times> f64) list"

definition performance_metrics :: PerformanceMetrics where
  "performance_metrics = \<lparr> pm_operation_stats = [], pm_counters = [], pm_memory_usage = [], pm_throughput = [] \<rparr>"

definition add_duration :: "int \<Rightarrow> OperationStats \<Rightarrow> OperationStats" where
  "add_duration d st =
     \<lparr> op_count = op_count st + 1, op_total = op_total st + d,
       op_min = (if d < op_min st then d else op_min st), op_max = (if op_max st < d then d else op_max st) \<rparr>"

definition record_duration ::
  "(f64 \<Rightarrow> string) \<Rightarrow> Logger \<Rightarrow> string \<Rightarrow> int \<Rightarrow> PerformanceMetrics \<Rightarrow> log_call list \<times> PerformanceMetrics" where
  "record_duration fmt2 l operation d p =
     (let stats = (case um_lookup (pm_operation_stats p) operation of None \<Rightarrow> empty_stats | Some st \<Rightarrow> st)
      in (if should_log l DEBUG
          then [(DEBUG, ''Performance: '' @ operation @ '' took '' @ fmt2 (milliseconds_of d) @ ''ms'',
                 with_fields [(''operation'', Jstring operation), (''duration_us'', Jint d),
                   (''duration_ms'', Jfloat (milliseconds_of d)), (''metric_type'', Jstring ''duration'')])]
          else [],
          p\<lparr>pm_operation_stats := um_insert operation (add_duration d stats) (pm_operation_stats p)\<rparr>))"

definition record_count ::
  "Logger \<Rightarrow> string \<Rightarrow> u64 \<Rightarrow> PerformanceMetrics \<Rightarrow> log_call list \<times> PerformanceMetrics" where
  "record_count l operation n p =
     (let total_count = (case um_lookup (pm_counters p) operation of None \<Rightarrow> 0 | Some c \<Rightarrow> c) + n
      in (if should_log l DEBUG
          then [(DEBUG, ''Performance: '' @ operation @ '' count: '' @ dec_string (unat n),
                 with_fields [(''operation'', Jstring operation), (''count'', Jint (uint n)),
                   (''total_count'', Jint (uint total_count)), (''metric_type'', Jstring ''count'')])]
          else [],
          p\<lparr>pm_counters := um_insert operation total_count (pm_counters p)\<rparr>))"

definition record_memory_usage ::
  "(f64 \<Rightarrow> string) \<Rightarrow> Logger \<Rightarrow> string \<Rightarrow> u64 \<Rightarrow> PerformanceMetrics \<Rightarrow> log_call list \<times> PerformanceMetrics" where
  "record_memory_usage fmt2 l ctx bytes p =
     (let mb = f64_div (f64_of_u64 bytes) (Fin (1024 * 1024))
      in (if should_log l DEBUG
          then [(DEBUG, ''Performance: '' @ ctx @ '' memory: '' @ fmt2 mb @ '' MB'',
                 with_fields [(''context'', Jstring ctx), (''bytes'', Jint (uint bytes)),
                   (''kb'', Jfloat (f64_div (f64_of_u64 bytes) (Fin 1024))), (''mb'', Jfloat mb),
                   (''metric_type'', Jstring ''memory'')])]
          else [],
          p\<lparr>pm_memory_usage := um_insert ctx bytes (pm_memory_usage p)\<rparr>))"

definition record_throughput ::
  "(f64 \<Rightarrow> string) \<Rightarrow> Logger \<Rightarrow> string \<Rightarrow> f64 \<Rightarrow> PerformanceMetrics \<Rightarrow> log_call list \<times> PerformanceMetrics" where
  "record_throughput fmt2 l operation ops p =
     (if should_log l DEBUG
      then [(DEBUG, ''Performance: '' @ operation @ '' throughput: '' @ fmt2 ops @ '' ops/sec'',
             with_fields [(''operation'', Jstring operation), (''ops_per_second'', Jfloat ops),
               (''metric_type'', Jstring ''throughput'')])]
      else [],
      p\<lparr>pm_throughput := um_insert operation ops (pm_throughput p)\<rparr>)"

text \<open>The quotient of the total by the count is taken in \<open>uint64_t\<close>, the common type of the two.\<close>

definition average_duration :: "OperationStats \<Rightarrow> u64" where
  "average_duration st = of_int (op_total st) div op_count st"

definition operation_summary :: "OperationStats \<Rightarrow> json" where
  "operation_summary st =
     Jobject [(''count'', Jint (uint (op_count st))), (''total_duration_ms'', Jfloat (milliseconds_of (op_total st))),
       (''avg_duration_ms'', Jfloat (f64_div (f64_of_u64 (average_duration st)) (Fin 1000))),
       (''min_duration_ms'', Jfloat (milliseconds_of (op_min st))),
       (''max_duration_ms'', Jfloat (milliseconds_of (op_max st)))]"

definition log_summary :: "PerformanceMetrics \<Rightarrow> log_call" where
  "log_summary p =
     (let ops = map (\<lambda>(o1, st). (o1, operation_summary st)) (filter (\<lambda>(_, st). 0 < op_count st) (pm_operation_stats p));
          memory = map (\<lambda>(c, b). (c, Jobject [(''bytes'', Jint (uint b)),
            (''mb'', Jfloat (f64_div (f64_of_u64 b) (Fin (1024 * 1024))))])) (pm_memory_usage p)
      in (INFO, ''Performance metrics summary'',
          with_fields
            ([(''metric_type'', Jstring ''summary'')]
             @ (if ops = [] then [] else [(''operations'', Jobject ops)])
             @ (if pm_counters p = [] then [] else [(''counters'', Jobject (map (\<lambda>(o1, c). (o1, Jint (uint c))) (pm_counters p)))])
             @ (if memory = [] then [] else [(''memory'', Jobject memory)])
             @ (if pm_throughput p = [] then []
                else [(''throughput'', Jobject (map (\<lambda>(o1, x). (o1, Jfloat x)) (pm_throughput p)))]))))"

definition performance_reset :: "PerformanceMetrics \<Rightarrow> log_call \<times> PerformanceMetrics" where
  "performance_reset p = ((INFO, ''Performance metrics reset'', Jnull), performance_metrics)"

subsection \<open>The figures are exact\<close>

definition stats_of :: "int list \<Rightarrow> OperationStats" where
  "stats_of ds = fold add_duration ds empty_stats"

definition run_durations ::
  "(f64 \<Rightarrow> string) \<Rightarrow> Logger \<Rightarrow> (string \<times> int) list \<Rightarrow> PerformanceMetrics \<Rightarrow> PerformanceMetrics" where
  "run_durations fmt2 l = fold (\<lambda>(o1, d) p. snd (record_duration fmt2 l o1 d p))"

abbreviation durations_of :: "string \<Rightarrow> (string \<times> int) list \<Rightarrow> int list" where
  "durations_of o1 recs \<equiv> map snd (filter (\<lambda>r. fst r = o1) recs)"

lemma run_durations_lookup:
  assumes "distinct_keys (pm_operation_stats p)"
  shows "um_lookup (pm_operation_stats (run_durations fmt2 l recs p)) o1
    = (if durations_of o1 recs = [] then um_lookup (pm_operation_stats p) o1
       else Some (fold add_duration (durations_of o1 recs)
              (case um_lookup (pm_operation_stats p) o1 of None \<Rightarrow> empty_stats | Some st \<Rightarrow> st)))"
  using assms
proof (induction recs arbitrary: p)
  case (Cons r recs)
  obtain o2 d where r: "r = (o2, d)" by (cases r)
  let ?q = "snd (record_duration fmt2 l o2 d p)"
  have "distinct_keys (pm_operation_stats ?q)"
    using Cons.prems by (simp add: record_duration_def Let_def um.invar_insert)
  moreover have "um_lookup (pm_operation_stats ?q) o1 =
    (if o1 = o2 then Some (add_duration d (case um_lookup (pm_operation_stats p) o2 of None \<Rightarrow> empty_stats | Some st \<Rightarrow> st))
     else um_lookup (pm_operation_stats p) o1)"
    using Cons.prems by (simp add: record_duration_def Let_def um.lookup_insert)
  ultimately show ?case
    using Cons.IH [of ?q] by (auto simp: r run_durations_def)
qed (simp add: run_durations_def)

lemma add_duration_min_max:
  "add_duration d st = \<lparr> op_count = op_count st + 1, op_total = op_total st + d, op_min = min d (op_min st), op_max = max d (op_max st) \<rparr>"
  by (simp add: add_duration_def min_def max_def)

lemma stats_of_fields:
  assumes "\<forall>d \<in> set ds. 0 \<le> d \<and> d < 2 ^ 63" "ds \<noteq> []"
  shows "stats_of ds = \<lparr> op_count = of_nat (length ds), op_total = sum_list ds, op_min = Min (set ds), op_max = Max (set ds) \<rparr>"
  using assms
proof (induction ds rule: rev_induct)
  case (snoc d ds)
  show ?case
  proof (cases "ds = []")
    case True
    then show ?thesis using snoc.prems by (simp add: stats_of_def add_duration_min_max empty_stats_def)
  next
    case False
    then show ?thesis
      using snoc by (simp add: stats_of_def add_duration_min_max)
  qed
qed simp

text \<open>
  C28. The statistics of an operation are exact: after any sequence of recorded durations, in whatever order the
  operations come, an operation has the number, the sum, the minimum and the maximum of its own durations,
  and the average the summary reports lies between the two.
\<close>

theorem duration_stats_exact:
  assumes "\<forall>(o2, d) \<in> set recs. 0 \<le> d" "ds = durations_of o1 recs" "ds \<noteq> []" "sum_list ds < 2 ^ 63" "length ds < 2 ^ 64"
  shows "\<exists>st. um_lookup (pm_operation_stats (run_durations fmt2 l recs performance_metrics)) o1 = Some st
    \<and> unat (op_count st) = length ds \<and> op_total st = sum_list ds \<and> op_min st = Min (set ds) \<and> op_max st = Max (set ds)
    \<and> Min (set ds) \<le> uint (average_duration st) \<and> uint (average_duration st) \<le> Max (set ds)"
proof -
  have nonneg: "\<forall>d \<in> set ds. 0 \<le> d" using assms(1,2) by auto
  have le_sum: "d \<le> sum_list ds" if "d \<in> set ds" for d
    using that nonneg by (induction ds) (auto simp: sum_list_nonneg intro: order_trans)
  then have "\<forall>d \<in> set ds. 0 \<le> d \<and> d < 2 ^ 63" using nonneg assms(4) by fastforce
  note st = stats_of_fields [OF this assms(3)]
  have "um_lookup (pm_operation_stats (run_durations fmt2 l recs performance_metrics)) o1 = Some (stats_of ds)"
    using run_durations_lookup [of performance_metrics fmt2 l recs o1] assms(2,3)
    by (simp add: performance_metrics_def um_lookup_def stats_of_def)
  moreover have "uint (average_duration (stats_of ds)) = sum_list ds div int (length ds)"
  proof -
    have "0 \<le> sum_list ds" using nonneg by (intro sum_list_nonneg) auto
    moreover have "int (length ds) < 2 ^ 64" using assms(5) by (metis of_nat_less_iff of_nat_numeral of_nat_power)
    moreover have "uint (of_int (sum_list ds) :: u64) = sum_list ds"
      using calculation(1) assms(4) by (simp add: unsigned_of_int take_bit_int_eq_self)
    moreover have "uint (of_nat (length ds) :: u64) = int (length ds)"
      using calculation(2) by (simp add: unsigned_of_nat take_bit_nat_eq_self)
    ultimately show ?thesis by (simp add: average_duration_def st uint_div_distrib)
  qed
  moreover have "Min (set ds) * int (length ds) \<le> sum_list ds" "sum_list ds \<le> Max (set ds) * int (length ds)"
    using sum_list_mono [of ds "\<lambda>_. Min (set ds)" "\<lambda>d. d"] sum_list_mono [of ds "\<lambda>d. d" "\<lambda>_. Max (set ds)"]
    by (simp_all add: sum_list_triv mult.commute)
  then have "Min (set ds) \<le> sum_list ds div int (length ds)" "sum_list ds div int (length ds) \<le> Max (set ds)"
    using zdiv_mono1 [of "Min (set ds) * int (length ds)" "sum_list ds" "int (length ds)"]
      zdiv_mono1 [of "sum_list ds" "Max (set ds) * int (length ds)" "int (length ds)"] assms(3) by simp_all
  ultimately show ?thesis using assms(5) st by (auto simp: unat_of_nat)
qed

theorem duration_stats_exact_witness:
  "\<exists>st. um_lookup (pm_operation_stats (run_durations (\<lambda>_. ''x'')
       \<lparr> lg_name = ''perf'', lg_logger = \<lparr> sp_name = ''perf'', sp_sinks = [], sp_level = INFO, sp_flush_on = OFF \<rparr> \<rparr>
       [(''verify'', 30), (''store'', 5), (''verify'', 10)] performance_metrics)) ''verify'' = Some st
    \<and> unat (op_count st) = 2 \<and> op_total st = 40 \<and> op_min st = 10 \<and> op_max st = 30"
  using duration_stats_exact [of "[(''verify'', 30), (''store'', 5), (''verify'', 10)]" "[30, 10]" "''verify''" "\<lambda>_. ''x''"
      "\<lparr> lg_name = ''perf'', lg_logger = \<lparr> sp_name = ''perf'', sp_sinks = [], sp_level = INFO, sp_flush_on = OFF \<rparr> \<rparr>"]
  by auto

end
