(* ===== verification/Metrics_Service.thy ===== *)
theory Metrics_Service
  imports Simple_Metrics Log_Manager Core_Timestamp
begin

text \<open>
  The metrics of the node (modules/metrics: metrics_registry.cpp, chainforge_metrics.cpp, logging_metrics.cpp,
  gauge.cpp, histogram.cpp, metrics_server.cpp). The package prometheus-cpp is the argument \<open>lib\<close>: a registry of type
  \<open>'p\<close> that owns the metric objects, families \<open>'f\<close> and metric objects \<open>'m\<close>; registering a family and adding a
  metric to it may throw. The three tables of metrics and the three of families, which the code keeps for
  counters, gauges and histograms with the same statements, are indexed by the kind.
\<close>

subsection \<open>Registry\<close>

datatype metric_kind = Counter | Gauge | Histogram

type_synonym labels = "(string \<times> string) list"

record ('p, 'f, 'm) prometheus =
  pr_new :: 'p
  pr_register :: "metric_kind \<Rightarrow> string \<Rightarrow> string \<Rightarrow> 'p \<Rightarrow> 'f throws \<times> 'p"
  pr_add :: "'f \<Rightarrow> labels \<Rightarrow> f64 list \<Rightarrow> 'p \<Rightarrow> 'm throws \<times> 'p"
  pr_increment :: "'m \<Rightarrow> f64 \<Rightarrow> 'p \<Rightarrow> 'p"
  pr_decrement :: "'m \<Rightarrow> f64 \<Rightarrow> 'p \<Rightarrow> 'p"
  pr_set :: "'m \<Rightarrow> f64 \<Rightarrow> 'p \<Rightarrow> 'p"
  pr_observe :: "'m \<Rightarrow> f64 \<Rightarrow> 'p \<Rightarrow> 'p"
  pr_value :: "'m \<Rightarrow> 'p \<Rightarrow> f64"

record ('p, 'f, 'm) MetricsRegistry =
  mr_metrics :: "metric_kind \<Rightarrow> (string \<times> 'm) list"
  mr_families :: "metric_kind \<Rightarrow> (string \<times> 'f) list"
  mr_registry :: 'p

fun print_labels :: "bool \<Rightarrow> labels \<Rightarrow> string" where
  "print_labels first [] = ''}''"
| "print_labels first ((key, v) # ls) = (if first then [] else '','') @ key @ ''='' @ v @ print_labels False ls"

definition generate_metric_key :: "string \<Rightarrow> labels \<Rightarrow> string" where
  "generate_metric_key name ls = name @ (if ls = [] then [] else ''{'' @ print_labels True ls)"

definition metrics_registry :: "('p, 'f, 'm) prometheus \<Rightarrow> ('p, 'f, 'm) MetricsRegistry" where
  "metrics_registry lib = \<lparr> mr_metrics = \<lambda>_. [], mr_families = \<lambda>_. [], mr_registry = pr_new lib \<rparr>"

definition get_family ::
  "('p, 'f, 'm) prometheus \<Rightarrow> metric_kind \<Rightarrow> string \<Rightarrow> string \<Rightarrow> ('p, 'f, 'm) MetricsRegistry \<Rightarrow>
   'f throws \<times> ('p, 'f, 'm) MetricsRegistry" where
  "get_family lib kind name help r =
     (case um_lookup (mr_families r kind) name of
        Some family \<Rightarrow> (Inr family, r)
      | None \<Rightarrow>
          (case pr_register lib kind name help (mr_registry r) of
             (Inl e, p) \<Rightarrow> (Inl e, r\<lparr>mr_registry := p\<rparr>)
           | (Inr family, p) \<Rightarrow> (Inr family, r\<lparr>mr_registry := p,
               mr_families := (mr_families r)(kind := um_insert name family (mr_families r kind))\<rparr>)))"

definition final_buckets :: "metric_kind \<Rightarrow> f64 list \<Rightarrow> f64 list" where
  "final_buckets kind buckets = (if kind = Histogram \<and> buckets = [] then default_buckets else buckets)"

definition create_metric ::
  "('p, 'f, 'm) prometheus \<Rightarrow> metric_kind \<Rightarrow> string \<Rightarrow> string \<Rightarrow> f64 list \<Rightarrow> labels \<Rightarrow> ('p, 'f, 'm) MetricsRegistry \<Rightarrow>
   'm throws \<times> ('p, 'f, 'm) MetricsRegistry" where
  "create_metric lib kind name help buckets ls r =
     (let key = generate_metric_key name ls
      in case um_lookup (mr_metrics r kind) key of
           Some m \<Rightarrow> (Inr m, r)
         | None \<Rightarrow>
             (case get_family lib kind name help r of
                (Inl e, r1) \<Rightarrow> (Inl e, r1)
              | (Inr family, r1) \<Rightarrow>
                  (case pr_add lib family ls (final_buckets kind buckets) (mr_registry r1) of
                     (Inl e, p) \<Rightarrow> (Inl e, r1\<lparr>mr_registry := p\<rparr>)
                   | (Inr m, p) \<Rightarrow> (Inr m, r1\<lparr>mr_registry := p,
                       mr_metrics := (mr_metrics r1)(kind := um_insert key m (mr_metrics r1 kind))\<rparr>))))"



subsection \<open>Gauge trackers and histogram timers\<close>

text \<open>\<open>now\<close> is the time of the system clock, of which the code keeps the whole seconds.\<close>

definition set_to_current_time :: "('p, 'f, 'm) prometheus \<Rightarrow> int \<Rightarrow> 'm \<Rightarrow> int \<Rightarrow> 'p \<Rightarrow> 'p" where
  "set_to_current_time lib ticks g now p = pr_set lib g (f64_of_int (ticks_to_seconds ticks now)) p"

record 'm GaugeTracker =
  gt_gauge :: "'m option"
  gt_tracked_value :: f64

definition gauge_tracker :: "('p, 'f, 'm) prometheus \<Rightarrow> 'm option \<Rightarrow> f64 \<Rightarrow> 'p \<Rightarrow> 'm GaugeTracker \<times> 'p" where
  "gauge_tracker lib gauge v p =
     (\<lparr> gt_gauge = gauge, gt_tracked_value = v \<rparr>, case gauge of None \<Rightarrow> p | Some g \<Rightarrow> pr_increment lib g v p)"

definition tracker_update :: "('p, 'f, 'm) prometheus \<Rightarrow> f64 \<Rightarrow> 'm GaugeTracker \<times> 'p \<Rightarrow> 'm GaugeTracker \<times> 'p" where
  "tracker_update lib new_value s =
     (case gt_gauge (fst s) of
        None \<Rightarrow> s
      | Some g \<Rightarrow> ((fst s)\<lparr>gt_tracked_value := new_value\<rparr>,
          pr_increment lib g new_value (pr_decrement lib g (gt_tracked_value (fst s)) (snd s))))"

definition tracker_destroy :: "('p, 'f, 'm) prometheus \<Rightarrow> 'm GaugeTracker \<times> 'p \<Rightarrow> 'p" where
  "tracker_destroy lib s =
     (case gt_gauge (fst s) of None \<Rightarrow> snd s | Some g \<Rightarrow> pr_decrement lib g (gt_tracked_value (fst s)) (snd s))"

text \<open>Durations in microseconds and in milliseconds are reported in seconds.\<close>

definition observe_duration_us :: "('p, 'f, 'm) prometheus \<Rightarrow> 'm \<Rightarrow> int \<Rightarrow> 'p \<Rightarrow> 'p" where
  "observe_duration_us lib m duration p = pr_observe lib m (f64_div (f64_of_int duration) (Fin 1000000)) p"

definition observe_duration_ms :: "('p, 'f, 'm) prometheus \<Rightarrow> 'm \<Rightarrow> int \<Rightarrow> 'p \<Rightarrow> 'p" where
  "observe_duration_ms lib m duration p = pr_observe lib m (f64_div (f64_of_int duration) (Fin 1000)) p"

record 'm HistogramTimer =
  ht_histogram :: "'m option"
  ht_start_time :: int

text \<open>Times are read from the steady clock, which has \<open>ticks\<close> ticks to the microsecond.\<close>

definition elapsed :: "int \<Rightarrow> int \<Rightarrow> 'm HistogramTimer \<Rightarrow> int" where
  "elapsed ticks now t = ticks_to_seconds ticks (now - ht_start_time t)"

definition record_and_reset ::
  "('p, 'f, 'm) prometheus \<Rightarrow> int \<Rightarrow> int \<Rightarrow> int \<Rightarrow> 'm HistogramTimer \<times> 'p \<Rightarrow> 'm HistogramTimer \<times> 'p" where
  "record_and_reset lib ticks now now' s =
     (case ht_histogram (fst s) of
        None \<Rightarrow> s
      | Some m \<Rightarrow> ((fst s)\<lparr>ht_start_time := now'\<rparr>, observe_duration_us lib m (elapsed ticks now (fst s)) (snd s)))"

definition timer_destroy :: "('p, 'f, 'm) prometheus \<Rightarrow> int \<Rightarrow> int \<Rightarrow> 'm HistogramTimer \<times> 'p \<Rightarrow> 'p" where
  "timer_destroy lib ticks now s =
     (case ht_histogram (fst s) of
        None \<Rightarrow> snd s
      | Some m \<Rightarrow> observe_duration_us lib m (elapsed ticks now (fst s)) (snd s))"

subsection \<open>The node's metrics\<close>

definition SIZE_BYTES :: "f64 list" where
  "SIZE_BYTES = map Fin [1024, 10240, 102400, 1048576, 10485760, 104857600, 1073741824]"

definition HTTP_REQUEST_DURATION :: "f64 list" where
  "HTTP_REQUEST_DURATION =
     map round64 [1 / 1000, 5 / 1000, 1 / 100, 25 / 1000, 5 / 100, 1 / 10, 25 / 100, 1 / 2, 1, 5 / 2, 5, 10]"

definition DB_QUERY_DURATION :: "f64 list" where
  "DB_QUERY_DURATION = map round64 [1 / 10000, 1 / 1000, 1 / 100, 1 / 10, 1, 10]"

definition BLOCK_PROCESSING :: "f64 list" where
  "BLOCK_PROCESSING = map round64 [1 / 1000, 1 / 100, 1 / 10, 1, 5, 10, 30, 60]"

definition TRANSACTION_PROCESSING :: "f64 list" where
  "TRANSACTION_PROCESSING = map round64 [1 / 10000, 1 / 1000, 1 / 100, 1 / 10, 1]"

text \<open>Every metric has the name of its member after \<open>chainforge_\<close>, with the unit added for durations.\<close>

record metric_spec =
  mt_member :: string
  mt_kind :: metric_kind
  mt_name :: string
  mt_help :: string
  mt_buckets :: "f64 list"

definition metric_entry :: "string \<Rightarrow> metric_kind \<Rightarrow> string \<Rightarrow> string \<Rightarrow> f64 list \<Rightarrow> metric_spec" where
  "metric_entry member kind unit help buckets =
     \<lparr> mt_member = member, mt_kind = kind, mt_name = ''chainforge_'' @ member @ unit, mt_help = help, mt_buckets = buckets \<rparr>"

definition chainforge_metrics :: "metric_spec list" where
  "chainforge_metrics =
     [metric_entry ''blocks_processed_total'' Counter [] ''Total number of blocks processed'' [],
      metric_entry ''block_processing_duration'' Histogram ''_seconds'' ''Time spent processing blocks'' BLOCK_PROCESSING,
      metric_entry ''current_block_height'' Gauge [] ''Current blockchain height'' [],
      metric_entry ''block_size_bytes'' Histogram [] ''Size of blocks in bytes'' SIZE_BYTES,
      metric_entry ''transactions_processed_total'' Counter [] ''Total number of transactions processed'' [],
      metric_entry ''transaction_processing_duration'' Histogram ''_seconds'' ''Time spent processing transactions''
        TRANSACTION_PROCESSING,
      metric_entry ''mempool_pending_transactions'' Gauge [] ''Number of pending transactions in mempool'' [],
      metric_entry ''transaction_fees'' Histogram [] ''Distribution of transaction fees'' [],
      metric_entry ''connected_peers'' Gauge [] ''Number of connected peers'' [],
      metric_entry ''network_messages_sent_total'' Counter [] ''Total number of network messages sent'' [],
      metric_entry ''network_messages_received_total'' Counter [] ''Total number of network messages received'' [],
      metric_entry ''network_bytes_sent_total'' Counter [] ''Total bytes sent over network'' [],
      metric_entry ''network_bytes_received_total'' Counter [] ''Total bytes received over network'' [],
      metric_entry ''consensus_rounds_total'' Counter [] ''Total number of consensus rounds'' [],
      metric_entry ''consensus_duration'' Histogram ''_seconds'' ''Time spent in consensus rounds'' default_buckets,
      metric_entry ''active_validators'' Gauge [] ''Number of active validators'' [],
      metric_entry ''db_operations_total'' Counter [] ''Total number of database operations'' [],
      metric_entry ''db_operation_duration'' Histogram ''_seconds'' ''Time spent on database operations'' DB_QUERY_DURATION,
      metric_entry ''db_size_bytes'' Gauge [] ''Database size in bytes'' [],
      metric_entry ''rpc_requests_total'' Counter [] ''Total number of RPC requests'' [],
      metric_entry ''rpc_request_duration'' Histogram ''_seconds'' ''Time spent processing RPC requests'' HTTP_REQUEST_DURATION,
      metric_entry ''rpc_active_connections'' Gauge [] ''Number of active RPC connections'' [],
      metric_entry ''memory_usage_bytes'' Gauge [] ''Memory usage in bytes'' [],
      metric_entry ''cpu_usage_percent'' Gauge [] ''CPU usage percentage'' [],
      metric_entry ''uptime_seconds'' Gauge [] ''Application uptime in seconds'' []]"

text \<open>The members that are set, and the flag; an exception leaves the members set so far.\<close>

record 'm ChainForgeMetrics =
  cm_members :: "(string \<times> 'm) list"
  cm_initialized :: bool

fun create_members ::
  "('p, 'f, 'm) prometheus \<Rightarrow> metric_spec list \<Rightarrow> (string \<times> 'm) list \<times> ('p, 'f, 'm) MetricsRegistry \<Rightarrow>
   exn option \<times> (string \<times> 'm) list \<times> ('p, 'f, 'm) MetricsRegistry" where
  "create_members lib [] s = (None, s)"
| "create_members lib (t # ts) s =
     (case create_metric lib (mt_kind t) (mt_name t) (mt_help t) (mt_buckets t) [] (snd s) of
        (Inl e, r) \<Rightarrow> (Some e, fst s, r)
      | (Inr m, r) \<Rightarrow> create_members lib ts (um_insert (mt_member t) m (fst s), r))"

definition chainforge_initialize ::
  "('p, 'f, 'm) prometheus \<Rightarrow> 'm ChainForgeMetrics \<times> ('p, 'f, 'm) MetricsRegistry \<Rightarrow>
   exn option \<times> 'm ChainForgeMetrics \<times> ('p, 'f, 'm) MetricsRegistry" where
  "chainforge_initialize lib s =
     (if cm_initialized (fst s) then (None, s)
      else case create_members lib chainforge_metrics (cm_members (fst s), snd s) of
        (Some e, ms, r) \<Rightarrow> (Some e, (fst s)\<lparr>cm_members := ms\<rparr>, r)
      | (None, ms, r) \<Rightarrow> (None, \<lparr> cm_members = ms, cm_initialized = True \<rparr>, r))"

subsection \<open>Metrics of the log\<close>

record 'm LoggingMetrics =
  lo_log_messages_total :: "'m option"
  lo_log_message_size_bytes :: "'m option"
  lo_initialized :: bool

abbreviation log_total_help :: string where
  "log_total_help \<equiv> ''Total number of log messages by level and logger''"

definition logging_initialize ::
  "('p, 'f, 'm) prometheus \<Rightarrow> 'm LoggingMetrics \<times> ('p, 'f, 'm) MetricsRegistry \<Rightarrow>
   exn option \<times> 'm LoggingMetrics \<times> ('p, 'f, 'm) MetricsRegistry" where
  "logging_initialize lib s =
     (if lo_initialized (fst s) then (None, s)
      else case create_metric lib Counter ''chainforge_log_messages_total'' log_total_help [] [] (snd s) of
        (Inl e, r1) \<Rightarrow> (Some e, fst s, r1)
      | (Inr c, r1) \<Rightarrow>
          (let l1 = (fst s)\<lparr>lo_log_messages_total := Some c\<rparr>
           in case create_metric lib Histogram ''chainforge_log_message_size_bytes'' ''Size of log messages in bytes''
                (map Fin [64, 256, 1024, 4096, 16384, 65536]) [] r1 of
             (Inl e, r2) \<Rightarrow> (Some e, l1, r2)
           | (Inr h, r2) \<Rightarrow> (None, l1\<lparr>lo_log_message_size_bytes := Some h, lo_initialized := True\<rparr>, r2)))"

definition record_log_event ::
  "('p, 'f, 'm) prometheus \<Rightarrow> 'm LoggingMetrics \<Rightarrow> string \<Rightarrow> string \<Rightarrow> ('p, 'f, 'm) MetricsRegistry \<Rightarrow>
   exn option \<times> ('p, 'f, 'm) MetricsRegistry" where
  "record_log_event lib l level logger_name r =
     (if \<not> lo_initialized l then (None, r)
      else case create_metric lib Counter ''chainforge_log_messages_total'' log_total_help []
             [(''level'', level), (''logger'', logger_name)] r of
        (Inl e, r') \<Rightarrow> (Some e, r')
      | (Inr c, r') \<Rightarrow> (None, r'\<lparr>mr_registry := pr_increment lib c (Fin 1) (mr_registry r')\<rparr>))"

definition record_log_message_size ::
  "('p, 'f, 'm) prometheus \<Rightarrow> 'm LoggingMetrics \<Rightarrow> nat \<Rightarrow> ('p, 'f, 'm) MetricsRegistry \<Rightarrow> ('p, 'f, 'm) MetricsRegistry" where
  "record_log_message_size lib l size_bytes r =
     (if \<not> lo_initialized l then r
      else case lo_log_message_size_bytes l of
        None \<Rightarrow> r
      | Some h \<Rightarrow> r\<lparr>mr_registry := pr_observe lib h (f64_of_int (int size_bytes)) (mr_registry r)\<rparr>)"

fun lower_level :: "LogLevel \<Rightarrow> string" where
  "lower_level TRACE = ''trace''"
| "lower_level DEBUG = ''debug''"
| "lower_level INFO = ''info''"
| "lower_level WARN = ''warn''"
| "lower_level ERROR = ''error''"
| "lower_level CRITICAL = ''critical''"
| "lower_level OFF = ''off''"

text \<open>\<open>Inl ()\<close> when an exception leaves the call, otherwise what the logger passes on.\<close>

definition metrics_log ::
  "('p, 'f, 'm) prometheus \<Rightarrow> (bool \<Rightarrow> json \<Rightarrow> string option) \<Rightarrow> Logger \<Rightarrow> 'm LoggingMetrics \<Rightarrow> LogLevel \<Rightarrow> string \<Rightarrow> json \<Rightarrow>
   ('p, 'f, 'm) MetricsRegistry \<Rightarrow> (unit + string option) \<times> ('p, 'f, 'm) MetricsRegistry" where
  "metrics_log lib dump logger l level message context r =
     (case record_log_event lib l (lower_level level) (sp_name (lg_logger logger)) r of
        (Some _, r1) \<Rightarrow> (Inl (), r1)
      | (None, r1) \<Rightarrow>
          (log_message dump logger level message context, record_log_message_size lib l (length message) r1))"

subsection \<open>Metrics server\<close>

record MetricsServerConfig =
  mc_host :: string
  mc_port :: u16
  mc_path :: string
  mc_thread_pool_size :: u64
  mc_enable_compression :: bool

definition metrics_config_is_valid :: "MetricsServerConfig \<Rightarrow> bool" where
  "metrics_config_is_valid c \<longleftrightarrow> 0 < mc_port c \<and> mc_port c \<le> 65535 \<and> mc_host c \<noteq> [] \<and> mc_path c \<noteq> []"

definition bind_address :: "MetricsServerConfig \<Rightarrow> string" where
  "bind_address c = mc_host c @ '':'' @ dec_string (unat (mc_port c))"

record MetricsServer =
  ms_config :: MetricsServerConfig
  ms_running :: bool

definition metrics_server :: "MetricsServerConfig \<Rightarrow> MetricsServer throws" where
  "metrics_server config =
     (if metrics_config_is_valid config then Inr \<lparr> ms_config = config, ms_running = False \<rparr>
      else Inl (Invalid_argument ''Invalid metrics server configuration''))"

definition metrics_server_start :: "MetricsServer \<Rightarrow> bool \<times> MetricsServer" where
  "metrics_server_start s = (if ms_running s then (True, s) else (True, s\<lparr>ms_running := True\<rparr>))"

definition metrics_server_stop :: "MetricsServer \<Rightarrow> MetricsServer" where
  "metrics_server_stop s = (if \<not> ms_running s then s else s\<lparr>ms_running := False\<rparr>)"

definition metrics_url :: "MetricsServer \<Rightarrow> string" where
  "metrics_url s = ''http://'' @ bind_address (ms_config s) @ mc_path (ms_config s)"

text \<open>Servers are shared objects: \<open>gs_objects\<close> are all that were made, \<open>gs_server\<close> the one that is current.\<close>

record GlobalMetricsServer =
  gs_objects :: "MetricsServer list"
  gs_server :: "nat option"

definition stop_current :: "GlobalMetricsServer \<Rightarrow> GlobalMetricsServer" where
  "stop_current g =
     (case gs_server g of
        None \<Rightarrow> g
      | Some i \<Rightarrow> g\<lparr>gs_objects := (gs_objects g)[i := metrics_server_stop (gs_objects g ! i)]\<rparr>)"

definition global_initialize :: "MetricsServerConfig \<Rightarrow> GlobalMetricsServer \<Rightarrow> bool \<times> GlobalMetricsServer" where
  "global_initialize config g =
     (let g1 = stop_current g
      in case metrics_server config of
           Inl _ \<Rightarrow> (False, g1\<lparr>gs_server := None\<rparr>)
         | Inr s \<Rightarrow>
             (let (ok, s') = metrics_server_start s
              in (ok, \<lparr> gs_objects = gs_objects g1 @ [s'], gs_server = Some (length (gs_objects g1)) \<rparr>)))"

definition global_shutdown :: "GlobalMetricsServer \<Rightarrow> GlobalMetricsServer" where
  "global_shutdown g = (stop_current g)\<lparr>gs_server := None\<rparr>"

definition current_server :: "GlobalMetricsServer \<Rightarrow> MetricsServer option" where
  "current_server g = map_option (\<lambda>i. gs_objects g ! i) (gs_server g)"

definition global_is_running :: "GlobalMetricsServer \<Rightarrow> bool" where
  "global_is_running g = (case current_server g of None \<Rightarrow> False | Some s \<Rightarrow> ms_running s)"

definition get_metrics_url :: "GlobalMetricsServer \<Rightarrow> string" where
  "get_metrics_url g = (case current_server g of None \<Rightarrow> [] | Some s \<Rightarrow> if ms_running s then metrics_url s else [])"

subsection \<open>Keys of metrics\<close>

definition plain_label :: "string \<Rightarrow> bool" where
  "plain_label s \<longleftrightarrow> set s \<inter> set ''{},='' = {}"

definition plain_labels :: "labels \<Rightarrow> bool" where
  "plain_labels ls \<longleftrightarrow> (\<forall>(k, v) \<in> set ls. plain_label k \<and> plain_label v)"

lemma plain_label_split:
  assumes "plain_label a" "plain_label b" "x \<in> set ''{},=''" "y \<in> set ''{},=''"
  shows "a @ x # s = b @ y # t \<longleftrightarrow> a = b \<and> x = y \<and> s = t"
  using assms(1,2)
proof (induction a arbitrary: b)
  case Nil
  then show ?case using assms(3,4) by (cases b) (auto simp: plain_label_def)
next
  case (Cons c a)
  have a: "plain_label a" "c \<noteq> y" using Cons.prems(1) assms(4) by (auto simp: plain_label_def)
  show ?case
  proof (cases b)
    case (Cons d b')
    then have "plain_label b'" using Cons.prems(2) by (simp add: plain_label_def)
    then show ?thesis using Cons.IH [OF a(1)] Cons by auto
  qed (use a(2) in simp)
qed

lemma print_labels_next: "\<exists>x t. print_labels False ls = x # t \<and> x \<in> set ''{},=''"
  by (cases ls) auto

lemma print_labels_not_end: "plain_label k \<Longrightarrow> print_labels f ((k, v) # ls) \<noteq> ''}''"
  by (cases k) (auto simp: plain_label_def)

lemma print_labels_inj:
  "plain_labels ls \<Longrightarrow> plain_labels ls' \<Longrightarrow> print_labels f ls = print_labels f ls' \<longleftrightarrow> ls = ls'"
proof (induction ls arbitrary: f ls')
  case Nil
  then show ?case using print_labels_not_end by (cases ls') (fastforce simp: plain_labels_def)+
next
  case (Cons p ls)
  obtain k v where p: "p = (k, v)" by fastforce
  show ?case
  proof (cases ls')
    case Nil
    then show ?thesis using Cons.prems(1) print_labels_not_end [of k f v ls] by (simp add: p plain_labels_def)
  next
    case (Cons q ls2)
    obtain k' v' where q: "q = (k', v')" by fastforce
    have pl: "plain_label k" "plain_label v" "plain_label k'" "plain_label v'" "plain_labels ls" "plain_labels ls2"
      using Cons.prems Cons by (simp_all add: p q plain_labels_def)
    obtain x t where x: "print_labels False ls = x # t" "x \<in> set ''{},=''" using print_labels_next by blast
    obtain y u where y: "print_labels False ls2 = y # u" "y \<in> set ''{},=''" using print_labels_next by blast
    have "print_labels f (p # ls) = print_labels f ls' \<longleftrightarrow> k = k' \<and> v = v' \<and> print_labels False ls = print_labels False ls2"
      using plain_label_split [OF pl(1,3), of "CHR ''=''" "CHR ''=''"] plain_label_split [OF pl(2,4) x(2) y(2)]
      by (simp add: Cons p q x(1) y(1))
    then show ?thesis using Cons.IH [OF pl(5,6)] by (simp add: Cons p q)
  qed
qed

lemma metric_key_inj:
  assumes "plain_label n" "plain_label n'" "plain_labels ls" "plain_labels ls'"
  shows "generate_metric_key n ls = generate_metric_key n' ls' \<longleftrightarrow> n = n' \<and> ls = ls'"
proof -
  have "m \<noteq> m' @ CHR ''{'' # t" if "plain_label m" for m m' t using that by (auto simp: plain_label_def)
  then show ?thesis
    using plain_label_split [OF assms(1,2), of "CHR ''{''" "CHR ''{''"] print_labels_inj [OF assms(3,4), of True] assms(1,2)
    by (auto simp: generate_metric_key_def)
qed

text \<open>
  Metrics are kept apart by name and labels: as long as these are free of the four characters the key is built
  with, two metrics have the same key exactly when name and labels agree. So the registry hands out the object of
  an existing metric only to a caller that names this metric.
\<close>

theorem metric_key_injective:
  assumes "plain_label n" "plain_label n'" "plain_labels ls" "plain_labels ls'"
  shows "generate_metric_key n ls = generate_metric_key n' ls' \<longleftrightarrow> n = n' \<and> ls = ls'"
  using assms by (rule metric_key_inj)

theorem metric_key_injective_witness:
  "generate_metric_key ''log'' [(''level'', ''info'')] \<noteq> generate_metric_key ''log'' [(''level'', ''warn'')]"
  using metric_key_injective [of "''log''" "''log''" "[(''level'', ''info'')]" "[(''level'', ''warn'')]"]
  by (simp add: plain_label_def plain_labels_def)

text \<open>A label value that contains the separators makes two metrics share an object.\<close>

lemma metric_key_collision:
  "generate_metric_key ''m'' [(''a'', ''1,b=2'')] = generate_metric_key ''m'' [(''a'', ''1''), (''b'', ''2'')]"
  by (simp add: generate_metric_key_def)

subsection \<open>Metrics are created once\<close>

definition registry_inv :: "('p, 'f, 'm) MetricsRegistry \<Rightarrow> bool" where
  "registry_inv r \<longleftrightarrow> (\<forall>kind. distinct_keys (mr_metrics r kind))"

definition metric_of :: "('p, 'f, 'm) MetricsRegistry \<Rightarrow> metric_kind \<Rightarrow> string \<Rightarrow> labels \<Rightarrow> 'm option" where
  "metric_of r kind name ls = um_lookup (mr_metrics r kind) (generate_metric_key name ls)"

lemma get_family_metrics: "get_family lib kind name help r = (res, r') \<Longrightarrow> mr_metrics r' = mr_metrics r"
  by (auto simp: get_family_def split: option.splits prod.splits sum.splits)

lemma create_metric_cases:
  assumes "create_metric lib kind name help buckets ls r = (res, r')"
  obtains (found) m where "metric_of r kind name ls = Some m" "res = Inr m" "r' = r"
  | (made) m where "metric_of r kind name ls = None" "res = Inr m"
      "mr_metrics r' = (mr_metrics r)(kind := um_insert (generate_metric_key name ls) m (mr_metrics r kind))"
  | (thrown) e where "metric_of r kind name ls = None" "res = Inl e" "mr_metrics r' = mr_metrics r"
proof (cases "metric_of r kind name ls")
  case (Some m)
  then have "res = Inr m" "r' = r" using assms by (simp_all add: create_metric_def metric_of_def)
  then show thesis by (rule found [OF Some])
next
  case None
  obtain f r1 where f: "get_family lib kind name help r = (f, r1)" by (metis surj_pair)
  note g = get_family_metrics [OF f]
  show thesis
  proof (cases f)
    case (Inl e)
    then have "res = Inl e" "r' = r1" using assms None f by (simp_all add: create_metric_def metric_of_def)
    then show thesis using g by (intro thrown [OF None]) simp_all
  next
    case (Inr family)
    obtain a p where a: "pr_add lib family ls (final_buckets kind buckets) (mr_registry r1) = (a, p)"
      by (metis surj_pair)
    show thesis
    proof (cases a)
      case (Inl e)
      then have "res = Inl e" "mr_metrics r' = mr_metrics r1"
        using assms None f Inr a by (auto simp: create_metric_def metric_of_def)
      then show thesis using g by (intro thrown [OF None]) simp_all
    next
      case (Inr m)
      then have "res = Inr m" "mr_metrics r' = (mr_metrics r1)(kind := um_insert (generate_metric_key name ls) m (mr_metrics r1 kind))"
        using assms None f \<open>f = Inr family\<close> a by (auto simp: create_metric_def metric_of_def)
      then show thesis using g by (intro made [OF None]) simp_all
    qed
  qed
qed

lemma create_metric_inv:
  assumes "create_metric lib kind name help buckets ls r = (res, r')" "registry_inv r"
  shows "registry_inv r'"
  using assms(1)
  by (cases rule: create_metric_cases) (use assms(2) in \<open>auto simp: registry_inv_def um.invar_insert\<close>)

lemma create_metric_keeps:
  assumes "create_metric lib kind name help buckets ls r = (res, r')" "registry_inv r" "metric_of r kind' name' ls' = Some m"
  shows "metric_of r' kind' name' ls' = Some m"
  using assms(1)
  by (cases rule: create_metric_cases)
    (use assms(2,3) in \<open>auto simp: registry_inv_def metric_of_def um.lookup_insert\<close>)

lemma create_metric_result:
  assumes "create_metric lib kind name help buckets ls r = (Inr m, r')" "registry_inv r"
  shows "metric_of r' kind name ls = Some m"
  using assms(1)
  by (cases rule: create_metric_cases)
    (use assms(2) in \<open>auto simp: registry_inv_def metric_of_def um.lookup_insert\<close>)

lemma create_metric_found:
  "metric_of r kind name ls = Some m \<Longrightarrow> create_metric lib kind name help buckets ls r = (Inr m, r)"
  by (simp add: create_metric_def metric_of_def)

lemma metrics_registry_inv: "registry_inv (metrics_registry lib)"
  by (simp add: registry_inv_def metrics_registry_def um.invar_empty)













text \<open>A library that numbers its objects and keeps a value for each.\<close>

definition sample_prometheus :: "(f64 list, unit, nat) prometheus" where
  "sample_prometheus =
     \<lparr> pr_new = [], pr_register = \<lambda>_ _ _ p. (Inr (), p), pr_add = \<lambda>_ _ _ p. (Inr (length p), p @ [Fin 0]),
       pr_increment = \<lambda>m v p. p[m := f64_add (p ! m) v], pr_decrement = \<lambda>m v p. p[m := f64_add (p ! m) (f64_neg v)],
       pr_set = \<lambda>m v p. p[m := v], pr_observe = \<lambda>_ _ p. p, pr_value = \<lambda>m p. if m < length p then p ! m else NaN \<rparr>"





subsection \<open>Initialisation of the node's metrics\<close>

definition members_set :: "metric_spec list \<Rightarrow> (string \<times> 'm) list \<Rightarrow> ('p, 'f, 'm) MetricsRegistry \<Rightarrow> bool" where
  "members_set ts ms r \<longleftrightarrow>
     (\<forall>t \<in> set ts. \<exists>m. um_lookup ms (mt_member t) = Some m \<and> metric_of r (mt_kind t) (mt_name t) [] = Some m)"

lemma create_members_correct:
  assumes "create_members lib ts (ms, r) = (err, ms', r')" "registry_inv r" "distinct_keys ms"
    and "members_set ts0 ms r" "distinct (map mt_member (ts0 @ ts))"
  shows "registry_inv r' \<and> distinct_keys ms' \<and> (err = None \<longrightarrow> members_set (ts0 @ ts) ms' r')"
  using assms
proof (induction ts arbitrary: ts0 ms r)
  case (Cons t ts)
  obtain res r1 where c: "create_metric lib (mt_kind t) (mt_name t) (mt_help t) (mt_buckets t) [] r = (res, r1)"
    by (metis surj_pair)
  have inv: "registry_inv r1" by (rule create_metric_inv [OF c Cons.prems(2)])
  show ?case
  proof (cases res)
    case (Inl e)
    then show ?thesis using Cons.prems(1,3) inv by (auto simp: c)
  next
    case (Inr m)
    let ?ms = "um_insert (mt_member t) m ms"
    have run: "create_members lib ts (?ms, r1) = (err, ms', r')" using Cons.prems(1) Inr by (simp add: c)
    have d: "distinct_keys ?ms" using Cons.prems(3) by (simp add: um.invar_insert)
    have l: "um_lookup ?ms k = (if k = mt_member t then Some m else um_lookup ms k)" for k
      using Cons.prems(3) by (simp add: um.lookup_insert)
    have old: "\<exists>m. um_lookup ?ms (mt_member u) = Some m \<and> metric_of r1 (mt_kind u) (mt_name u) [] = Some m"
      if "u \<in> set ts0" for u
    proof -
      have "mt_member u \<noteq> mt_member t" using Cons.prems(5) that by (auto simp: image_iff)
      then show ?thesis using Cons.prems(4) that create_metric_keeps [OF c Cons.prems(2)] by (auto simp: members_set_def l)
    qed
    have new: "metric_of r1 (mt_kind t) (mt_name t) [] = Some m"
      using create_metric_result [of lib _ _ _ _ _ r m r1] c Cons.prems(2) by (simp add: Inr)
    have "members_set (ts0 @ [t]) ?ms r1" using old new by (auto simp: members_set_def l)
    then show ?thesis using Cons.IH [OF run inv d, of "ts0 @ [t]"] Cons.prems(5) by simp
  qed
qed simp

definition never_throws :: "('p, 'f, 'm) prometheus \<Rightarrow> bool" where
  "never_throws lib \<longleftrightarrow> (\<forall>kind name hlp p. \<not> isl (fst (pr_register lib kind name hlp p)))
     \<and> (\<forall>f ls bs p. \<not> isl (fst (pr_add lib f ls bs p)))"

lemma create_metric_total: "never_throws lib \<Longrightarrow> \<exists>m. fst (create_metric lib kind name hlp buckets ls r) = Inr m"
  unfolding never_throws_def create_metric_def get_family_def Let_def
  by (auto split: option.split prod.split sum.split) (metis fst_conv sum.disc(1))+

lemma create_members_total: "never_throws lib \<Longrightarrow> fst (create_members lib ts s) = None"
proof (induction ts arbitrary: s)
  case (Cons t ts)
  then show ?case
    using create_metric_total [OF Cons.prems, of "mt_kind t" "mt_name t" "mt_help t" "mt_buckets t" "[]" "snd s"]
    by (auto split: prod.split)
qed simp

definition chainforge_inv :: "'m ChainForgeMetrics \<times> ('p, 'f, 'm) MetricsRegistry \<Rightarrow> bool" where
  "chainforge_inv s \<longleftrightarrow> registry_inv (snd s) \<and> distinct_keys (cm_members (fst s))
     \<and> (cm_initialized (fst s) \<longrightarrow> members_set chainforge_metrics (cm_members (fst s)) (snd s))"

lemma chainforge_members_distinct: "distinct (map mt_member chainforge_metrics)"
  by (simp add: chainforge_metrics_def metric_entry_def)

text \<open>
  Initialising the node's metrics is safe to repeat: the flag is set exactly when the call returns, and then
  each of the 25 members points to the object the registry keeps for the member's metric; after an exception
  from the metrics package, whichever of the calls threw, a later attempt can still complete, and it does when
  the package does not throw.
\<close>

theorem chainforge_initialize_correct:
  assumes "chainforge_inv s" and "chainforge_initialize lib s = (err, s')"
  shows "chainforge_inv s' \<and> (cm_initialized (fst s') \<longleftrightarrow> err = None) \<and> (never_throws lib \<longrightarrow> err = None)
    \<and> (err = None \<longrightarrow> chainforge_initialize lib s' = (None, s'))"
proof (cases "cm_initialized (fst s)")
  case True
  then show ?thesis using assms by (auto simp: chainforge_initialize_def)
next
  case False
  obtain e ms r where c: "create_members lib chainforge_metrics (cm_members (fst s), snd s) = (e, ms, r)"
    by (metis surj_pair)
  have k: "registry_inv r \<and> distinct_keys ms \<and> (e = None \<longrightarrow> members_set chainforge_metrics ms r)"
    using create_members_correct [OF c, of "[]"] assms(1) chainforge_members_distinct
    by (simp add: chainforge_inv_def members_set_def)
  have t: "never_throws lib \<Longrightarrow> e = None"
    using create_members_total [of lib chainforge_metrics "(cm_members (fst s), snd s)"] by (simp add: c)
  show ?thesis
    using assms(2) False c k t by (cases e) (auto simp: chainforge_initialize_def chainforge_inv_def)
qed

definition fresh_chainforge :: "nat ChainForgeMetrics \<times> (f64 list, unit, nat) MetricsRegistry" where
  "fresh_chainforge = (\<lparr> cm_members = [], cm_initialized = False \<rparr>, metrics_registry sample_prometheus)"

lemma fresh_chainforge_inv: "chainforge_inv fresh_chainforge"
  by (simp add: fresh_chainforge_def chainforge_inv_def metrics_registry_inv um.invar_empty)

lemma sample_never_throws: "never_throws sample_prometheus"
  by (simp add: never_throws_def sample_prometheus_def)

theorem chainforge_initialize_correct_witness:
  "fst (chainforge_initialize sample_prometheus fresh_chainforge) = None
   \<and> cm_initialized (fst (snd (chainforge_initialize sample_prometheus fresh_chainforge)))"
  using chainforge_initialize_correct [OF fresh_chainforge_inv, of sample_prometheus]
  by (metis sample_never_throws prod.collapse)

subsection \<open>Gauge trackers leave the gauge as they found it\<close>

lemma fl_of_int: "\<bar>k\<bar> < 2 ^ 53 \<Longrightarrow> fl (of_int k) = of_int k"
  using fl_of_nat [of "nat k"] fl_of_nat [of "nat (- k)"]
  by (cases "0 \<le> k") (auto simp: fl_def nat_less_iff)

lemma round64_of_int:
  assumes "\<bar>k\<bar> < 2 ^ 53"
  shows "round64 (of_int k) = Fin (of_int k)"
proof -
  have b: "\<bar>of_int k\<bar> < (2 :: rat) ^ 53" using assms by (metis of_int_abs of_int_less_iff of_int_numeral of_int_power)
  have "(2 :: rat) ^ 53 < 2 ^ 1024" by (rule power_strict_increasing) simp_all
  with b have "\<not> 2 ^ 1024 \<le> (of_int k :: rat)" "\<not> of_int k \<le> - ((2 :: rat) ^ 1024)" by linarith+
  then show ?thesis unfolding round64_def Let_def fl_of_int [OF assms] by (simp only: if_False)
qed

lemma f64_add_int: "\<bar>i + j\<bar> < 2 ^ 53 \<Longrightarrow> f64_add (Fin (of_int i)) (Fin (of_int j)) = Fin (of_int (i + j))"
  using round64_of_int [of "i + j"] by simp

text \<open>What the package documents of a gauge.\<close>

definition gauge_laws :: "('p, 'f, 'm) prometheus \<Rightarrow> 'm \<Rightarrow> bool" where
  "gauge_laws lib g \<longleftrightarrow> (\<forall>v p. pr_value lib g (pr_increment lib g v p) = f64_add (pr_value lib g p) v)
     \<and> (\<forall>v p. pr_value lib g (pr_decrement lib g v p) = f64_add (pr_value lib g p) (f64_neg v))"

lemma tracker_updates:
  assumes "gauge_laws lib g" "\<bar>a\<bar> < 2 ^ 53" "\<forall>v \<in> set vs. \<bar>a + v\<bar> < 2 ^ 53"
    and "gt_gauge (fst s) = Some g" "gt_tracked_value (fst s) = Fin (of_int v)" "pr_value lib g (snd s) = Fin (of_int (a + v))"
    and "s' = fold (\<lambda>v. tracker_update lib (Fin (of_int v))) vs s"
  shows "gt_gauge (fst s') = Some g \<and> gt_tracked_value (fst s') = Fin (of_int (last (v # vs)))
    \<and> pr_value lib g (snd s') = Fin (of_int (a + last (v # vs)))"
  using assms
proof (induction vs arbitrary: v s)
  case (Cons w vs)
  let ?s = "tracker_update lib (Fin (of_int w)) s"
  have "pr_value lib g (pr_decrement lib g (Fin (of_int v)) (snd s)) = Fin (of_int a)"
    using Cons.prems f64_add_int [of "a + v" "- v"] by (simp add: gauge_laws_def)
  then have "pr_value lib g (snd ?s) = Fin (of_int (a + w))"
    using Cons.prems f64_add_int [of a w] by (simp add: tracker_update_def gauge_laws_def)
  moreover have "gt_gauge (fst ?s) = Some g" "gt_tracked_value (fst ?s) = Fin (of_int w)"
    using Cons.prems by (simp_all add: tracker_update_def)
  ultimately show ?case using Cons.IH [of ?s w] Cons.prems by simp
qed simp

text \<open>
  A tracker contributes exactly its current value to its gauge and takes it back at the end: for whole numbers
  below \<open>2^53\<close> a gauge holds, after the tracker was made and updated any number of times, what it held before
  plus the last value, and when the tracker is destroyed it holds again what it held before.
\<close>

theorem gauge_tracker_balanced:
  assumes "gauge_laws lib g" "\<bar>a\<bar> < 2 ^ 53" "\<forall>v \<in> set (v # vs). \<bar>a + v\<bar> < 2 ^ 53"
    and "pr_value lib g p = Fin (of_int a)"
    and "s = fold (\<lambda>v. tracker_update lib (Fin (of_int v))) vs (gauge_tracker lib (Some g) (Fin (of_int v)) p)"
  shows "pr_value lib g (snd s) = Fin (of_int (a + last (v # vs))) \<and> pr_value lib g (tracker_destroy lib s) = Fin (of_int a)"
proof -
  let ?t = "gauge_tracker lib (Some g) (Fin (of_int v)) p"
  have "pr_value lib g (snd ?t) = Fin (of_int (a + v))"
    using assms f64_add_int [of a v] by (simp add: gauge_tracker_def gauge_laws_def)
  then have t: "gt_gauge (fst s) = Some g \<and> gt_tracked_value (fst s) = Fin (of_int (last (v # vs)))
      \<and> pr_value lib g (snd s) = Fin (of_int (a + last (v # vs)))"
    using assms by (intro tracker_updates [of lib g a vs ?t v s]) (simp_all add: gauge_tracker_def)
  then show ?thesis
    using assms(1,2) f64_add_int [of "a + last (v # vs)" "- last (v # vs)"]
    by (simp add: tracker_destroy_def gauge_laws_def)
qed

definition one_gauge :: "(f64, unit, unit) prometheus" where
  "one_gauge =
     \<lparr> pr_new = Fin 0, pr_register = \<lambda>_ _ _ p. (Inr (), p), pr_add = \<lambda>_ _ _ p. (Inr (), p),
       pr_increment = \<lambda>_ v p. f64_add p v, pr_decrement = \<lambda>_ v p. f64_add p (f64_neg v),
       pr_set = \<lambda>_ v _. v, pr_observe = \<lambda>_ _ p. p, pr_value = \<lambda>_ p. p \<rparr>"

theorem gauge_tracker_balanced_witness:
  "pr_value one_gauge () (tracker_destroy one_gauge (fold (\<lambda>v. tracker_update one_gauge (Fin (of_int v))) [7, -3]
     (gauge_tracker one_gauge (Some ()) (Fin 5) (Fin 10)))) = Fin 10"
  using gauge_tracker_balanced [of one_gauge "()" 10 5 "[7, -3]" "Fin 10"]
  by (simp add: gauge_laws_def one_gauge_def)

subsection \<open>Log messages are counted\<close>

lemma record_log_event_counts:
  assumes "registry_inv r" "gauge_laws lib c" "lo_initialized l"
    and "metric_of r Counter ''chainforge_log_messages_total'' [(''level'', level), (''logger'', name)] = Some c"
  shows "\<exists>r'. record_log_event lib l level name r = (None, r') \<and> mr_metrics r' = mr_metrics r
    \<and> pr_value lib c (mr_registry r') = f64_add (pr_value lib c (mr_registry r)) (Fin 1)"
  using assms create_metric_found [OF assms(4)] by (simp add: record_log_event_def gauge_laws_def)

text \<open>A message that the logger drops because of its level is counted as well.\<close>

lemma dropped_messages_counted:
  assumes "\<not> should_log logger level" "record_log_event lib l (lower_level level) (sp_name (lg_logger logger)) r = (None, r1)"
  shows "metrics_log lib dump logger l level message context r =
    (Inr None, record_log_message_size lib l (length message) r1)"
  using assms by (simp add: metrics_log_def log_message_def)

subsection \<open>One metrics server\<close>

datatype server_op = Initialize MetricsServerConfig | Shutdown

fun run_server_op :: "server_op \<Rightarrow> GlobalMetricsServer \<Rightarrow> GlobalMetricsServer" where
  "run_server_op (Initialize config) g = snd (global_initialize config g)"
| "run_server_op Shutdown g = global_shutdown g"

definition no_server :: GlobalMetricsServer where
  "no_server = \<lparr> gs_objects = [], gs_server = None \<rparr>"

definition one_server :: "GlobalMetricsServer \<Rightarrow> bool" where
  "one_server g \<longleftrightarrow> (\<forall>i. gs_server g = Some i \<longrightarrow> i < length (gs_objects g))
     \<and> (\<forall>i < length (gs_objects g). ms_running (gs_objects g ! i) \<longleftrightarrow> gs_server g = Some i)"

lemma stop_current_stops: "one_server g \<Longrightarrow> i < length (gs_objects (stop_current g)) \<Longrightarrow> \<not> ms_running (gs_objects (stop_current g) ! i)"
  by (auto simp: one_server_def stop_current_def metrics_server_stop_def nth_list_update split: option.splits)

lemma run_server_op_one:
  assumes "one_server g"
  shows "one_server (run_server_op op g)"
proof (cases op)
  case (Initialize config)
  note s = stop_current_stops [OF assms]
  show ?thesis
  proof (cases "metrics_config_is_valid config")
    case True
    then show ?thesis
      using s by (auto simp: one_server_def Initialize global_initialize_def metrics_server_def metrics_server_start_def
          Let_def nth_append less_Suc_eq)
  next
    case False
    then show ?thesis using s by (auto simp: one_server_def Initialize global_initialize_def metrics_server_def Let_def)
  qed
qed (use stop_current_stops [OF assms] in \<open>simp add: one_server_def global_shutdown_def\<close>)

lemma server_ops_one: "one_server (fold run_server_op ops no_server)"
  by (induction ops rule: rev_induct) (simp_all add: run_server_op_one, simp add: one_server_def no_server_def)

text \<open>
  At most one metrics server runs, however often the global server is started and shut down: the running
  server is the current one, it is the one of the last operation if that was a start with a valid
  configuration, and the address reported is this configuration's; after a shutdown or a refused
  configuration none runs and no address is reported.
\<close>

theorem metrics_server_lifecycle:
  assumes "g = fold run_server_op ops no_server"
  shows "(\<forall>i < length (gs_objects g). ms_running (gs_objects g ! i) \<longleftrightarrow> gs_server g = Some i)
    \<and> (case rev ops of
         Initialize c # _ \<Rightarrow>
           global_is_running g = metrics_config_is_valid c
           \<and> get_metrics_url g = (if metrics_config_is_valid c then ''http://'' @ bind_address c @ mc_path c else [])
       | _ \<Rightarrow> \<not> global_is_running g \<and> get_metrics_url g = [])"
proof
  show "\<forall>i < length (gs_objects g). ms_running (gs_objects g ! i) \<longleftrightarrow> gs_server g = Some i"
    using server_ops_one [of ops] by (simp add: assms one_server_def)
  show "case rev ops of
         Initialize c # _ \<Rightarrow>
           global_is_running g = metrics_config_is_valid c
           \<and> get_metrics_url g = (if metrics_config_is_valid c then ''http://'' @ bind_address c @ mc_path c else [])
       | _ \<Rightarrow> \<not> global_is_running g \<and> get_metrics_url g = []"
    unfolding assms
    by (cases ops rule: rev_cases)
      (auto simp: no_server_def global_is_running_def get_metrics_url_def current_server_def global_initialize_def
        metrics_server_def metrics_server_start_def metrics_url_def global_shutdown_def Let_def split: server_op.split)
qed

theorem metrics_server_lifecycle_witness:
  "get_metrics_url (fold run_server_op [Initialize \<lparr> mc_host = ''h'', mc_port = 80, mc_path = ''/m'', mc_thread_pool_size = 1, mc_enable_compression = True \<rparr>] no_server) = ''http://h:80/m''"
  using metrics_server_lifecycle [OF refl, of "[Initialize \<lparr> mc_host = ''h'', mc_port = 80, mc_path = ''/m'', mc_thread_pool_size = 1, mc_enable_compression = True \<rparr>]"]
  by (simp add: metrics_config_is_valid_def bind_address_def dec_string_def show_base.simps digit_char_def)

end
