(* ===== verification/Spec2Isabelle.thy ===== *)
theory Spec2Isabelle
  imports Block_Store Core_Program Peer_Discovery Curve_Stubs Error_Services Error_Example
    Tcp_Server Tcp_Client Udp_Transport Rpc_Methods Http_Lifecycle Performance_Log Metrics_Service
begin

text \<open>
  A model of ChainForge, a blockchain node written in C++20, with the theorems that say what its components do.
  Paths below are relative to src/modules.

  The program is a set of modules over the value types of core. Transactions and blocks (core) are checked
  and queued by the mempool, gathered into blocks and mined (consensus), converted to messages and checked
  on the way in (serialization), kept in a key-value store (storage), hashed and signed (crypto), and
  exchanged with peers that discovery finds over TCP and UDP (p2p). A JSON-RPC server answers clients (rpc).
  What happens is logged (logging) and counted (metrics). In the sources the modules meet through the types of
  core; there is no main loop that connects them all.

  Conventions. An unsigned integer is a word of its width, so arithmetic wraps where the code wraps. A
  \<open>double\<close> is a value of \<open>f64\<close> (Float64), which rounds as IEEE 754 does. A class is a record, a method a
  function that returns the changed record; an exception is the left side of a sum (\<open>throws\<close>). A
  \<open>std::unordered_map\<close> is an association list behind the contract \<open>map_contract\<close> (Containers). The clock, the
  random device, \<open>rand\<close>, sockets and third-party packages are arguments; what the code needs of them is a
  hypothesis of the theorem, with a witness that satisfies it. A method that locks a mutex its thread already
  holds has the outcome \<open>Self_lock\<close> (Locking); \<open>relock\<close> says whether the mutex would allow it.

  Shared theories.
  \<^item> CF_Prelude: words, bytes, exceptions, number parsing and printing (\<open>stoull\<close>, \<open>std::hex\<close>). Float64: \<open>double\<close>.
    Containers: maps, vectors, sets and their contracts. Merkle: the pairwise reduction that blocks and
    \<open>Hash::hash_many\<close> share. Json: JSON values as rpc and logging use them. Locking: mutexes. Async_Io: the contract \<open>receive_loop\<close> of an asynchronous reader.

  Components.
  \<^item> Core_Hash, Core_Amount, Core_Timestamp (core/src/hash.cpp, address.cpp, amount.cpp, timestamp.cpp):
    round trips of the texts, arithmetic that is exact or throws, error bounds of the conversion from \<open>double\<close>.
  \<^item> Timestamp_Iso (core/src/timestamp.cpp): the Gregorian calendar of the C library, printing as ISO 8601 and reading
    back, which is the identity in UTC and shifts by the offset in any other zone.
  \<^item> Core_Transaction (core/src/transaction.cpp): setters and the cached hash, which is never stale; validation.
    A hash table keyed by its hash puts all transactions of a sender into one bucket.
  \<^item> Core_Block (core/src/block.cpp): every block built through the interface carries the root of its
    transactions, and \<open>block_use\<close> says when assignments through the mutable accessors end this; the root loop equals the tree of Merkle.
  \<^item> Core_Program (core/src/main.cpp and both \<open>to_json\<close>): which transactions their JSON tells apart; the core
    program with all its output and its exit code.
  \<^item> Core_Errors, Error_Recovery, Error_Services (core: expected.hpp, error.hpp, error_utils.hpp, error.cpp and the
    integration guide): combinators of \<open>expected\<close> and its specialisation, retry loops, circuit breaker over histories
    of calls that may also throw, error tracker, rate limiter, and a database service behind the breaker, which three mistaken requests shut.
  \<^item> Error_Retry, Error_Example (error_utils.hpp, examples/simple_error_example.cpp): the pauses between attempts, computed
    in \<open>double\<close>, as a refinement of the plain retry loop; the exact output of the simple example.
  \<^item> Crypto_Hash, Crypto_Keys, Crypto_Signature, Curve_Stubs (crypto/src): hashing over the digests of OpenSSL,
    random values, key pairs, signatures, curve stubs and constants; which of them can succeed with the
    documented libraries, and which constants are those of the curves.
  \<^item> Mempool, Mempool_Laws, Mempool_Runs (mempool/src/mempool_impl.cpp): adding, replacing, evicting and selecting. The pool
    invariant ties table, nonce index and priority queue together. With \<open>std::shared_mutex\<close>, which may not be
    locked again, \<open>add_transaction\<close> never succeeds; the theorems hold for either kind of mutex. Mempool_Runs follows every
    sequence of public calls: replacements that are refused or collide cost the invariant (\<open>tidy\<close>), and what is left of
    it is stated.
  \<^item> Block_Assembly: selection by the mempool and validation by the block agree.
  \<^item> Block_Relay, Block_Store: a block from the pool or the miner through the encoder to the checks of a
    receiver, which blocks get through, and a block that is stored under its hash and read back.
  \<^item> Consensus (consensus/src/consensus_impl.cpp): the mining loop ends within 43 attempts, so no fuel is
    needed; interleavings of miner and stop requests as a step relation; difficulty within its bounds.
  \<^item> Storage (storage/src/rocksdb_database.cpp): the database refines a partial map; iterators scan it in order.
  \<^item> Peer_Address, Peer_Exchange, Peer_Discovery (p2p/src/peer_address.cpp, peer_discovery.cpp): the peer set,
    its invariant over every use, the peer list format and its round trip.
  \<^item> Tcp_Connection, Tcp_Server, Tcp_Client, Udp_Transport (p2p/src/tcp_connection.cpp, tcp_server.cpp,
    tcp_client.cpp, udp_transport.cpp): completions of Asio are events; delivery by the receive loops, the
    server that locks itself when it stops and notices a closed peer only while it reads, the writes a broadcast
    starts, reconnection of the client and its end.
  \<^item> Serialization, Validator (serialization/src/serializer.cpp, validator.cpp): what survives encoding and
    decoding when the wire format is faithful, and exactly what the decoders accept and return whatever arrives.
  \<^item> Http_Server, Rpc_Server, Rpc_Methods (rpc/src/http_server.cpp, rpc_server_impl.cpp,
    blockchain_rpc_methods.cpp): from the bytes of a connection through the JSON-RPC dispatch to the response.
  \<^item> Http_Lifecycle (rpc/src/http_server.cpp): \<open>start\<close>, \<open>stop\<close> and the server loop as interleaved steps of two threads
    and the detached threads of the connections; what is left when \<open>stop\<close> returns, and the interleaving in which it never does.
  \<^item> Log_Config, Log_Manager, Performance_Log (logging/src): sizes, levels and the YAML reader of the configuration;
    the manager, its sinks and loggers over the registry of spdlog, the JSON formatter; exact timing figures.
  \<^item> Simple_Metrics, Metrics_Service (metrics/src): counters, gauges and cumulative histograms behind a registry of
    shared objects, with the printed form of numbers; the labelled registry over prometheus-cpp, which keeps one object for each
    name and labels, the node's 25 metrics, log metrics, gauge trackers, histogram timers and the one global metrics server.

  Bounds. Loops of the code are structural recursion, or \<open>function\<close> with a measure; no definition uses fuel.
  Properties over sequences of calls (\<open>block_use\<close>, \<open>reachable_pool\<close>, \<open>breaker_history\<close>, \<open>metrics_past\<close>, the runs of discovery, clients and
  miner) hold for sequences of any length. Numeric provisos (gas sums below \<open>2 ^ 64\<close>, tables below \<open>2 ^ 31\<close> keys,
  gas prices below \<open>2 ^ 48\<close>) stand in the theorems, and lemmas beside some of them show the wrap-around without.

  Not modelled.
  \<^item> The code that Protocol Buffers generates, the JSON package, OpenSSL, libsecp256k1, libsodium, Boost.Asio,
    spdlog and prometheus-cpp: arguments.
  \<^item> Socket options, multicast group membership, the Windows branches of the HTTP server.
  \<^item> The stream output of core; \<open>retry\<close>, \<open>with_bulkhead\<close> and the block and RPC services of the integration
    guide, whose results do not convert, so that they compile for no argument; the sign of a zero of type
    \<open>double\<close>; accessors, forwarding members, macros and constants that no other code uses.
  \<^item> The error handling example, which returns a \<open>VoidResult\<close> for a \<open>Result<int>\<close>, and the logging example, which formats a
    \<open>LogContext\<close>: neither compiles. The metrics example, which only calls and prints, and the tests.
  \<^item> What is left of the headers is declarations, macros and members that forward to the functions above.
\<close>

end
